(* ===== verification/Prelude.thy ===== *)
theory Prelude
  imports Main "HOL-Library.Word"
begin

unbundle bit_operations_syntax

text \<open>
  What every component of the model shares: the machine integers of the source (\<open>u8\<close>,
  \<open>u16\<close>, \<open>u32\<close>, \<open>u64\<close> and the 64-bit \<open>usize\<close> of the \<open>riscv64\<close> and
  \<open>x86-64\<close> targets), Rust's \<open>checked_add\<close> and \<open>ok_or\<close>, the closed error enum
  of \<open>src/error.rs\<close>, the fixed capacities of \<open>src/limits.rs\<close>, the three ways a
  handler can end, and the collections of rewrite rules the component proofs use:
  \<open>observe\<close> (what one primitive update does to each observation of the kernel state)
  and \<open>wf_rules\<close> (which well-formedness each operation keeps).
\<close>

type_synonym u8 = "8 word"
type_synonym u16 = "16 word"
type_synonym u32 = "32 word"
type_synonym u64 = "64 word"
type_synonym usize = "64 word"

named_theorems observe "effect of a primitive state update on an observation"
named_theorems wf_rules "preservation of well-formedness"

section \<open>Errors (src/error.rs)\<close>

datatype syscall_error =
    InvalidCapability
  | InvalidArgument
  | IllegalOperation
  | RangeError
  | AlignmentError
  | FailedLookup
  | TruncatedMessage
  | NotEnoughMemory
  | Timeout

fun error_code :: "syscall_error \<Rightarrow> usize" where
  "error_code InvalidCapability = 1"
| "error_code InvalidArgument = 2"
| "error_code IllegalOperation = 3"
| "error_code RangeError = 4"
| "error_code AlignmentError = 5"
| "error_code FailedLookup = 6"
| "error_code TruncatedMessage = 7"
| "error_code NotEnoughMemory = 8"
| "error_code Timeout = 9"

lemma error_code_inject: "error_code a = error_code b \<longleftrightarrow> a = b"
  by (cases a; cases b; simp)

section \<open>Fixed capacities (src/limits.rs)\<close>

definition MAX_CNODES :: nat where "MAX_CNODES = 7"
definition MAX_TCBS :: nat where "MAX_TCBS = 8"
definition MAX_ENDPOINTS :: nat where "MAX_ENDPOINTS = 8"
definition MAX_NOTIFICATIONS :: nat where "MAX_NOTIFICATIONS = 8"
definition MAX_UNTYPEDS :: nat where "MAX_UNTYPEDS = 4"
definition MAX_SCHED_CONTEXTS :: nat where "MAX_SCHED_CONTEXTS = 8"
definition MAX_VSPACES :: nat where "MAX_VSPACES = 6"
definition MAX_FRAMES :: nat where "MAX_FRAMES = 28"
definition MAX_KERNEL_PAGE_TABLES :: usize where "MAX_KERNEL_PAGE_TABLES = 32"
definition CNODE_SLOTS :: nat where "CNODE_SLOTS = 72"

lemmas limits = MAX_CNODES_def MAX_TCBS_def MAX_ENDPOINTS_def MAX_NOTIFICATIONS_def
  MAX_UNTYPEDS_def MAX_SCHED_CONTEXTS_def MAX_VSPACES_def MAX_FRAMES_def CNODE_SLOTS_def

section \<open>How a handler ends\<close>

text \<open>
  A syscall handler takes \<open>&mut KernelState\<close> and \<open>&mut TrapFrame\<close> and returns
  \<open>Result<(), SyscallError>\<close>. Both references may have been written before an early
  return, so the error carries the state too. \<open>Panic\<close> is every way the source can
  abort instead of returning: \<open>expect\<close> on \<open>None\<close>, \<open>unreachable!\<close>, a failed
  \<open>debug_assert!\<close>, an index out of bounds, and arithmetic overflow (overflow checks on).
\<close>

datatype ('s, 'f) outcome =
    Ok (out_state: 's) (out_frame: 'f)
  | Err syscall_error (out_state: 's) (out_frame: 'f)
  | Panic

section \<open>Rust's arithmetic and option helpers\<close>

definition checked_add :: "usize \<Rightarrow> usize \<Rightarrow> usize option" where
  "checked_add a b = (if unat a + unat b < 2 ^ 64 then Some (a + b) else None)"

definition ok_or :: "'a option \<Rightarrow> 'e \<Rightarrow> 'e + 'a" where
  "ok_or x e = (case x of None \<Rightarrow> Inl e | Some v \<Rightarrow> Inr v)"

lemma ok_or_simps [simp]:
  "ok_or None e = Inl e"
  "ok_or (Some v) e = Inr v"
  by (simp_all add: ok_or_def)

lemma ok_or_Inr [simp]: "ok_or x e = Inr v \<longleftrightarrow> x = Some v"
  by (simp add: ok_or_def split: option.splits)

lemma unat_usize_less: "unat (x :: usize) < 2 ^ 64"
  by (rule order_less_le_trans [OF unsigned_less]) simp

lemma unat_usize_power:
  assumes "k < 64"
  shows "unat (2 ^ k :: usize) = 2 ^ k"
proof -
  have "(2 :: nat) ^ k < 2 ^ 64" using assms by (rule power_strict_increasing) simp
  moreover have "(2 :: usize) ^ k = of_nat (2 ^ k)" by simp
  ultimately show ?thesis by (simp only: unat_of_nat len_num1 len_num0 len_bit0 mod_less) simp
qed

lemma unat_add_exact: "unat a + unat b < 2 ^ 64 \<Longrightarrow> unat (a + b :: usize) = unat a + unat b"
  by (simp add: unat_word_ariths)

lemma checked_add_Some:
  "checked_add a b = Some c \<longleftrightarrow> unat a + unat b < 2 ^ 64 \<and> c = a + b"
  by (auto simp: checked_add_def)

lemma checked_add_unat: "checked_add a b = Some c \<Longrightarrow> unat c = unat a + unat b"
  by (auto simp: checked_add_Some unat_add_exact)

section \<open>Lists\<close>

lemma mod_offset_le:
  fixes h i j N :: nat
  assumes "(h + i) mod N = (h + j) mod N" and "i \<le> j" and "j < N"
  shows "i = j"
proof -
  have "N dvd (h + j) - (h + i)"
    using assms(1,2) by (metis add_le_cancel_left mod_eq_dvd_iff_nat)
  with assms(2,3) show ?thesis
    by (metis add_diff_cancel_left diff_is_0_eq dvd_imp_le le_antisym less_imp_diff_less
        linorder_not_less neq0_conv)
qed

lemma mod_offset_inject:
  fixes h i j N :: nat
  assumes "(h + i) mod N = (h + j) mod N" and "i < N" and "j < N"
  shows "i = j"
  using assms mod_offset_le [of h i N j] mod_offset_le [of h j N i] by (cases "i \<le> j") auto

end
