(* ===== verification/Queue.thy ===== *)
theory Queue
  imports Prelude
begin

text \<open>
  \<open>src/queue.rs\<close>: the fixed-capacity FIFO behind the ready queue and every wait queue.
  The ring buffer is modelled as it is stored (slots, head, length, indices modulo the
  capacity); \<open>aq_list\<close> reads it as the list of its elements, and the locale \<open>fifo\<close>
  states the contract its clients use. The interpretation \<open>aq\<close> proves that the ring
  buffer meets the contract, \<open>remove\<close>'s in-place compaction included.
\<close>

section \<open>The ring buffer\<close>

record 'a array_queue =
  aq_items :: "'a option list"
  aq_head :: nat
  aq_len :: nat

definition aq_new :: "nat \<Rightarrow> 'a array_queue" where
  "aq_new N = \<lparr>aq_items = replicate N None, aq_head = 0, aq_len = 0\<rparr>"

definition aq_is_empty :: "'a array_queue \<Rightarrow> bool" where
  "aq_is_empty q \<longleftrightarrow> aq_len q = 0"

definition aq_front :: "'a array_queue \<Rightarrow> 'a option" where
  "aq_front q = (if aq_len q = 0 then None else aq_items q ! aq_head q)"

definition aq_push_back :: "'a array_queue \<Rightarrow> 'a \<Rightarrow> bool \<times> 'a array_queue" where
  "aq_push_back q v =
     (let N = length (aq_items q) in
      if aq_len q \<ge> N then (False, q)
      else
        let idx = (aq_head q + aq_len q) mod N in
        (True, q\<lparr>aq_items := (aq_items q)[idx := Some v], aq_len := aq_len q + 1\<rparr>))"

definition aq_pop_front :: "'a array_queue \<Rightarrow> 'a option \<times> 'a array_queue" where
  "aq_pop_front q =
     (let N = length (aq_items q) in
      if aq_len q = 0 then (None, q)
      else
        (aq_items q ! aq_head q,
         q\<lparr>aq_items := (aq_items q)[aq_head q := None],
           aq_head := (aq_head q + 1) mod N,
           aq_len := aq_len q - 1\<rparr>))"

text \<open>
  The body of \<open>remove\<close>'s \<open>for i in 0..self.len\<close> loop, over the list of the remaining
  \<open>i\<close>: the loop variables are the slots, the write cursor, the new length and \<open>found\<close>.
\<close>

fun aq_remove_loop ::
  "'a \<Rightarrow> nat \<Rightarrow> nat list \<Rightarrow> 'a option list \<Rightarrow> nat \<Rightarrow> nat \<Rightarrow> bool
    \<Rightarrow> 'a option list \<times> nat \<times> bool" where
  "aq_remove_loop v head [] items write new_len found = (items, new_len, found)"
| "aq_remove_loop v head (i # is) items write new_len found =
     (let N = length items;
          idx = (head + i) mod N;
          item = items ! idx;
          items = items[idx := None]
      in if \<not> found \<and> item = Some v
         then aq_remove_loop v head is items write new_len True
         else aq_remove_loop v head is (items[write := item]) ((write + 1) mod N)
                (new_len + 1) found)"

definition aq_remove :: "'a array_queue \<Rightarrow> 'a \<Rightarrow> bool \<times> 'a array_queue" where
  "aq_remove q v =
     (case aq_remove_loop v (aq_head q) [0..<aq_len q] (aq_items q) (aq_head q) 0 False of
        (items, new_len, found) \<Rightarrow> (found, q\<lparr>aq_items := items, aq_len := new_len\<rparr>))"

section \<open>Well-formedness and the abstraction to lists\<close>

definition aq_slot :: "'a option list \<Rightarrow> nat \<Rightarrow> nat \<Rightarrow> 'a option" where
  "aq_slot items head i = items ! ((head + i) mod length items)"

definition aq_list :: "'a array_queue \<Rightarrow> 'a list" where
  "aq_list q = map (\<lambda>i. the (aq_slot (aq_items q) (aq_head q) i)) [0..<aq_len q]"

definition aq_wf :: "nat \<Rightarrow> 'a array_queue \<Rightarrow> bool" where
  "aq_wf N q \<longleftrightarrow> 0 < N \<and> length (aq_items q) = N \<and> aq_head q < N \<and> aq_len q \<le> N
     \<and> (\<forall>i<aq_len q. aq_slot (aq_items q) (aq_head q) i \<noteq> None)"

lemma length_aq_list [simp]: "length (aq_list q) = aq_len q"
  by (simp add: aq_list_def)

lemma aq_list_empty_iff: "aq_list q = [] \<longleftrightarrow> aq_len q = 0"
  by (simp add: aq_list_def)

lemma aq_slot_update:
  assumes "i < length items" and "j < length items"
  shows "aq_slot (items[(head + i) mod length items := x]) head j
       = (if i = j then x else aq_slot items head j)"
proof -
  have "(head + i) mod length items < length items"
    using assms by (intro mod_less_divisor) linarith
  with assms mod_offset_inject [of head i "length items" j] show ?thesis
    by (auto simp: aq_slot_def nth_list_update)
qed

lemma aq_wf_new: "0 < N \<Longrightarrow> aq_wf N (aq_new N)"
  by (simp add: aq_wf_def aq_new_def)

lemma aq_list_new: "aq_list (aq_new N) = []"
  by (simp add: aq_list_def aq_new_def)

lemma aq_push_full: "aq_wf N q \<Longrightarrow> fst (aq_push_back q v) \<longleftrightarrow> length (aq_list q) < N"
  by (auto simp: aq_push_back_def aq_wf_def Let_def)

lemma aq_push_fail: "\<not> fst (aq_push_back q v) \<Longrightarrow> snd (aq_push_back q v) = q"
  by (auto simp: aq_push_back_def Let_def)

lemma aq_wf_push:
  assumes wf: "aq_wf N q"
  shows "aq_wf N (snd (aq_push_back q v))"
proof (cases "aq_len q < N")
  case True
  with wf aq_slot_update [of "aq_len q" "aq_items q" _ "aq_head q" "Some v"] show ?thesis
    by (auto simp: aq_wf_def aq_push_back_def Let_def less_Suc_eq)
qed (use wf in \<open>auto simp: aq_wf_def aq_push_back_def\<close>)

lemma aq_list_push:
  assumes wf: "aq_wf N q" and room: "length (aq_list q) < N"
  shows "aq_list (snd (aq_push_back q v)) = aq_list q @ [v]"
proof -
  have *: "aq_slot ((aq_items q)[(aq_head q + aq_len q) mod N := Some v]) (aq_head q) i
      = (if i = aq_len q then Some v else aq_slot (aq_items q) (aq_head q) i)" if "i \<le> aq_len q" for i
    using that wf room aq_slot_update [of "aq_len q" "aq_items q" i "aq_head q" "Some v"]
    by (auto simp: aq_wf_def)
  show ?thesis
    using wf room by (auto simp: aq_wf_def aq_list_def aq_push_back_def Let_def * cong: map_cong)
qed

lemma aq_slot_0: "head < length items \<Longrightarrow> aq_slot items head 0 = items ! head"
  by (simp add: aq_slot_def)

lemma aq_slot_Suc: "aq_slot items ((head + 1) mod length items) i = aq_slot items head (Suc i)"
  by (simp add: aq_slot_def mod_simps)

lemma aq_slot_head_update:
  assumes "head < length items" and "Suc i < length items"
  shows "aq_slot (items[head := x]) head (Suc i) = aq_slot items head (Suc i)"
proof -
  have "0 < length items" using assms(2) by linarith
  from aq_slot_update [OF this assms(2), of head x] assms(1) show ?thesis by simp
qed

lemma aq_pop_slots:
  assumes "aq_wf N q" and "i < aq_len q - 1"
  shows "aq_slot ((aq_items q)[aq_head q := None]) ((aq_head q + 1) mod N) i
       = aq_slot (aq_items q) (aq_head q) (Suc i)"
  using assms aq_slot_Suc [of "(aq_items q)[aq_head q := None]" "aq_head q" i]
  by (auto simp: aq_wf_def aq_slot_head_update)

lemma aq_wf_pop:
  assumes wf: "aq_wf N q"
  shows "aq_wf N (snd (aq_pop_front q))"
proof (cases "aq_len q = 0")
  case False
  with wf aq_pop_slots [OF wf] show ?thesis
    by (auto simp: aq_wf_def aq_pop_front_def Let_def)
qed (use wf in \<open>simp add: aq_pop_front_def\<close>)

lemma aq_front_list: "aq_wf N q \<Longrightarrow> aq_front q = (case aq_list q of [] \<Rightarrow> None | x # _ \<Rightarrow> Some x)"
  by (cases "aq_len q")
     (auto simp: aq_front_def aq_list_def aq_wf_def aq_slot_0 upt_conv_Cons simp del: upt_Suc)

lemma aq_pop_list:
  assumes wf: "aq_wf N q"
  shows "fst (aq_pop_front q) = aq_front q"
    and "aq_list (snd (aq_pop_front q)) = tl (aq_list q)"
proof -
  show "fst (aq_pop_front q) = aq_front q"
    by (simp add: aq_pop_front_def aq_front_def Let_def)
  have "[Suc 0..<aq_len q] = map Suc [0..<aq_len q - 1]"
    by (cases "aq_len q") (simp_all add: map_Suc_upt del: upt_Suc)
  then show "aq_list (snd (aq_pop_front q)) = tl (aq_list q)"
    using wf aq_pop_slots [OF wf]
    by (auto simp: aq_list_def aq_pop_front_def Let_def aq_wf_def map_tl [symmetric] tl_upt
        simp del: upt_Suc)
qed

section \<open>\<open>remove\<close>: one pass, in place\<close>

text \<open>
  \<open>zs\<close> are the survivors already rewritten from the head on, \<open>ys\<close> the elements still
  to be read. The write cursor never overtakes the read cursor (\<open>length zs \<le> k\<close>), which
  is what makes the in-place pass sound.
\<close>

lemma aq_remove_loop_correct:
  assumes "k + length ys \<le> length items" and "length zs \<le> k" and "head < length items"
    and "\<forall>j<length ys. aq_slot items head (k + j) = Some (ys ! j)"
    and "\<forall>j<length zs. aq_slot items head j = Some (zs ! j)"
    and "aq_remove_loop v head [k..<k + length ys] items ((head + length zs) mod length items)
           (length zs) found = (items', n', found')"
    and "zs' = zs @ (if found then ys else remove1 v ys)"
  shows "length items' = length items \<and> n' = length zs'
     \<and> (\<forall>j<n'. aq_slot items' head j = Some (zs' ! j)) \<and> found' = (found \<or> v \<in> set ys)"
  using assms
proof (induction ys arbitrary: items k zs found)
  case Nil
  then show ?case by auto
next
  case (Cons y ys)
  define items1 where "items1 = items[(head + k) mod length items := None]"
  have len1: "length items1 = length items" by (simp add: items1_def)
  have item: "items ! ((head + k) mod length items) = Some y"
    using Cons.prems(4) by (force simp: aq_slot_def)
  have slot1: "aq_slot items1 head j = (if k = j then None else aq_slot items head j)"
    if "j < length items" for j
    using that Cons.prems(1) aq_slot_update [of k items j head None] by (simp add: items1_def)
  have rest1: "\<forall>j<length ys. aq_slot items1 head (Suc k + j) = Some (ys ! j)"
  proof (intro allI impI)
    fix j assume "j < length ys"
    then show "aq_slot items1 head (Suc k + j) = Some (ys ! j)"
      using Cons.prems(1) Cons.prems(4) [rule_format, of "Suc j"] slot1 [of "Suc k + j"] by simp
  qed
  have kept1: "\<forall>j<length zs. aq_slot items1 head j = Some (zs ! j)"
    using Cons.prems(1,2,5) slot1 by auto
  have upt: "[k..<k + length (y # ys)] = k # [Suc k..<Suc k + length ys]"
    by (simp add: upt_conv_Cons del: upt_Suc)
  show ?case
  proof (cases "\<not> found \<and> y = v")
    case True
    have loop: "aq_remove_loop v head [Suc k..<Suc k + length ys] items1
        ((head + length zs) mod length items1) (length zs) True = (items', n', found')"
      using Cons.prems(6) True upt item by (simp add: Let_def items1_def [symmetric] len1 del: upt_Suc)
    show ?thesis
      using Cons.IH [OF _ _ _ rest1 kept1 loop] Cons.prems(1,2,3,7) True len1 by simp
  next
    case False
    define items2 where "items2 = items1[(head + length zs) mod length items1 := Some y]"
    have slot2: "aq_slot items2 head j = (if length zs = j then Some y else aq_slot items1 head j)"
      if "j < length items" for j
      using that Cons.prems(1,2) len1 aq_slot_update [of "length zs" items1 j head "Some y"]
      by (simp add: items2_def)
    have len2: "length items2 = length items" by (simp add: items2_def len1)
    have rest2: "\<forall>j<length ys. aq_slot items2 head (Suc k + j) = Some (ys ! j)"
      using rest1 Cons.prems(1,2) slot2 by auto
    have kept2: "\<forall>j<length (zs @ [y]). aq_slot items2 head j = Some ((zs @ [y]) ! j)"
      using kept1 Cons.prems(1,2) slot2 by (auto simp: nth_append less_Suc_eq)
    have loop: "aq_remove_loop v head [Suc k..<Suc k + length ys] items2
        ((head + length (zs @ [y])) mod length items2) (length (zs @ [y])) found
        = (items', n', found')"
      using Cons.prems(6) False upt item
      by (simp add: Let_def items1_def [symmetric] items2_def len1 mod_simps
          del: upt_Suc split: if_splits)
    show ?thesis
      using Cons.IH [OF _ _ _ rest2 kept2 loop] Cons.prems(1,2,3,7) False len2
      by (auto split: if_splits)
  qed
qed

lemma aq_list_nth:
  assumes "aq_wf N q"
  shows "\<forall>j<length (aq_list q). aq_slot (aq_items q) (aq_head q) j = Some (aq_list q ! j)"
  using assms by (auto simp: aq_wf_def aq_list_def)

lemma aq_remove_correct:
  assumes wf: "aq_wf N q"
  shows "aq_wf N (snd (aq_remove q v))"
    and "aq_list (snd (aq_remove q v)) = remove1 v (aq_list q)"
    and "fst (aq_remove q v) \<longleftrightarrow> v \<in> set (aq_list q)"
proof -
  obtain items' n' found' where
    loop: "aq_remove_loop v (aq_head q) [0..<aq_len q] (aq_items q) (aq_head q) 0 False
      = (items', n', found')"
    by (cases "aq_remove_loop v (aq_head q) [0..<aq_len q] (aq_items q) (aq_head q) 0 False")
  have R: "length items' = N \<and> n' = length (remove1 v (aq_list q))
      \<and> (\<forall>j<n'. aq_slot items' (aq_head q) j = Some (remove1 v (aq_list q) ! j))
      \<and> found' = (v \<in> set (aq_list q))"
    using aq_remove_loop_correct [of 0 "aq_list q" "aq_items q" "[]" "aq_head q" v False
        items' n' found' "remove1 v (aq_list q)"] wf loop aq_list_nth [OF wf]
    by (simp add: aq_wf_def)
  have out: "aq_remove q v = (found', q\<lparr>aq_items := items', aq_len := n'\<rparr>)"
    by (simp add: aq_remove_def loop)
  have "n' \<le> aq_len q" using R by (simp add: length_remove1)
  with R wf show "aq_wf N (snd (aq_remove q v))" by (auto simp: out aq_wf_def)
  show "aq_list (snd (aq_remove q v)) = remove1 v (aq_list q)"
    using R by (intro nth_equalityI) (auto simp: out aq_list_def)
  show "fst (aq_remove q v) \<longleftrightarrow> v \<in> set (aq_list q)" using R by (simp add: out)
qed

section \<open>Sequences of operations\<close>

text \<open>Every operation that changes a queue, and what its caller sees of it.\<close>

datatype 'a queue_op = Push 'a | Pop | Remove 'a

datatype 'a queue_reply = Accepted bool | Taken "'a option" | Found bool

text \<open>The specification: a list of at most \<open>N\<close> elements.\<close>

fun list_op :: "nat \<Rightarrow> 'a list \<Rightarrow> 'a queue_op \<Rightarrow> 'a queue_reply \<times> 'a list" where
  "list_op N xs (Push x) = (if length xs < N then (Accepted True, xs @ [x]) else (Accepted False, xs))"
| "list_op N [] Pop = (Taken None, [])"
| "list_op N (x # xs) Pop = (Taken (Some x), xs)"
| "list_op N xs (Remove x) = (Found (x \<in> set xs), remove1 x xs)"

text \<open>The replies of a queue given by its three operations, and those of the list.\<close>

fun queue_replies ::
  "('q \<Rightarrow> 'a \<Rightarrow> bool \<times> 'q) \<Rightarrow> ('q \<Rightarrow> 'a option \<times> 'q) \<Rightarrow> ('q \<Rightarrow> 'a \<Rightarrow> bool \<times> 'q)
    \<Rightarrow> 'q \<Rightarrow> 'a queue_op list \<Rightarrow> 'a queue_reply list" where
  "queue_replies push pop remove q [] = []"
| "queue_replies push pop remove q (Push x # os) =
     Accepted (fst (push q x)) # queue_replies push pop remove (snd (push q x)) os"
| "queue_replies push pop remove q (Pop # os) =
     Taken (fst (pop q)) # queue_replies push pop remove (snd (pop q)) os"
| "queue_replies push pop remove q (Remove x # os) =
     Found (fst (remove q x)) # queue_replies push pop remove (snd (remove q x)) os"

fun list_replies :: "nat \<Rightarrow> 'a list \<Rightarrow> 'a queue_op list \<Rightarrow> 'a queue_reply list" where
  "list_replies N xs [] = []"
| "list_replies N xs (op # os) = fst (list_op N xs op) # list_replies N (snd (list_op N xs op)) os"

section \<open>The contract\<close>

text \<open>
  What the scheduler and the wait queues rely on: a bounded FIFO of at most \<open>cap\<close>
  elements, with removal of a named element.
\<close>

locale fifo =
  fixes cap :: nat
    and invar :: "'q \<Rightarrow> bool"
    and elems :: "'q \<Rightarrow> 'a list"
    and empty :: 'q
    and is_empty :: "'q \<Rightarrow> bool"
    and front :: "'q \<Rightarrow> 'a option"
    and push :: "'q \<Rightarrow> 'a \<Rightarrow> bool \<times> 'q"
    and pop :: "'q \<Rightarrow> 'a option \<times> 'q"
    and remove :: "'q \<Rightarrow> 'a \<Rightarrow> bool \<times> 'q"
  assumes invar_empty: "invar empty"
    and elems_empty: "elems empty = []"
    and elems_bound: "invar q \<Longrightarrow> length (elems q) \<le> cap"
    and is_empty_elems: "invar q \<Longrightarrow> is_empty q \<longleftrightarrow> elems q = []"
    and front_elems: "invar q \<Longrightarrow> front q = (case elems q of [] \<Rightarrow> None | x # _ \<Rightarrow> Some x)"
    and push_ok: "invar q \<Longrightarrow> fst (push q x) \<longleftrightarrow> length (elems q) < cap"
    and push_refused: "\<not> fst (push q x) \<Longrightarrow> snd (push q x) = q"
    and invar_push: "invar q \<Longrightarrow> invar (snd (push q x))"
    and elems_push: "invar q \<Longrightarrow> length (elems q) < cap \<Longrightarrow> elems (snd (push q x)) = elems q @ [x]"
    and invar_pop: "invar q \<Longrightarrow> invar (snd (pop q))"
    and pop_front: "invar q \<Longrightarrow> fst (pop q) = front q"
    and elems_pop: "invar q \<Longrightarrow> elems (snd (pop q)) = tl (elems q)"
    and invar_remove: "invar q \<Longrightarrow> invar (snd (remove q x))"
    and elems_remove: "invar q \<Longrightarrow> elems (snd (remove q x)) = remove1 x (elems q)"
    and remove_found: "invar q \<Longrightarrow> fst (remove q x) \<longleftrightarrow> x \<in> set (elems q)"
begin

lemma front_Some: "invar q \<Longrightarrow> elems q = x # xs \<Longrightarrow> front q = Some x"
  by (simp add: front_elems)

lemma pop_Cons: "invar q \<Longrightarrow> elems q = x # xs \<Longrightarrow> fst (pop q) = Some x \<and> elems (snd (pop q)) = xs"
  by (simp add: pop_front front_elems elems_pop)

lemma push_all_elems:
  assumes "invar q" and "length (elems q) + length xs \<le> cap"
  shows "invar (fold (\<lambda>x q. snd (push q x)) xs q)
       \<and> elems (fold (\<lambda>x q. snd (push q x)) xs q) = elems q @ xs"
  using assms
proof (induction xs arbitrary: q)
  case (Cons x xs)
  from Cons.prems have "length (elems q) < cap" by simp
  with Cons.prems Cons.IH [of "snd (push q x)"] show ?case by (simp add: invar_push elems_push)
qed simp

text \<open>A distinct queue of elements of a finite set that misses \<open>x\<close> has room for \<open>x\<close>.\<close>

lemma room_for:
  assumes "invar q" and "distinct (elems q)" and "set (elems q) \<subseteq> A" and "x \<in> A"
    and "x \<notin> set (elems q)" and "finite A" and "card A \<le> cap"
  shows "length (elems q) < cap"
proof -
  have "card (insert x (set (elems q))) \<le> card A"
    using assms by (intro card_mono) auto
  with assms show ?thesis by (simp add: distinct_card)
qed

text \<open>Nobody can tell the queue from the list.\<close>

lemma replies_eq:
  "invar q \<Longrightarrow> queue_replies push pop remove q os = list_replies cap (elems q) os"
proof (induction os arbitrary: q)
  case (Cons op os)
  show ?case
  proof (cases op)
    case (Push x)
    show ?thesis
    proof (cases "length (elems q) < cap")
      case True
      with Cons Push push_ok [of q x] show ?thesis by (simp add: invar_push elems_push)
    next
      case False
      with Cons Push push_ok [of q x] push_refused [of q x] show ?thesis by simp
    qed
  next
    case Pop
    with Cons show ?thesis
      by (cases "elems q") (simp_all add: invar_pop pop_front front_elems elems_pop)
  next
    case (Remove x)
    with Cons show ?thesis by (simp add: invar_remove elems_remove remove_found)
  qed
qed simp

lemma remove_absent: "invar q \<Longrightarrow> distinct (elems q) \<Longrightarrow> x \<notin> set (elems (snd (remove q x)))"
  by (simp add: elems_remove)

end

lemma aq_len_bound: "aq_wf N q \<Longrightarrow> aq_len q \<le> N"
  by (simp add: aq_wf_def)

text \<open>Every queue of the kernel has capacity \<open>MAX_TCBS\<close>.\<close>

interpretation aq: fifo MAX_TCBS "aq_wf MAX_TCBS" aq_list "aq_new MAX_TCBS" aq_is_empty aq_front
    aq_push_back aq_pop_front aq_remove
proof -
  have "0 < MAX_TCBS" by (simp add: MAX_TCBS_def)
  then show "fifo MAX_TCBS (aq_wf MAX_TCBS) aq_list (aq_new MAX_TCBS) aq_is_empty aq_front
    aq_push_back aq_pop_front aq_remove"
    by unfold_locales
       (simp_all add: aq_wf_new aq_list_new aq_len_bound aq_is_empty_def aq_list_empty_iff
         aq_front_list aq_push_full [simplified] aq_push_fail aq_wf_push aq_list_push aq_wf_pop
         aq_pop_list aq_remove_correct)
qed

section \<open>The ring buffer is a list\<close>

text \<open>
  C40. Equivalence with a list: over every sequence of \<open>push_back\<close>, \<open>pop_front\<close> and
  \<open>remove\<close> calls on a new queue, the ring buffer with its wrapping indices and its in-place
  removal gives its callers exactly the replies of a bounded list, refusals included.
\<close>

theorem queue_is_list:
  "queue_replies aq_push_back aq_pop_front aq_remove (aq_new MAX_TCBS) os = list_replies MAX_TCBS [] os"
  using aq.replies_eq [OF aq.invar_empty, of os] by (simp only: aq.elems_empty)

end
