(* ===== verification/Cap.thy ===== *)
theory Cap
  imports Prelude
begin

text \<open>
  \<open>src/cap.rs\<close>: object identifiers, the rights lattice, capabilities and the flat CNode.
  Identifiers are \<open>u16\<close> newtypes (one datatype each, so an identifier of one pool is never
  taken for another's); \<open>*_ix\<close> is \<open>id.0 as usize\<close>. Rights carry the library's
  \<open>order\<close> class, \<open>r \<le> r'\<close> being \<open>is_subset_of\<close>. \<open>cap_le\<close> is the specification of
  attenuation: the same object with no more rights.
\<close>

section \<open>Identifiers\<close>

type_synonym cptr = usize

datatype cnode_id = CNodeId (cnode_raw: u16)
datatype tcb_id = TcbId (tcb_raw: u16)
datatype endpoint_id = EndpointId (endpoint_raw: u16)
datatype notification_id = NotificationId (notification_raw: u16)
datatype untyped_id = UntypedId (untyped_raw: u16)
datatype sched_context_id = SchedContextId (sched_context_raw: u16)
datatype vspace_id = VSpaceId (vspace_raw: u16)
datatype frame_id = FrameId (frame_raw: u16)

abbreviation cnode_ix :: "cnode_id \<Rightarrow> nat" where "cnode_ix i \<equiv> unat (cnode_raw i)"
abbreviation tcb_ix :: "tcb_id \<Rightarrow> nat" where "tcb_ix i \<equiv> unat (tcb_raw i)"
abbreviation endpoint_ix :: "endpoint_id \<Rightarrow> nat" where "endpoint_ix i \<equiv> unat (endpoint_raw i)"
abbreviation notification_ix :: "notification_id \<Rightarrow> nat" where
  "notification_ix i \<equiv> unat (notification_raw i)"
abbreviation untyped_ix :: "untyped_id \<Rightarrow> nat" where "untyped_ix i \<equiv> unat (untyped_raw i)"
abbreviation sched_context_ix :: "sched_context_id \<Rightarrow> nat" where
  "sched_context_ix i \<equiv> unat (sched_context_raw i)"
abbreviation vspace_ix :: "vspace_id \<Rightarrow> nat" where "vspace_ix i \<equiv> unat (vspace_raw i)"
abbreviation frame_ix :: "frame_id \<Rightarrow> nat" where "frame_ix i \<equiv> unat (frame_raw i)"

lemma id_ix_inject [simp]:
  "cnode_ix a = cnode_ix a' \<longleftrightarrow> a = a'"
  "tcb_ix b = tcb_ix b' \<longleftrightarrow> b = b'"
  "endpoint_ix c = endpoint_ix c' \<longleftrightarrow> c = c'"
  "notification_ix d = notification_ix d' \<longleftrightarrow> d = d'"
  "untyped_ix e = untyped_ix e' \<longleftrightarrow> e = e'"
  "sched_context_ix f = sched_context_ix f' \<longleftrightarrow> f = f'"
  "vspace_ix g = vspace_ix g' \<longleftrightarrow> g = g'"
  "frame_ix h = frame_ix h' \<longleftrightarrow> h = h'"
  by (auto simp: word_unat_eq_iff [symmetric]
      intro: cnode_id.expand tcb_id.expand endpoint_id.expand notification_id.expand
        untyped_id.expand sched_context_id.expand vspace_id.expand frame_id.expand)

text \<open>\<open>idx as u16\<close> loses nothing on an index of a pool.\<close>

lemma unat_index [simp]: "i < 65536 \<Longrightarrow> unat (of_nat i :: u16) = i"
  by (simp add: unat_of_nat take_bit_eq_mod)

section \<open>Rights\<close>

datatype rights = Rights (bits: u8)

definition rights_NONE :: rights where "rights_NONE = Rights 0"
definition rights_READ :: rights where "rights_READ = Rights (push_bit 0 1)"
definition rights_WRITE :: rights where "rights_WRITE = Rights (push_bit 1 1)"
definition rights_GRANT :: rights where "rights_GRANT = Rights (push_bit 2 1)"
definition rights_ALL :: rights where "rights_ALL = Rights (bits rights_READ OR bits rights_WRITE OR bits rights_GRANT)"

definition rights_union :: "rights \<Rightarrow> rights \<Rightarrow> rights" where
  "rights_union r other = Rights (bits r OR bits other)"

definition contains :: "rights \<Rightarrow> rights \<Rightarrow> bool" where
  "contains r other \<longleftrightarrow> bits r AND bits other = bits other"

definition is_subset_of :: "rights \<Rightarrow> rights \<Rightarrow> bool" where
  "is_subset_of r other \<longleftrightarrow> bits r AND NOT (bits other) = 0"

definition from_bits_truncate :: "u8 \<Rightarrow> rights" where
  "from_bits_truncate b = Rights (b AND bits rights_ALL)"

lemma bit_u8: "bit (w :: u8) n \<Longrightarrow> n < 8"
  using bit_imp_le_length [of w n] by simp

lemma subset_bits_iff: "is_subset_of r r' \<longleftrightarrow> (\<forall>n. bit (bits r) n \<longrightarrow> bit (bits r') n)"
  by (auto simp: is_subset_of_def bit_eq_iff bit_simps dest: bit_u8)

lemma contains_bits_iff: "contains r r' \<longleftrightarrow> (\<forall>n. bit (bits r') n \<longrightarrow> bit (bits r) n)"
  by (auto simp: contains_def bit_eq_iff bit_simps dest: bit_u8)

instantiation rights :: order
begin

definition less_eq_rights :: "rights \<Rightarrow> rights \<Rightarrow> bool" where
  "less_eq_rights r r' \<longleftrightarrow> is_subset_of r r'"

definition less_rights :: "rights \<Rightarrow> rights \<Rightarrow> bool" where
  "less_rights r r' \<longleftrightarrow> is_subset_of r r' \<and> \<not> is_subset_of r' r"

instance
proof
  fix a b c :: rights
  show "a < b \<longleftrightarrow> a \<le> b \<and> \<not> b \<le> a" by (simp add: less_eq_rights_def less_rights_def)
  show "a \<le> a" by (simp add: less_eq_rights_def subset_bits_iff)
  show "a \<le> b \<Longrightarrow> b \<le> c \<Longrightarrow> a \<le> c" by (auto simp: less_eq_rights_def subset_bits_iff)
  show "a \<le> b \<Longrightarrow> b \<le> a \<Longrightarrow> a = b"
    by (rule rights.expand) (auto simp: less_eq_rights_def subset_bits_iff bit_eq_iff)
qed

end

lemma contains_iff_le: "contains r r' \<longleftrightarrow> r' \<le> r"
  by (simp add: less_eq_rights_def subset_bits_iff contains_bits_iff)

lemma contains_mono: "r \<le> r' \<Longrightarrow> contains r x \<Longrightarrow> contains r' x"
  by (auto simp: contains_iff_le)

lemma rights_values:
  "bits rights_NONE = 0" "bits rights_READ = 1" "bits rights_WRITE = 2" "bits rights_GRANT = 4" "bits rights_ALL = 7"
  by (simp_all add: rights_NONE_def rights_READ_def rights_WRITE_def rights_GRANT_def rights_ALL_def)

lemma rights_NONE_least: "rights_NONE \<le> r"
  by (simp add: less_eq_rights_def is_subset_of_def rights_values)

lemma truncate_le_ALL: "from_bits_truncate b \<le> rights_ALL"
  by (auto simp: less_eq_rights_def subset_bits_iff from_bits_truncate_def bit_simps)

section \<open>Object types and capabilities\<close>

datatype object_type =
  OT_CNode | OT_Untyped | OT_Endpoint | OT_Notification | OT_Tcb | OT_SchedContext
  | OT_VSpace | OT_FrameSmall | OT_FrameMega

definition object_type_from_usize :: "usize \<Rightarrow> object_type option" where
  "object_type_from_usize n =
     (if n = 0 then Some OT_CNode
      else if n = 1 then Some OT_Untyped
      else if n = 2 then Some OT_Endpoint
      else if n = 3 then Some OT_Notification
      else if n = 4 then Some OT_Tcb
      else if n = 5 then Some OT_SchedContext
      else if n = 6 then Some OT_VSpace
      else if n = 7 then Some OT_FrameSmall
      else if n = 8 then Some OT_FrameMega
      else None)"

datatype capability =
    Null
  | CNodeCap cnode_id
  | UntypedCap untyped_id rights
  | EndpointCap endpoint_id (badge: u64) rights
  | NotificationCap notification_id u64 rights
  | TcbCap tcb_id rights
  | SchedContextCap sched_context_id rights
  | ReplyCap tcb_id
  | VSpaceCap vspace_id rights
  | FrameCap frame_id rights

fun cap_object_type :: "capability \<Rightarrow> object_type option" where
  "cap_object_type Null = None"
| "cap_object_type (ReplyCap t) = None"
| "cap_object_type (CNodeCap i) = Some OT_CNode"
| "cap_object_type (UntypedCap i r) = Some OT_Untyped"
| "cap_object_type (EndpointCap i b r) = Some OT_Endpoint"
| "cap_object_type (NotificationCap i b r) = Some OT_Notification"
| "cap_object_type (TcbCap i r) = Some OT_Tcb"
| "cap_object_type (SchedContextCap i r) = Some OT_SchedContext"
| "cap_object_type (FrameCap i r) = Some OT_FrameMega"
| "cap_object_type (VSpaceCap i r) = Some OT_VSpace"

fun cap_rights :: "capability \<Rightarrow> rights" where
  "cap_rights Null = rights_NONE"
| "cap_rights (CNodeCap i) = rights_NONE"
| "cap_rights (ReplyCap t) = rights_NONE"
| "cap_rights (UntypedCap i r) = r"
| "cap_rights (EndpointCap i b r) = r"
| "cap_rights (NotificationCap i b r) = r"
| "cap_rights (TcbCap i r) = r"
| "cap_rights (SchedContextCap i r) = r"
| "cap_rights (VSpaceCap i r) = r"
| "cap_rights (FrameCap i r) = r"

section \<open>The CNode\<close>

record cnode =
  cnode_slots :: "capability list"

definition cnode_empty :: cnode where
  "cnode_empty = \<lparr>cnode_slots = replicate CNODE_SLOTS Null\<rparr>"

definition cnode_get :: "cnode \<Rightarrow> cptr \<Rightarrow> capability option" where
  "cnode_get c cptr =
     (if unat cptr < length (cnode_slots c) then Some (cnode_slots c ! unat cptr) else None)"

text \<open>
  \<open>slot_mut(cptr)\<close> gives a reference to an existing slot: reading through it is
  \<open>cnode_get\<close>, and \<open>*slot = cap\<close> is \<open>cnode_put\<close>.
\<close>

definition cnode_put :: "cnode \<Rightarrow> cptr \<Rightarrow> capability \<Rightarrow> cnode" where
  "cnode_put c cptr cap = c\<lparr>cnode_slots := (cnode_slots c)[unat cptr := cap]\<rparr>"

lemma cnode_get_put:
  "cnode_get (cnode_put c i cap) j
     = (if i = j \<and> cnode_get c j \<noteq> None then Some cap else cnode_get c j)"
  by (auto simp: cnode_get_def cnode_put_def nth_list_update word_unat_eq_iff)

lemma cnode_get_empty: "cnode_get cnode_empty i = (if unat i < CNODE_SLOTS then Some Null else None)"
  by (simp add: cnode_get_def cnode_empty_def)

section \<open>Attenuation, as a specification\<close>

datatype object_ref =
    RCNode cnode_id | RUntyped untyped_id | REndpoint endpoint_id | RNotification notification_id
  | RTcb tcb_id | RSchedContext sched_context_id | RReply tcb_id | RVSpace vspace_id | RFrame frame_id

fun cap_object :: "capability \<Rightarrow> object_ref option" where
  "cap_object Null = None"
| "cap_object (CNodeCap i) = Some (RCNode i)"
| "cap_object (UntypedCap i r) = Some (RUntyped i)"
| "cap_object (EndpointCap i b r) = Some (REndpoint i)"
| "cap_object (NotificationCap i b r) = Some (RNotification i)"
| "cap_object (TcbCap i r) = Some (RTcb i)"
| "cap_object (SchedContextCap i r) = Some (RSchedContext i)"
| "cap_object (ReplyCap t) = Some (RReply t)"
| "cap_object (VSpaceCap i r) = Some (RVSpace i)"
| "cap_object (FrameCap i r) = Some (RFrame i)"

definition cap_le :: "capability \<Rightarrow> capability \<Rightarrow> bool" where
  "cap_le c c' \<longleftrightarrow> cap_object c = cap_object c' \<and> cap_rights c \<le> cap_rights c'"

lemma cap_le_refl [simp, intro]: "cap_le c c"
  by (simp add: cap_le_def)

lemma cap_le_object: "cap_le c c' \<Longrightarrow> cap_object c = cap_object c'"
  by (simp add: cap_le_def)

lemma cap_le_trans: "cap_le a b \<Longrightarrow> cap_le b c \<Longrightarrow> cap_le a c"
  by (auto simp: cap_le_def)

lemma cap_object_None [simp]: "cap_object c = None \<longleftrightarrow> c = Null"
  by (cases c) auto

end
