(* ===== verification/Hal.thy ===== *)
theory Hal
  imports Prelude
begin

text \<open>
  The seam to \<open>lantern_hal\<close>, which is not part of this repository. Its types and functions
  are parameters: \<open>'f\<close> is \<open>TrapFrame\<close>, \<open>'h\<close> the hardware state its paging functions
  change (page-table memory and the active translation root), \<open>'p\<close> \<open>Riscv64PteFlags\<close>,
  \<open>'b\<close> the unsigned word of a tag's \<open>length\<close> and \<open>flags\<close> fields, whose width
  the HAL fixes. The record \<open>hal\<close> holds one
  field per function the kernel calls; every definition that calls one takes the record as its
  argument. \<open>frame_laws\<close> and \<open>paging_laws\<close> name what the kernel relies on, the latter for walks
  that are given the two-element array of spare tables the kernel passes, and the locale
  \<open>message_registers\<close> is the contract of anything with message registers and a tag.
  The second part is \<open>src/abi.rs\<close>.
\<close>

section \<open>Message tags\<close>

text \<open>The four fields are those of the struct literals in \<open>src/object.rs\<close> and the tests.\<close>

record 'b message_tag =
  tag_label :: u32
  tag_length :: 'b
  tag_extra_caps :: u8
  tag_flags :: 'b

definition tag_zero :: "('b::zero) message_tag" where
  "tag_zero = \<lparr>tag_label = 0, tag_length = 0, tag_extra_caps = 0, tag_flags = 0\<rparr>"

section \<open>The HAL's operations\<close>

text \<open>
  The allocator closure that \<open>riscv64_map_page\<close> and \<open>riscv64_map_megapage\<close> call is given as
  the pages it hands out, in order; the result is the new hardware state and how many it took.
  \<open>h_active\<close> is an observation for specifications: the root last made active.
\<close>

record ('f, 'b, 'h, 'p) hal =
  h_mr :: "'f \<Rightarrow> nat \<Rightarrow> usize"
  h_set_mr :: "'f \<Rightarrow> nat \<Rightarrow> usize \<Rightarrow> 'f"
  h_tag :: "'f \<Rightarrow> 'b message_tag"
  h_set_tag :: "'f \<Rightarrow> 'b message_tag \<Rightarrow> 'f"
  h_syscall_number :: "'f \<Rightarrow> usize"
  h_set_syscall_number :: "'f \<Rightarrow> usize \<Rightarrow> 'f"
  h_raw_word :: "'f \<Rightarrow> nat \<Rightarrow> usize"
  h_set_raw_word :: "'f \<Rightarrow> nat \<Rightarrow> usize \<Rightarrow> 'f"
  h_zeroed :: 'f
  h_initial_trap_frame :: "usize \<Rightarrow> usize \<Rightarrow> usize \<Rightarrow> 'f"
  h_flag_error :: "'b"
  h_mr_count :: nat
  h_page_size :: usize
  h_megapage_size :: usize
  h_pte_valid :: 'p
  h_pte_read :: 'p
  h_pte_write :: 'p
  h_pte_execute :: 'p
  h_pte_user :: 'p
  h_pte_union :: "'p \<Rightarrow> 'p \<Rightarrow> 'p"
  h_translate :: "'h \<Rightarrow> usize \<Rightarrow> usize \<Rightarrow> usize option"
  h_map_page :: "'h \<Rightarrow> usize \<Rightarrow> usize \<Rightarrow> usize \<Rightarrow> 'p \<Rightarrow> usize list \<Rightarrow> 'h \<times> nat"
  h_map_megapage :: "'h \<Rightarrow> usize \<Rightarrow> usize \<Rightarrow> usize \<Rightarrow> 'p \<Rightarrow> usize list \<Rightarrow> 'h \<times> nat"
  h_unmap :: "'h \<Rightarrow> usize \<Rightarrow> usize \<Rightarrow> 'h"
  h_activate :: "'h \<Rightarrow> usize \<Rightarrow> 'h"
  h_active :: "'h \<Rightarrow> usize option"

section \<open>Anything with message registers and a tag\<close>

locale message_registers =
  fixes n :: nat
    and valid :: "'r \<Rightarrow> bool"
    and mr :: "'r \<Rightarrow> nat \<Rightarrow> usize"
    and set_mr :: "'r \<Rightarrow> nat \<Rightarrow> usize \<Rightarrow> 'r"
    and tag :: "'r \<Rightarrow> 'b message_tag"
    and set_tag :: "'r \<Rightarrow> 'b message_tag \<Rightarrow> 'r"
  assumes mr_set_mr: "valid r \<Longrightarrow> i < n \<Longrightarrow> mr (set_mr r i v) j = (if i = j then v else mr r j)"
    and tag_set_mr: "tag (set_mr r i v) = tag r"
    and mr_set_tag: "mr (set_tag r t) j = mr r j"
    and tag_set_tag: "tag (set_tag r t) = t"
    and valid_set_mr: "valid r \<Longrightarrow> valid (set_mr r i v)"
    and valid_set_tag: "valid r \<Longrightarrow> valid (set_tag r t)"
begin

text \<open>A whole message: the four registers and the tag, as every delivery writes them.\<close>

lemma deliver_all:
  assumes "valid r" and "4 \<le> n"
    and "r' = set_tag (set_mr (set_mr (set_mr (set_mr r 0 m0) 1 m1) 2 m2) 3 m3) t"
  shows "mr r' 0 = m0" and "mr r' 1 = m1" and "mr r' 2 = m2" and "mr r' 3 = m3"
    and "tag r' = t" and "valid r'"
  using assms by (simp_all add: mr_set_mr mr_set_tag tag_set_tag valid_set_mr valid_set_tag)

end

section \<open>What the kernel relies on\<close>

definition frame_laws :: "('f, 'w::len word, 'h, 'p) hal \<Rightarrow> bool" where
  "frame_laws H \<longleftrightarrow>
     h_mr_count H = 4 \<and> h_flag_error H \<noteq> 0
   \<and> (\<forall>f i v j. i < h_mr_count H \<longrightarrow>
        h_mr H (h_set_mr H f i v) j = (if i = j then v else h_mr H f j))
   \<and> (\<forall>f i v. h_tag H (h_set_mr H f i v) = h_tag H f)
   \<and> (\<forall>f i v. h_syscall_number H (h_set_mr H f i v) = h_syscall_number H f)
   \<and> (\<forall>f i v k. h_raw_word H (h_set_mr H f i v) k = h_raw_word H f k)
   \<and> (\<forall>f t. h_tag H (h_set_tag H f t) = t)
   \<and> (\<forall>f t i. h_mr H (h_set_tag H f t) i = h_mr H f i)
   \<and> (\<forall>f t. h_syscall_number H (h_set_tag H f t) = h_syscall_number H f)
   \<and> (\<forall>f t k. h_raw_word H (h_set_tag H f t) k = h_raw_word H f k)
   \<and> (\<forall>f v. h_syscall_number H (h_set_syscall_number H f v) = v)
   \<and> (\<forall>f v i. h_mr H (h_set_syscall_number H f v) i = h_mr H f i)
   \<and> (\<forall>f v. h_tag H (h_set_syscall_number H f v) = h_tag H f)
   \<and> (\<forall>f v k. h_raw_word H (h_set_syscall_number H f v) k = h_raw_word H f k)
   \<and> (\<forall>f k v j. k < 32 \<longrightarrow>
        h_raw_word H (h_set_raw_word H f k v) j = (if k = j then v else h_raw_word H f j))
   \<and> (\<forall>f k v i. h_mr H (h_set_raw_word H f k v) i = h_mr H f i)
   \<and> (\<forall>f k v. h_tag H (h_set_raw_word H f k v) = h_tag H f)
   \<and> (\<forall>f k v. h_syscall_number H (h_set_raw_word H f k v) = h_syscall_number H f)"

definition paging_laws :: "('f, 'w::len word, 'h, 'p) hal \<Rightarrow> bool" where
  "paging_laws H \<longleftrightarrow>
     h_page_size H = 4096 \<and> h_megapage_size H = 2097152
   \<and> (\<forall>h root va pa fl sp. length sp = 2 \<longrightarrow> snd (h_map_page H h root va pa fl sp) \<le> 2)
   \<and> (\<forall>h root va pa fl sp. length sp = 2 \<longrightarrow> snd (h_map_megapage H h root va pa fl sp) \<le> 1)
   \<and> (\<forall>h root va pa fl sp. length sp = 2 \<longrightarrow> h_translate H h root va = None \<longrightarrow> va AND 4095 = 0 \<longrightarrow>
        h_translate H (fst (h_map_page H h root va pa fl sp)) root va = Some pa)
   \<and> (\<forall>h root va pa fl sp. length sp = 2 \<longrightarrow> h_translate H h root va = None \<longrightarrow> va AND 2097151 = 0 \<longrightarrow>
        h_translate H (fst (h_map_megapage H h root va pa fl sp)) root va = Some pa)
   \<and> (\<forall>h root va. h_translate H (h_unmap H h root va) root va = None)
   \<and> (\<forall>h root va pa fl sp. length sp = 2 \<longrightarrow> h_active H (fst (h_map_page H h root va pa fl sp)) = h_active H h)
   \<and> (\<forall>h root va pa fl sp. length sp = 2 \<longrightarrow> h_active H (fst (h_map_megapage H h root va pa fl sp)) = h_active H h)
   \<and> (\<forall>h root va. h_active H (h_unmap H h root va) = h_active H h)
   \<and> (\<forall>h root. h_active H (h_activate H h root) = Some root)"

lemma frame_law_simps:
  assumes "frame_laws H"
  shows "h_mr_count H = 4" and "h_flag_error H \<noteq> 0"
    and "i < 4 \<Longrightarrow> h_mr H (h_set_mr H f i v) j = (if i = j then v else h_mr H f j)"
    and "h_tag H (h_set_mr H f i v) = h_tag H f"
    and "h_syscall_number H (h_set_mr H f i v) = h_syscall_number H f"
    and "h_raw_word H (h_set_mr H f i v) k = h_raw_word H f k"
    and "h_tag H (h_set_tag H f t) = t"
    and "h_mr H (h_set_tag H f t) i = h_mr H f i"
    and "h_syscall_number H (h_set_tag H f t) = h_syscall_number H f"
    and "h_raw_word H (h_set_tag H f t) k = h_raw_word H f k"
    and "h_syscall_number H (h_set_syscall_number H f v) = v"
    and "h_mr H (h_set_syscall_number H f v) i = h_mr H f i"
    and "h_tag H (h_set_syscall_number H f v) = h_tag H f"
    and "h_raw_word H (h_set_syscall_number H f v) k = h_raw_word H f k"
    and "k < 32 \<Longrightarrow> h_raw_word H (h_set_raw_word H f k v) j = (if k = j then v else h_raw_word H f j)"
    and "h_mr H (h_set_raw_word H f k v) i = h_mr H f i"
    and "h_tag H (h_set_raw_word H f k v) = h_tag H f"
    and "h_syscall_number H (h_set_raw_word H f k v) = h_syscall_number H f"
  using assms by (simp_all add: frame_laws_def)

lemma frame_registers:
  assumes "frame_laws H"
  shows "message_registers 4 (\<lambda>_. True) (h_mr H) (h_set_mr H) (h_tag H) (h_set_tag H)"
  by unfold_locales (simp_all add: frame_law_simps [OF assms])

section \<open>Replies and tag checks (src/abi.rs)\<close>

definition reply_success :: "('f, 'w::len word, 'h, 'p) hal \<Rightarrow> 'f \<Rightarrow> 'f" where
  "reply_success H frame =
     (let tag = h_tag H frame;
          tag = tag\<lparr>tag_flags := tag_flags tag AND NOT (h_flag_error H)\<rparr>
      in h_set_tag H frame tag)"

definition reply_error :: "('f, 'w::len word, 'h, 'p) hal \<Rightarrow> 'f \<Rightarrow> syscall_error \<Rightarrow> 'f" where
  "reply_error H frame error =
     (let frame = h_set_mr H frame 0 (error_code error);
          tag = h_tag H frame;
          tag = tag\<lparr>tag_flags := tag_flags tag OR h_flag_error H\<rparr>
      in h_set_tag H frame tag)"

definition require_fast_path_only :: "('w::len word) message_tag \<Rightarrow> syscall_error + unit" where
  "require_fast_path_only tag =
     (if tag_length tag > 0 \<or> tag_extra_caps tag > 1 then Inl TruncatedMessage else Inr ())"

definition require_call_tag :: "('w::len word) message_tag \<Rightarrow> syscall_error + unit" where
  "require_call_tag tag =
     (if tag_length tag > 0 \<or> tag_extra_caps tag > 2 then Inl TruncatedMessage else Inr ())"

text \<open>The error bit as user code reads it (\<open>tag().is_error()\<close>).\<close>

definition tag_is_error :: "('f, 'w::len word, 'h, 'p) hal \<Rightarrow> 'w word message_tag \<Rightarrow> bool" where
  "tag_is_error H t \<longleftrightarrow> tag_flags t AND h_flag_error H \<noteq> 0"

lemma or_and_absorb: "(x OR y) AND y = (y :: 'a::len word)"
  by (rule bit_word_eqI) (auto simp: bit_simps)

lemma reply_success_tag:
  assumes "frame_laws H"
  shows "\<not> tag_is_error H (h_tag H (reply_success H f))"
    and "h_mr H (reply_success H f) i = h_mr H f i"
  by (simp_all add: reply_success_def tag_is_error_def frame_law_simps [OF assms] Let_def
      and.assoc)

lemma reply_error_tag:
  assumes "frame_laws H"
  shows "tag_is_error H (h_tag H (reply_error H f e))"
    and "h_mr H (reply_error H f e) i = (if i = 0 then error_code e else h_mr H f i)"
proof -
  show "tag_is_error H (h_tag H (reply_error H f e))"
    by (simp add: reply_error_def tag_is_error_def frame_law_simps [OF assms] Let_def or_and_absorb)
  show "h_mr H (reply_error H f e) i = (if i = 0 then error_code e else h_mr H f i)"
    by (auto simp: reply_error_def frame_law_simps [OF assms] Let_def)
qed

end
