(* ===== verification/Object.thy ===== *)
theory Object
  imports Queue Cap Hal
begin

text \<open>
  \<open>src/object.rs\<close>: the kernel objects. Saved register contexts and the save/restore pair
  that is the context switch, thread states and TCBs, endpoints and notifications with their
  wait queues, the two bump allocators (\<open>Untyped\<close>'s physical range and the kernel's own page
  tables), VSpaces, Frames and scheduling contexts. \<open>message_registers\<close> is interpreted on
  saved contexts, \<open>bump_allocator\<close> on both allocators.
\<close>

section \<open>Saved contexts\<close>

definition RAW_WORDS :: nat where "RAW_WORDS = 32"

record 'b saved_context =
  ctx_syscall_num :: usize
  ctx_tag :: "'b message_tag"
  ctx_mrs :: "usize list"
  ctx_raw :: "usize list"

definition context_zeroed :: "('f, 'b::zero, 'h, 'p) hal \<Rightarrow> 'b saved_context" where
  "context_zeroed H = \<lparr>ctx_syscall_num = 0, ctx_tag = tag_zero,
     ctx_mrs = replicate (h_mr_count H) 0, ctx_raw = replicate RAW_WORDS 0\<rparr>"

definition save_from :: "('f, 'b, 'h, 'p) hal \<Rightarrow> 'f \<Rightarrow> 'b saved_context" where
  "save_from H frame =
     \<lparr>ctx_syscall_num = h_syscall_number H frame,
      ctx_tag = h_tag H frame,
      ctx_mrs = map (h_mr H frame) [0..<h_mr_count H],
      ctx_raw = map (h_raw_word H frame) [0..<RAW_WORDS]\<rparr>"

definition context_initial ::
  "('f, 'b, 'h, 'p) hal \<Rightarrow> usize \<Rightarrow> usize \<Rightarrow> usize \<Rightarrow> 'b saved_context" where
  "context_initial H pc sp arg0 = save_from H (h_initial_trap_frame H pc sp arg0)"

text \<open>\<open>for (i, x) in xs.iter().enumerate() { frame.set(i, *x) }\<close>.\<close>

fun write_words :: "('f \<Rightarrow> nat \<Rightarrow> usize \<Rightarrow> 'f) \<Rightarrow> nat \<Rightarrow> usize list \<Rightarrow> 'f \<Rightarrow> 'f" where
  "write_words put i [] frame = frame"
| "write_words put i (x # xs) frame = write_words put (i + 1) xs (put frame i x)"

definition restore_into :: "('f, 'b, 'h, 'p) hal \<Rightarrow> 'b saved_context \<Rightarrow> 'f \<Rightarrow> 'f" where
  "restore_into H c frame =
     (let frame = h_set_syscall_number H frame (ctx_syscall_num c);
          frame = h_set_tag H frame (ctx_tag c);
          frame = write_words (h_set_mr H) 0 (ctx_mrs c) frame
      in write_words (h_set_raw_word H) 0 (ctx_raw c) frame)"

definition ctx_mr :: "'b saved_context \<Rightarrow> nat \<Rightarrow> usize" where
  "ctx_mr c index = ctx_mrs c ! index"

definition ctx_set_mr :: "'b saved_context \<Rightarrow> nat \<Rightarrow> usize \<Rightarrow> 'b saved_context" where
  "ctx_set_mr c index value = c\<lparr>ctx_mrs := (ctx_mrs c)[index := value]\<rparr>"

definition ctx_set_tag :: "'b saved_context \<Rightarrow> 'b message_tag \<Rightarrow> 'b saved_context" where
  "ctx_set_tag c t = c\<lparr>ctx_tag := t\<rparr>"

text \<open>The array lengths of the Rust type, with the four message registers of the ABI.\<close>

definition ctx_wf :: "'b saved_context \<Rightarrow> bool" where
  "ctx_wf c \<longleftrightarrow> length (ctx_mrs c) = 4 \<and> length (ctx_raw c) = RAW_WORDS"

lemma ctx_wf_set [simp]: "ctx_wf (ctx_set_mr c i v) = ctx_wf c" "ctx_wf (ctx_set_tag c t) = ctx_wf c"
  by (simp_all add: ctx_wf_def ctx_set_mr_def ctx_set_tag_def)

interpretation ctx: message_registers 4 ctx_wf ctx_mr ctx_set_mr
    "ctx_tag :: ('w::len word) saved_context \<Rightarrow> 'w word message_tag" ctx_set_tag
  by unfold_locales
     (auto simp: ctx_mr_def ctx_set_mr_def ctx_set_tag_def ctx_wf_def nth_list_update)

lemma ctx_mr_zeroed: "frame_laws H \<Longrightarrow> i < 4 \<Longrightarrow> ctx_mr (context_zeroed H) i = 0"
  by (simp add: ctx_mr_def context_zeroed_def frame_law_simps)

lemma ctx_wf_zeroed: "frame_laws H \<Longrightarrow> ctx_wf (context_zeroed H)"
  by (simp add: ctx_wf_def context_zeroed_def frame_law_simps)

lemma ctx_wf_save: "frame_laws H \<Longrightarrow> ctx_wf (save_from H f)"
  by (simp add: ctx_wf_def save_from_def frame_law_simps)

lemma write_words_get:
  assumes "\<And>f j v k. j < n \<Longrightarrow> get (put f j v) k = (if j = k then v else get f k)"
    and "i + length xs \<le> n"
  shows "get (write_words put i xs f) k
       = (if i \<le> k \<and> k < i + length xs then xs ! (k - i) else get f k)"
  using assms(2)
proof (induction xs arbitrary: i f)
  case (Cons x xs)
  have "get (write_words put i (x # xs) f) k
      = (if i + 1 \<le> k \<and> k < i + 1 + length xs then xs ! (k - (i + 1)) else get (put f i x) k)"
    using Cons.IH [of "i + 1" "put f i x"] Cons.prems by simp
  also have "\<dots> = (if i \<le> k \<and> k < i + length (x # xs) then (x # xs) ! (k - i) else get f k)"
    using assms(1) [of i f x k] Cons.prems by (auto simp: nth_Cons' diff_diff_left)
  finally show ?case .
qed auto

lemma write_words_keep:
  assumes "\<And>f j v. get (put f j v) = get f"
  shows "get (write_words put i xs f) = get f"
  by (induction xs arbitrary: i f) (simp_all add: assms)

lemma restore_into_reads:
  assumes laws: "frame_laws H" and wf: "ctx_wf c"
  shows "h_syscall_number H (restore_into H c f) = ctx_syscall_num c"
    and "h_tag H (restore_into H c f) = ctx_tag c"
    and "i < 4 \<Longrightarrow> h_mr H (restore_into H c f) i = ctx_mr c i"
    and "k < RAW_WORDS \<Longrightarrow> h_raw_word H (restore_into H c f) k = ctx_raw c ! k"
proof -
  note L = frame_law_simps [OF laws]
  have raw: "h_raw_word H (write_words (h_set_raw_word H) 0 (ctx_raw c) g) k = ctx_raw c ! k"
    if "k < RAW_WORDS" for g k
    using write_words_get [of 32 "h_raw_word H" "h_set_raw_word H" 0 "ctx_raw c"] wf that
    by (simp add: L ctx_wf_def RAW_WORDS_def)
  have mrs: "h_mr H (write_words (h_set_mr H) 0 (ctx_mrs c) g) i = ctx_mr c i" if "i < 4" for g i
    using write_words_get [of 4 "h_mr H" "h_set_mr H" 0 "ctx_mrs c"] wf that
    by (simp add: L ctx_wf_def ctx_mr_def)
  show "h_syscall_number H (restore_into H c f) = ctx_syscall_num c"
    by (simp add: restore_into_def Let_def L write_words_keep [of "h_syscall_number H"])
  show "h_tag H (restore_into H c f) = ctx_tag c"
    by (simp add: restore_into_def Let_def L write_words_keep [of "h_tag H"])
  show "i < 4 \<Longrightarrow> h_mr H (restore_into H c f) i = ctx_mr c i"
    using write_words_keep [of "h_mr H" "h_set_raw_word H"]
    by (simp add: restore_into_def Let_def L mrs fun_eq_iff)
  show "k < RAW_WORDS \<Longrightarrow> h_raw_word H (restore_into H c f) k = ctx_raw c ! k"
    by (simp add: restore_into_def Let_def raw)
qed

text \<open>Saving a restored context gives it back: nothing of a thread is lost in a switch.\<close>

lemma save_restore:
  assumes laws: "frame_laws H" and wf: "ctx_wf c"
  shows "save_from H (restore_into H c f) = c"
proof -
  have "map (h_mr H (restore_into H c f)) [0..<h_mr_count H] = ctx_mrs c"
    using wf restore_into_reads(3) [OF laws wf]
    by (intro nth_equalityI) (auto simp: ctx_wf_def frame_law_simps [OF laws] ctx_mr_def)
  moreover have "map (h_raw_word H (restore_into H c f)) [0..<RAW_WORDS] = ctx_raw c"
    using wf restore_into_reads(4) [OF laws wf] by (intro nth_equalityI) (auto simp: ctx_wf_def)
  ultimately show ?thesis
    by (simp add: save_from_def restore_into_reads [OF laws wf])
qed

section \<open>Threads\<close>

datatype thread_state =
    Inactive
  | Ready
  | Running
  | is_BlockedSend: BlockedSend (bs_endpoint: endpoint_id) (bs_badge: u64) (bs_is_call: bool)
      (bs_extra_cap: "capability option") (bs_reply_dest_slot: "cptr option")
  | BlockedRecv (br_endpoint: endpoint_id) (br_dest_slot: "cptr option")
  | BlockedReply (bp_dest_slot: "cptr option")
  | BlockedWait (bw_notification: notification_id)

record 'b tcb =
  tcb_state :: thread_state
  tcb_cspace :: "cnode_id option"
  tcb_sched_context :: "sched_context_id option"
  tcb_context :: "'b saved_context"
  tcb_reply_to :: "tcb_id option"
  tcb_address_space :: "usize option"

definition tcb_new :: "('f, 'b::zero, 'h, 'p) hal \<Rightarrow> 'b tcb" where
  "tcb_new H = \<lparr>tcb_state = Inactive, tcb_cspace = None, tcb_sched_context = None,
     tcb_context = context_zeroed H, tcb_reply_to = None, tcb_address_space = None\<rparr>"

section \<open>Endpoints and notifications\<close>

datatype endpoint_queue =
    QEmpty
  | QSend "tcb_id array_queue"
  | QRecv "tcb_id array_queue"

record endpoint =
  ep_queue :: endpoint_queue

definition endpoint_new :: endpoint where
  "endpoint_new = \<lparr>ep_queue = QEmpty\<rparr>"

record notification =
  ntfn_signals :: u64
  ntfn_waiters :: "tcb_id array_queue"

definition notification_new :: notification where
  "notification_new = \<lparr>ntfn_signals = 0, ntfn_waiters = aq_new MAX_TCBS\<rparr>"

section \<open>Bump allocation\<close>

text \<open>
  What both allocators promise: a chunk starts at or after the cursor, the cursor moves to
  its end, and no chunk passes the limit. Then the chunks of any run of requests, failed
  ones skipped, are disjoint and lie in the range.
\<close>

fun alloc_run :: "('s \<Rightarrow> 'r \<Rightarrow> (usize \<times> 's) option) \<Rightarrow> 's \<Rightarrow> 'r list \<Rightarrow> (usize \<times> 'r) list" where
  "alloc_run alloc s [] = []"
| "alloc_run alloc s (r # rs) =
     (case alloc s r of
        None \<Rightarrow> alloc_run alloc s rs
      | Some (a, s') \<Rightarrow> (a, r) # alloc_run alloc s' rs)"

locale bump_allocator =
  fixes invar :: "'s \<Rightarrow> bool"
    and cursor :: "'s \<Rightarrow> nat"
    and limit :: "'s \<Rightarrow> nat"
    and bytes :: "'r \<Rightarrow> nat"
    and alloc :: "'s \<Rightarrow> 'r \<Rightarrow> (usize \<times> 's) option"
  assumes alloc_chunk: "invar s \<Longrightarrow> alloc s r = Some (a, s') \<Longrightarrow>
      cursor s \<le> unat a \<and> unat a + bytes r = cursor s' \<and> cursor s' \<le> limit s
      \<and> limit s' = limit s \<and> invar s'"
begin

lemma run_in_range:
  assumes "invar s" and "(a, r) \<in> set (alloc_run alloc s rs)"
  shows "cursor s \<le> unat a \<and> unat a + bytes r \<le> limit s"
  using assms
proof (induction rs arbitrary: s)
  case (Cons q rs)
  show ?case
  proof (cases "alloc s q")
    case (Some c)
    obtain b s' where c: "c = (b, s')" by (cases c)
    have "cursor s \<le> unat b \<and> unat b + bytes q = cursor s' \<and> cursor s' \<le> limit s
      \<and> limit s' = limit s \<and> invar s'"
      using alloc_chunk [OF Cons.prems(1)] Some c by simp
    with Cons.IH [of s'] Cons.prems(2) Some c show ?thesis by auto
  qed (use Cons in auto)
qed simp

lemma run_disjoint:
  assumes "invar s" and "i < j" and "j < length (alloc_run alloc s rs)"
    and "alloc_run alloc s rs ! i = (a, r)" and "alloc_run alloc s rs ! j = (b, q)"
  shows "unat a + bytes r \<le> unat b"
  using assms
proof (induction rs arbitrary: s i j)
  case (Cons p rs)
  show ?case
  proof (cases "alloc s p")
    case None
    with Cons show ?thesis by auto
  next
    case (Some c)
    obtain d s' where c: "c = (d, s')" by (cases c)
    have next_s: "unat d + bytes p = cursor s'" "invar s'"
      using alloc_chunk [OF Cons.prems(1), of p d s'] Some c by auto
    show ?thesis
    proof (cases i)
      case 0
      with Cons.prems(2,3,5) Some c have "(b, q) \<in> set (alloc_run alloc s' rs)"
        by (auto simp: nth_Cons' in_set_conv_nth intro!: exI [of _ "j - 1"])
      with run_in_range [OF next_s(2)] next_s(1) Cons.prems(4) 0 Some c show ?thesis by auto
    next
      case (Suc i')
      with Cons.IH [OF next_s(2), of i' "j - 1"] Cons.prems(2-5) Some c show ?thesis
        by (auto simp: nth_Cons')
    qed
  qed
qed simp

end

section \<open>Untyped memory\<close>

record untyped =
  ut_remaining :: usize
  ut_memory :: "(usize \<times> usize) option"

definition untyped_new :: "usize \<Rightarrow> untyped" where
  "untyped_new budget = \<lparr>ut_remaining = budget, ut_memory = None\<rparr>"

text \<open>\<open>None\<close> is the overflow panic of \<open>base + len\<close>.\<close>

definition untyped_with_memory :: "usize \<Rightarrow> usize \<Rightarrow> usize \<Rightarrow> untyped option" where
  "untyped_with_memory budget base len =
     map_option (\<lambda>limit. \<lparr>ut_remaining = budget, ut_memory = Some (base, limit)\<rparr>)
       (checked_add base len)"

text \<open>
  The outer \<open>None\<close> is the overflow panic of the unchecked \<open>next + align - 1\<close> (or of
  \<open>align - 1\<close> at 0); the inner one the \<open>None\<close> of the source.
\<close>

definition untyped_bump :: "untyped \<Rightarrow> usize \<Rightarrow> usize \<Rightarrow> (usize option \<times> untyped) option" where
  "untyped_bump u bytes align =
     (case ut_memory u of
        None \<Rightarrow> Some (None, u)
      | Some (next, limit) \<Rightarrow>
          if align = 0 \<or> unat next + unat align \<ge> 2 ^ 64 then None
          else
            (let aligned = (next + align - 1) AND NOT (align - 1) in
             case checked_add aligned bytes of
               None \<Rightarrow> Some (None, u)
             | Some new_next \<Rightarrow>
                 (if new_next > limit then Some (None, u)
                  else Some (Some aligned, u\<lparr>ut_memory := Some (new_next, limit)\<rparr>))))"

text \<open>
  Rounding up to a power of two: \<open>aligned\<close> is a multiple of \<open>align\<close>, not below \<open>next\<close>.
\<close>

lemma unat_align_down:
  assumes "k < 64"
  shows "unat (x AND NOT (2 ^ k - 1) :: usize) = unat x div 2 ^ k * 2 ^ k"
proof -
  have "unat x div 2 ^ k * 2 ^ k < 2 ^ 64"
    using unat_usize_less [of x] by (rule le_less_trans [OF div_times_less_eq_dividend])
  moreover have "x AND NOT (2 ^ k - 1) = push_bit k (drop_bit k x)"
    by (rule bit_word_eqI)
       (auto simp: bit_simps simp flip: mask_eq_exp_minus_1)
  moreover have "unat (push_bit k (drop_bit k x)) = take_bit 64 (push_bit k (drop_bit k (unat x)))"
    using unat_usize_less [of x]
    by (simp add: unsigned_push_bit_eq unsigned_drop_bit_eq take_bit_nat_eq_self)
  ultimately show ?thesis
    by (simp add: take_bit_eq_mod push_bit_eq_mult drop_bit_eq_div)
qed

lemma align_up:
  assumes k: "k < 64" and room: "unat next + 2 ^ k < 2 ^ 64"
  defines "aligned \<equiv> (next + 2 ^ k - 1) AND NOT (2 ^ k - 1 :: usize)"
  shows "2 ^ k dvd unat aligned" and "unat next \<le> unat aligned" and "unat aligned < unat next + 2 ^ k"
proof -
  have p: "unat (2 ^ k :: usize) = 2 ^ k" using k by (rule unat_usize_power)
  have up: "unat (next + 2 ^ k - 1 :: usize) = unat next + 2 ^ k - 1"
  proof -
    have "unat (next + 2 ^ k :: usize) = unat next + 2 ^ k"
      using room p by (simp add: unat_add_exact)
    moreover have "1 \<le> next + 2 ^ k"
      using calculation by (simp add: word_le_nat_alt Suc_le_eq)
    ultimately show ?thesis by (simp add: unat_sub)
  qed
  have al: "unat aligned = (unat next + 2 ^ k - 1) div 2 ^ k * 2 ^ k"
    by (simp add: aligned_def unat_align_down [OF k] up)
  then show "2 ^ k dvd unat aligned" by simp
  have decomp: "unat aligned = unat next + 2 ^ k - 1 - (unat next + 2 ^ k - 1) mod 2 ^ k"
    by (simp add: al minus_mod_eq_div_mult)
  have small: "(unat next + 2 ^ k - 1) mod 2 ^ k < 2 ^ k" by simp
  show "unat next \<le> unat aligned" using small unfolding decomp by linarith
  show "unat aligned < unat next + 2 ^ k"
    unfolding decomp by (simp add: less_imp_diff_less)
qed

text \<open>
  Physical memory ends below the last 2 MiB of the address space: then the unchecked addition
  of \<open>bump\<close> cannot overflow for the two frame sizes.
\<close>

definition ut_wf :: "untyped \<Rightarrow> bool" where
  "ut_wf u \<longleftrightarrow>
     (case ut_memory u of
        None \<Rightarrow> True
      | Some (next, limit) \<Rightarrow> next \<le> limit \<and> unat limit + 2 ^ 21 < 2 ^ 64)"

lemma untyped_bump_Some:
  assumes bump: "untyped_bump u bytes (2 ^ k) = Some (Some a, u')"
    and mem: "ut_memory u = Some (nx, limit)" and k: "k < 64"
  shows "2 ^ k dvd unat a" and "unat nx \<le> unat a" and "unat a + unat bytes \<le> unat limit"
    and "u' = u\<lparr>ut_memory := Some (a + bytes, limit)\<rparr>"
    and "unat (a + bytes) = unat a + unat bytes"
proof -
  from bump mem have room: "unat nx + 2 ^ k < 2 ^ 64"
    by (auto simp: untyped_bump_def unat_usize_power [OF k] split: if_splits)
  define al where "al = (nx + 2 ^ k - 1) AND NOT (2 ^ k - 1 :: usize)"
  from bump mem room have R: "a = al" "checked_add al bytes = Some (al + bytes)"
    "al + bytes \<le> limit" "u' = u\<lparr>ut_memory := Some (al + bytes, limit)\<rparr>"
    by (auto simp: untyped_bump_def al_def Let_def checked_add_Some not_less
        split: if_splits option.splits)
  with align_up [OF k room] show "2 ^ k dvd unat a" and "unat nx \<le> unat a"
    by (simp_all add: al_def)
  from R show "u' = u\<lparr>ut_memory := Some (a + bytes, limit)\<rparr>" by simp
  from R show "unat (a + bytes) = unat a + unat bytes" by (simp add: checked_add_unat)
  with R show "unat a + unat bytes \<le> unat limit" by (simp add: word_le_nat_alt)
qed

lemma untyped_bump_no_panic:
  assumes "ut_wf u" and "k \<le> 21"
  shows "untyped_bump u bytes (2 ^ k) \<noteq> None"
proof (cases "ut_memory u")
  case (Some m)
  obtain nx limit where m: "m = (nx, limit)" by (cases m)
  have "(2 :: nat) ^ k \<le> 2 ^ 21" using assms(2) by (intro power_increasing) auto
  moreover have "unat (2 ^ k :: usize) = 2 ^ k" using assms(2) by (intro unat_usize_power) simp
  moreover from this have "(2 :: usize) ^ k \<noteq> 0" by (metis power_not_zero unat_0 zero_neq_numeral)
  ultimately show ?thesis
    using assms(1) Some m
    by (auto simp: ut_wf_def untyped_bump_def Let_def word_le_nat_alt split: option.splits)
qed (simp add: untyped_bump_def)

lemma untyped_bump_fields:
  assumes "untyped_bump u bytes align = Some (r, u')"
  shows "ut_remaining u' = ut_remaining u" and "r = None \<Longrightarrow> u' = u"
  using assms by (auto simp: untyped_bump_def Let_def split: option.splits if_splits prod.splits)

text \<open>The two requests the kernel makes of an Untyped, with their alignment.\<close>

datatype frame_size = Small | Mega

fun frame_size_bytes :: "('f, 'b, 'h, 'p) hal \<Rightarrow> frame_size \<Rightarrow> usize" where
  "frame_size_bytes H Small = h_page_size H"
| "frame_size_bytes H Mega = h_megapage_size H"

fun frame_size_log :: "frame_size \<Rightarrow> nat" where
  "frame_size_log Small = 12"
| "frame_size_log Mega = 21"

lemma frame_size_log_le: "frame_size_log sz \<le> 21"
  by (cases sz) auto

lemma frame_size_bytes_log: "paging_laws H \<Longrightarrow> frame_size_bytes H sz = 2 ^ frame_size_log sz"
  by (cases sz) (simp_all add: paging_laws_def)

definition untyped_frame_alloc :: "untyped \<Rightarrow> frame_size \<Rightarrow> (usize \<times> untyped) option" where
  "untyped_frame_alloc u sz =
     (case untyped_bump u (2 ^ frame_size_log sz) (2 ^ frame_size_log sz) of
        Some (Some a, u') \<Rightarrow> Some (a, u')
      | _ \<Rightarrow> None)"

definition ut_cursor :: "untyped \<Rightarrow> nat" where
  "ut_cursor u = (case ut_memory u of None \<Rightarrow> 0 | Some (next, limit) \<Rightarrow> unat next)"

definition ut_limit :: "untyped \<Rightarrow> nat" where
  "ut_limit u = (case ut_memory u of None \<Rightarrow> 0 | Some (next, limit) \<Rightarrow> unat limit)"

lemma untyped_bump_wf:
  assumes wf: "ut_wf u" and bump: "untyped_bump u bytes (2 ^ k) = Some (r, u')" and k: "k < 64"
  shows "ut_wf u'"
proof (cases r)
  case None
  with untyped_bump_fields(2) [OF bump] wf show ?thesis by simp
next
  case (Some a)
  then obtain nx limit where mem: "ut_memory u = Some (nx, limit)"
    using bump by (auto simp: untyped_bump_def split: option.splits)
  show ?thesis
    using untyped_bump_Some [OF bump [unfolded Some] mem k] wf mem
    by (auto simp: ut_wf_def word_le_nat_alt)
qed

interpretation ut: bump_allocator ut_wf ut_cursor ut_limit "\<lambda>sz. 2 ^ frame_size_log sz"
    untyped_frame_alloc
proof
  fix u sz a u'
  assume wf: "ut_wf u" and al: "untyped_frame_alloc u sz = Some (a, u')"
  let ?k = "frame_size_log sz"
  have k: "?k < 64" by (cases sz) auto
  from al have bump: "untyped_bump u (2 ^ ?k) (2 ^ ?k) = Some (Some a, u')"
    by (auto simp: untyped_frame_alloc_def split: option.splits)
  then obtain nx limit where mem: "ut_memory u = Some (nx, limit)"
    by (auto simp: untyped_bump_def split: option.splits)
  show "ut_cursor u \<le> unat a \<and> unat a + 2 ^ ?k = ut_cursor u' \<and> ut_cursor u' \<le> ut_limit u
      \<and> ut_limit u' = ut_limit u \<and> ut_wf u'"
    using untyped_bump_Some [OF bump mem k] untyped_bump_wf [OF wf bump k] mem
      unat_usize_power [OF k]
    by (auto simp: ut_cursor_def ut_limit_def)
qed

section \<open>The kernel's own page tables\<close>

record kernel_page_tables =
  kpt_base :: usize
  kpt_next :: usize

definition kpt_new :: "usize \<Rightarrow> kernel_page_tables" where
  "kpt_new base = \<lparr>kpt_base = base, kpt_next = 0\<rparr>"

definition kpt_bytes_len :: "('f, 'b, 'h, 'p) hal \<Rightarrow> usize" where
  "kpt_bytes_len H = MAX_KERNEL_PAGE_TABLES * h_page_size H"

text \<open>\<open>None\<close> is the underflow panic of \<open>self.next -= \<dots>\<close>.\<close>

definition kpt_release_last ::
  "('f, 'b, 'h, 'p) hal \<Rightarrow> kernel_page_tables \<Rightarrow> nat \<Rightarrow> kernel_page_tables option" where
  "kpt_release_last H k count =
     (let bytes = of_nat count * h_page_size H in
      if bytes > kpt_next k then None else Some (k\<lparr>kpt_next := kpt_next k - bytes\<rparr>))"

definition kpt_alloc ::
  "('f, 'b, 'h, 'p) hal \<Rightarrow> kernel_page_tables \<Rightarrow> (usize \<times> kernel_page_tables) option" where
  "kpt_alloc H k =
     (let bytes = h_page_size H in
      case checked_add (kpt_next k) bytes of
        None \<Rightarrow> None
      | Some n \<Rightarrow>
          if n > kpt_bytes_len H then None
          else Some (kpt_base k + kpt_next k, k\<lparr>kpt_next := kpt_next k + bytes\<rparr>))"

text \<open>
  The arena is a page-aligned object inside the address space, its cursor a whole number of
  pages within it.
\<close>

definition kpt_wf :: "kernel_page_tables \<Rightarrow> bool" where
  "kpt_wf k \<longleftrightarrow> 4096 dvd unat (kpt_base k) \<and> unat (kpt_base k) + 131072 < 2 ^ 64
     \<and> 4096 dvd unat (kpt_next k) \<and> unat (kpt_next k) \<le> 131072"

definition kpt_used :: "kernel_page_tables \<Rightarrow> nat" where
  "kpt_used k = unat (kpt_next k) div 4096"

lemma kpt_alloc_Some:
  assumes laws: "paging_laws H" and wf: "kpt_wf k" and al: "kpt_alloc H k = Some (a, k')"
  shows "unat a = unat (kpt_base k) + unat (kpt_next k)" and "4096 dvd unat a"
    and "unat (kpt_next k') = unat (kpt_next k) + 4096" and "kpt_base k' = kpt_base k"
    and "kpt_wf k'" and "kpt_used k' = Suc (kpt_used k)"
proof -
  from laws have sizes: "h_page_size H = 4096" "kpt_bytes_len H = 131072"
    by (simp_all add: paging_laws_def kpt_bytes_len_def MAX_KERNEL_PAGE_TABLES_def)
  from al obtain n where n: "checked_add (kpt_next k) 4096 = Some n" "n \<le> 131072"
    and out: "a = kpt_base k + kpt_next k" "k' = k\<lparr>kpt_next := kpt_next k + 4096\<rparr>"
    by (auto simp: kpt_alloc_def sizes not_less split: option.splits if_splits)
  from n have nx: "unat (kpt_next k + 4096) = unat (kpt_next k) + 4096"
    "unat (kpt_next k) + 4096 \<le> 131072"
    by (auto simp: checked_add_Some unat_add_exact word_le_nat_alt)
  show a: "unat a = unat (kpt_base k) + unat (kpt_next k)"
    using wf by (auto simp: out kpt_wf_def intro: unat_add_exact)
  show "4096 dvd unat a" using wf by (simp add: a kpt_wf_def)
  show "unat (kpt_next k') = unat (kpt_next k) + 4096" by (simp add: out nx)
  show "kpt_base k' = kpt_base k" by (simp add: out)
  show "kpt_wf k'" using wf nx by (simp add: out kpt_wf_def)
  show "kpt_used k' = Suc (kpt_used k)" using nx by (simp add: out kpt_used_def)
qed

lemma kpt_alloc_None:
  assumes laws: "paging_laws H" and wf: "kpt_wf k"
  shows "kpt_alloc H k = None \<longleftrightarrow> kpt_used k = 32"
proof -
  from laws have sizes: "h_page_size H = 4096" "kpt_bytes_len H = 131072"
    by (simp_all add: paging_laws_def kpt_bytes_len_def MAX_KERNEL_PAGE_TABLES_def)
  from wf obtain m where m: "unat (kpt_next k) = 4096 * m" "m \<le> 32"
    by (auto simp: kpt_wf_def elim!: dvdE)
  then have "unat (kpt_next k + 4096) = unat (kpt_next k) + 4096"
    "checked_add (kpt_next k) 4096 = Some (kpt_next k + 4096)"
    using unat_add_exact [of "kpt_next k" 4096] by (simp_all add: checked_add_def)
  with m show ?thesis
    by (auto simp: kpt_alloc_def sizes kpt_used_def word_less_nat_alt)
qed

lemma kpt_release:
  assumes laws: "paging_laws H" and wf: "kpt_wf k" and enough: "count \<le> kpt_used k"
  shows "\<exists>k'. kpt_release_last H k count = Some k' \<and> kpt_wf k'
       \<and> kpt_base k' = kpt_base k \<and> kpt_used k' = kpt_used k - count"
proof -
  from laws have size: "h_page_size H = 4096" by (simp add: paging_laws_def)
  from wf obtain m where m: "unat (kpt_next k) = 4096 * m" "m \<le> 32"
    by (auto simp: kpt_wf_def elim!: dvdE)
  with enough have c: "count \<le> m" by (simp add: kpt_used_def)
  with m have b: "unat (of_nat count * 4096 :: usize) = 4096 * count"
    by (simp add: unat_word_ariths unat_of_nat)
  with c m have le: "of_nat count * 4096 \<le> kpt_next k" by (simp add: word_le_nat_alt)
  then have nx: "unat (kpt_next k - of_nat count * 4096) = 4096 * (m - count)"
    by (simp add: unat_sub b m diff_mult_distrib2)
  show ?thesis
    using le nx c m wf by (auto simp: kpt_release_last_def size Let_def kpt_wf_def kpt_used_def not_less)
qed

definition kpt_page_alloc ::
  "('f, 'b, 'h, 'p) hal \<Rightarrow> kernel_page_tables \<Rightarrow> unit \<Rightarrow> (usize \<times> kernel_page_tables) option" where
  "kpt_page_alloc H k _ = kpt_alloc H k"

lemma kpt_page_alloc_bump:
  assumes "paging_laws H"
  shows "bump_allocator kpt_wf (\<lambda>k. unat (kpt_base k) + unat (kpt_next k))
     (\<lambda>k. unat (kpt_base k) + 131072) (\<lambda>_. 4096) (kpt_page_alloc H)"
proof
  fix k r a k'
  assume wf: "kpt_wf k" and al: "kpt_page_alloc H k r = Some (a, k')"
  from kpt_alloc_Some [OF assms wf al [unfolded kpt_page_alloc_def]]
  show "unat (kpt_base k) + unat (kpt_next k) \<le> unat a
      \<and> unat a + 4096 = unat (kpt_base k') + unat (kpt_next k')
      \<and> unat (kpt_base k') + unat (kpt_next k') \<le> unat (kpt_base k) + 131072
      \<and> unat (kpt_base k') + 131072 = unat (kpt_base k) + 131072 \<and> kpt_wf k'"
    by (auto simp: kpt_wf_def)
qed

section \<open>VSpaces, Frames and scheduling contexts\<close>

record vspace =
  vs_root :: usize

definition MAX_FRAME_MAPPINGS :: nat where "MAX_FRAME_MAPPINGS = 2"

record frame =
  fr_paddr :: usize
  fr_size :: frame_size
  fr_mapped_at :: "(vspace_id \<times> usize) option list"

record scheduling_context =
  sc_budget :: u64
  sc_period :: u64

definition scheduling_context_new :: "u64 \<Rightarrow> scheduling_context" where
  "scheduling_context_new budget_eq_period =
     \<lparr>sc_budget = budget_eq_period, sc_period = budget_eq_period\<rparr>"

end
