(* ===== verification/Pool.thy ===== *)
theory Pool
  imports Prelude
begin

text \<open>
  \<open>src/pool.rs\<close>: the fixed-capacity object pools. An object keeps its index for its
  lifetime; allocation takes the first free slot. \<open>pool_get\<close> is the abstraction: a pool
  is a finite map from indices to objects. \<open>object_pool\<close> is the contract of that map,
  which the interpretation \<open>pool\<close> proves of the array with its separate length counter.
\<close>

section \<open>The slot array\<close>

record 'a pool =
  pool_slots :: "'a option list"
  pool_len :: nat

definition pool_new :: "nat \<Rightarrow> 'a pool" where
  "pool_new N = \<lparr>pool_slots = replicate N None, pool_len = 0\<rparr>"

definition pool_is_empty :: "'a pool \<Rightarrow> bool" where
  "pool_is_empty p \<longleftrightarrow> pool_len p = 0"

definition pool_is_full :: "'a pool \<Rightarrow> bool" where
  "pool_is_full p \<longleftrightarrow> pool_len p \<ge> length (pool_slots p)"

text \<open>\<open>iter_mut().enumerate().find(|(_, s)| s.is_none())\<close>: the first free index from \<open>i\<close> on.\<close>

fun find_free :: "nat \<Rightarrow> 'a option list \<Rightarrow> nat option" where
  "find_free i [] = None"
| "find_free i (None # ss) = Some i"
| "find_free i (Some x # ss) = find_free (i + 1) ss"

definition pool_alloc :: "'a pool \<Rightarrow> 'a \<Rightarrow> (nat \<times> 'a pool) option" where
  "pool_alloc p v =
     (if pool_is_full p then None
      else case find_free 0 (pool_slots p) of
        None \<Rightarrow> None
      | Some index \<Rightarrow>
          Some (index, p\<lparr>pool_slots := (pool_slots p)[index := Some v],
                         pool_len := pool_len p + 1\<rparr>))"

definition pool_get :: "'a pool \<Rightarrow> nat \<Rightarrow> 'a option" where
  "pool_get p index = (if index < length (pool_slots p) then pool_slots p ! index else None)"

text \<open>\<open>if let Some(x) = pool.get_mut(index) { *x = f(x) }\<close>.\<close>

definition pool_modify :: "'a pool \<Rightarrow> nat \<Rightarrow> ('a \<Rightarrow> 'a) \<Rightarrow> 'a pool" where
  "pool_modify p index f =
     (case pool_get p index of
        None \<Rightarrow> p
      | Some x \<Rightarrow> p\<lparr>pool_slots := (pool_slots p)[index := Some (f x)]\<rparr>)"

definition pool_free :: "'a pool \<Rightarrow> nat \<Rightarrow> 'a option \<times> 'a pool" where
  "pool_free p index =
     (case pool_get p index of
        None \<Rightarrow> (None, p)
      | Some value \<Rightarrow>
          (Some value, p\<lparr>pool_slots := (pool_slots p)[index := None],
                         pool_len := pool_len p - 1\<rparr>))"

section \<open>Well-formedness: the counter counts the occupied slots\<close>

primrec occupied :: "'a option list \<Rightarrow> nat" where
  "occupied [] = 0"
| "occupied (s # ss) = (if s = None then 0 else 1) + occupied ss"

definition pool_wf :: "nat \<Rightarrow> 'a pool \<Rightarrow> bool" where
  "pool_wf N p \<longleftrightarrow> length (pool_slots p) = N \<and> pool_len p = occupied (pool_slots p)"

lemma occupied_update:
  "i < length ss \<Longrightarrow> occupied (ss[i := x]) + (if ss ! i = None then 0 else 1)
     = occupied ss + (if x = None then 0 else 1)"
proof (induction ss arbitrary: i)
  case (Cons s ss)
  from Cons.IH [of "i - 1"] Cons.prems show ?case by (cases i) auto
qed simp

lemma occupied_le: "occupied ss \<le> length ss"
  by (induction ss) auto

lemma occupied_full: "length ss \<le> occupied ss \<longleftrightarrow> None \<notin> set ss"
proof (induction ss)
  case (Cons s ss)
  then show ?case using occupied_le [of ss] by (cases s) auto
qed simp

lemma find_free_None: "find_free i ss = None \<longleftrightarrow> None \<notin> set ss"
  by (induction i ss rule: find_free.induct) auto

lemma find_free_Some:
  "find_free i ss = Some k \<Longrightarrow> i \<le> k \<and> k - i < length ss \<and> ss ! (k - i) = None
     \<and> (\<forall>j<k - i. ss ! j \<noteq> None)"
proof (induction i ss rule: find_free.induct)
  case (3 i x ss)
  then have IH: "i + 1 \<le> k" "k - (i + 1) < length ss" "ss ! (k - (i + 1)) = None"
    "\<forall>j<k - (i + 1). ss ! j \<noteq> None" by auto
  moreover from IH have "k - i = Suc (k - (i + 1))" by simp
  ultimately show ?case by (auto simp: less_Suc_eq_0_disj)
qed auto

lemma pool_wf_new: "pool_wf N (pool_new N)"
proof -
  have "occupied (replicate N None) = 0" by (induction N) auto
  then show ?thesis by (simp add: pool_wf_def pool_new_def)
qed

lemma pool_get_new: "pool_get (pool_new N) i = None"
  by (simp add: pool_get_def pool_new_def)

lemma pool_get_bound: "pool_wf N p \<Longrightarrow> pool_get p i = Some x \<Longrightarrow> i < N"
  by (auto simp: pool_get_def pool_wf_def split: if_splits)

lemma pool_get_modify:
  "pool_get (pool_modify p i f) j = (if i = j then map_option f (pool_get p j) else pool_get p j)"
  by (auto simp: pool_get_def pool_modify_def nth_list_update split: option.splits if_splits)

lemma pool_wf_modify:
  assumes wf: "pool_wf N p"
  shows "pool_wf N (pool_modify p i f)"
proof (cases "pool_get p i")
  case (Some x)
  then have "i < length (pool_slots p)" and "pool_slots p ! i = Some x"
    by (auto simp: pool_get_def split: if_splits)
  with occupied_update [of i "pool_slots p" "Some (f x)"] wf Some show ?thesis
    by (simp add: pool_wf_def pool_modify_def)
qed (use wf in \<open>simp add: pool_modify_def\<close>)

lemma pool_alloc_Some:
  assumes wf: "pool_wf N p" and alloc: "pool_alloc p v = Some (i, p')"
  shows "i < N \<and> pool_get p i = None \<and> pool_wf N p' \<and> pool_get p' = (pool_get p)(i := Some v)"
proof -
  from alloc have free: "find_free 0 (pool_slots p) = Some i"
    and p': "p' = p\<lparr>pool_slots := (pool_slots p)[i := Some v], pool_len := pool_len p + 1\<rparr>"
    by (auto simp: pool_alloc_def split: if_splits option.splits)
  from find_free_Some [OF free] wf have i: "i < N" "pool_slots p ! i = None" "length (pool_slots p) = N"
    by (auto simp: pool_wf_def)
  then show ?thesis
    using wf occupied_update [of i "pool_slots p" "Some v"]
    by (auto simp: p' pool_wf_def pool_get_def fun_eq_iff nth_list_update)
qed

lemma pool_alloc_None:
  assumes "pool_wf N p"
  shows "pool_alloc p v = None \<longleftrightarrow> (\<forall>i<N. pool_get p i \<noteq> None)"
proof -
  have "pool_alloc p v = None \<longleftrightarrow> None \<notin> set (pool_slots p)"
    using assms occupied_full [of "pool_slots p"] find_free_None [of 0 "pool_slots p"]
    by (auto simp: pool_alloc_def pool_is_full_def pool_wf_def split: option.splits)
  also have "\<dots> \<longleftrightarrow> (\<forall>i<N. pool_get p i \<noteq> None)"
    using assms unfolding pool_wf_def pool_get_def in_set_conv_nth by metis
  finally show ?thesis .
qed

text \<open>The counter never underflows: an occupied slot is counted.\<close>

lemma pool_free_Some:
  assumes wf: "pool_wf N p" and got: "pool_get p i = Some x"
  shows "0 < pool_len p \<and> fst (pool_free p i) = Some x \<and> pool_wf N (snd (pool_free p i))
       \<and> pool_get (snd (pool_free p i)) = (pool_get p)(i := None)"
proof -
  from got have i: "i < length (pool_slots p)" "pool_slots p ! i = Some x"
    by (auto simp: pool_get_def split: if_splits)
  with occupied_update [of i "pool_slots p" None] wf got show ?thesis
    by (auto simp: pool_wf_def pool_free_def pool_get_def fun_eq_iff nth_list_update)
qed

section \<open>The contract: a bounded finite map with stable indices\<close>

locale object_pool =
  fixes cap :: nat
    and invar :: "'p \<Rightarrow> bool"
    and get :: "'p \<Rightarrow> nat \<Rightarrow> 'a option"
    and alloc :: "'p \<Rightarrow> 'a \<Rightarrow> (nat \<times> 'p) option"
    and modify :: "'p \<Rightarrow> nat \<Rightarrow> ('a \<Rightarrow> 'a) \<Rightarrow> 'p"
    and free :: "'p \<Rightarrow> nat \<Rightarrow> 'a option \<times> 'p"
  assumes get_bound: "invar p \<Longrightarrow> get p i = Some x \<Longrightarrow> i < cap"
    and alloc_Some: "invar p \<Longrightarrow> alloc p v = Some (i, p')
          \<Longrightarrow> i < cap \<and> get p i = None \<and> invar p' \<and> get p' = (get p)(i := Some v)"
    and alloc_None: "invar p \<Longrightarrow> alloc p v = None \<longleftrightarrow> (\<forall>i<cap. get p i \<noteq> None)"
    and invar_modify: "invar p \<Longrightarrow> invar (modify p i f)"
    and get_modify: "get (modify p i f) j = (if i = j then map_option f (get p j) else get p j)"
    and free_Some: "invar p \<Longrightarrow> get p i = Some x \<Longrightarrow>
          fst (free p i) = Some x \<and> invar (snd (free p i)) \<and> get (snd (free p i)) = (get p)(i := None)"
begin

text \<open>Allocation keeps every live index; indices of live objects are stable.\<close>

lemma alloc_stable:
  assumes "invar p" and "alloc p v = Some (i, p')" and "get p j = Some x"
  shows "get p' j = Some x"
  using alloc_Some [OF assms(1,2)] assms(3) by auto

lemma alloc_fresh:
  assumes "invar p" and "alloc p v = Some (i, p')" and "get p j = Some x"
  shows "i \<noteq> j"
  using alloc_Some [OF assms(1,2)] assms(3) by auto

lemma finite_dom: "invar p \<Longrightarrow> finite (dom (get p)) \<and> card (dom (get p)) \<le> cap"
proof -
  assume "invar p"
  then have "dom (get p) \<subseteq> {..<cap}" using get_bound by auto
  then show ?thesis
    using card_mono [of "{..<cap}" "dom (get p)"] finite_subset by auto
qed

text \<open>What is freed can be allocated again.\<close>

lemma alloc_after_free:
  assumes "invar p" and "get p i = Some x"
  shows "alloc (snd (free p i)) v \<noteq> None"
proof -
  have "invar (snd (free p i))" and "get (snd (free p i)) i = None"
    using free_Some [OF assms] by auto
  with alloc_None [of "snd (free p i)" v] get_bound [OF assms] show ?thesis by auto
qed

end

interpretation pool: object_pool N "pool_wf N" pool_get pool_alloc pool_modify pool_free
  for N
  by (unfold_locales; (rule pool_get_modify | erule (1) pool_get_bound | erule (1) pool_alloc_Some
      | erule pool_alloc_None | erule pool_wf_modify | (drule (1) pool_free_Some, simp)))

declare pool_get_modify [simp]

end
