(* ===== verification/State.thy ===== *)
theory State
  imports Object Pool
begin

text \<open>
  \<open>src/state.rs\<close> and \<open>src/scheduler.rs\<close>: the kernel state (every object pool, the kernel's
  page tables and the scheduler) and its own operations: the directed switch, blocking, waking
  and capability lookup. The field \<open>ks_hw\<close> is not a field of the Rust struct: it is the
  hardware state that the HAL's paging functions change (\<open>'h\<close>), among it the contents of the
  kernel's page-table bytes.
\<close>

section \<open>The scheduler and the state\<close>

record scheduler =
  sch_ready :: "tcb_id array_queue"
  sch_current :: "tcb_id option"

definition scheduler_new :: scheduler where
  "scheduler_new = \<lparr>sch_ready = aq_new MAX_TCBS, sch_current = None\<rparr>"

definition sch_has_ready :: "scheduler \<Rightarrow> bool" where
  "sch_has_ready s \<longleftrightarrow> \<not> aq_is_empty (sch_ready s)"

definition sch_remove_ready :: "scheduler \<Rightarrow> tcb_id \<Rightarrow> scheduler" where
  "sch_remove_ready s tid = s\<lparr>sch_ready := snd (aq_remove (sch_ready s) tid)\<rparr>"

record ('b, 'h) kernel_state =
  ks_cnodes :: "cnode pool"
  ks_tcbs :: "'b tcb pool"
  ks_endpoints :: "endpoint pool"
  ks_notifications :: "notification pool"
  ks_untypeds :: "untyped pool"
  ks_sched_contexts :: "scheduling_context pool"
  ks_vspaces :: "vspace pool"
  ks_frames :: "frame pool"
  ks_page_tables :: kernel_page_tables
  ks_scheduler :: scheduler
  ks_hw :: 'h

text \<open>\<open>base\<close> is the address of the page-table bytes, \<open>hw\<close> the hardware at boot.\<close>

definition kernel_state_new :: "usize \<Rightarrow> 'h \<Rightarrow> ('b, 'h) kernel_state" where
  "kernel_state_new base hw =
     \<lparr>ks_cnodes = pool_new MAX_CNODES,
      ks_tcbs = pool_new MAX_TCBS,
      ks_endpoints = pool_new MAX_ENDPOINTS,
      ks_notifications = pool_new MAX_NOTIFICATIONS,
      ks_untypeds = pool_new MAX_UNTYPEDS,
      ks_sched_contexts = pool_new MAX_SCHED_CONTEXTS,
      ks_vspaces = pool_new MAX_VSPACES,
      ks_frames = pool_new MAX_FRAMES,
      ks_page_tables = kpt_new base,
      ks_scheduler = scheduler_new,
      ks_hw = hw\<rparr>"

section \<open>Updates of one TCB and of the scheduler\<close>

text \<open>\<open>if let Some(tcb) = state.tcbs.get_mut(id.0 as usize) { \<dots> }\<close>.\<close>

definition update_tcb ::
  "('b, 'h) kernel_state \<Rightarrow> tcb_id \<Rightarrow> ('b tcb \<Rightarrow> 'b tcb) \<Rightarrow> ('b, 'h) kernel_state" where
  "update_tcb s tid f = s\<lparr>ks_tcbs := pool_modify (ks_tcbs s) (tcb_ix tid) f\<rparr>"

definition set_thread_state ::
  "('b, 'h) kernel_state \<Rightarrow> tcb_id \<Rightarrow> thread_state \<Rightarrow> ('b, 'h) kernel_state" where
  "set_thread_state s tid st = update_tcb s tid (\<lambda>tcb. tcb\<lparr>tcb_state := st\<rparr>)"

definition set_current ::
  "('b, 'h) kernel_state \<Rightarrow> tcb_id option \<Rightarrow> ('b, 'h) kernel_state" where
  "set_current s c = s\<lparr>ks_scheduler := (ks_scheduler s)\<lparr>sch_current := c\<rparr>\<rparr>"

abbreviation get_tcb :: "('b, 'h) kernel_state \<Rightarrow> tcb_id \<Rightarrow> 'b tcb option" where
  "get_tcb s tid \<equiv> pool_get (ks_tcbs s) (tcb_ix tid)"

abbreviation current_of :: "('b, 'h) kernel_state \<Rightarrow> tcb_id option" where
  "current_of s \<equiv> sch_current (ks_scheduler s)"

abbreviation has_ready :: "('b, 'h) kernel_state \<Rightarrow> bool" where
  "has_ready s \<equiv> sch_has_ready (ks_scheduler s)"

section \<open>Switching, blocking, waking\<close>

definition save_current ::
  "('f, 'b, 'h, 'p) hal \<Rightarrow> ('b, 'h) kernel_state \<Rightarrow> 'f \<Rightarrow> ('b, 'h) kernel_state" where
  "save_current H s frame =
     (case current_of s of
        None \<Rightarrow> s
      | Some current \<Rightarrow> update_tcb s current (\<lambda>tcb. tcb\<lparr>tcb_context := save_from H frame\<rparr>))"

definition activate_if_paged :: "('f, 'b, 'h, 'p) hal \<Rightarrow> 'b tcb \<Rightarrow> 'h \<Rightarrow> 'h" where
  "activate_if_paged H tcb hw =
     (case tcb_address_space tcb of None \<Rightarrow> hw | Some root \<Rightarrow> h_activate H hw root)"

text \<open>
  The tail that \<open>switch_to\<close> and \<open>block_current\<close> share: load the next thread's registers,
  mark it running, activate its address space, make it current.
\<close>

definition resume ::
  "('f, 'b, 'h, 'p) hal \<Rightarrow> ('b, 'h) kernel_state \<Rightarrow> 'f \<Rightarrow> tcb_id \<Rightarrow> ('b, 'h) kernel_state \<times> 'f" where
  "resume H s frame next =
     (case get_tcb s next of
        None \<Rightarrow> (set_current s (Some next), frame)
      | Some tcb \<Rightarrow>
          let frame = restore_into H (tcb_context tcb) frame;
              s = set_thread_state s next Running;
              s = s\<lparr>ks_hw := activate_if_paged H tcb (ks_hw s)\<rparr>
          in (set_current s (Some next), frame))"

definition switch_to ::
  "('f, 'b, 'h, 'p) hal \<Rightarrow> ('b, 'h) kernel_state \<Rightarrow> 'f \<Rightarrow> tcb_id \<Rightarrow> ('b, 'h) kernel_state \<times> 'f" where
  "switch_to H s frame next = resume H (save_current H s frame) frame next"

text \<open>\<open>None\<close> is the \<open>expect\<close> on the popped thread.\<close>

definition block_current ::
  "('f, 'b, 'h, 'p) hal \<Rightarrow> ('b, 'h) kernel_state \<Rightarrow> 'f
    \<Rightarrow> (bool \<times> ('b, 'h) kernel_state \<times> 'f) option" where
  "block_current H s frame =
     (if \<not> has_ready s then Some (False, s, frame)
      else
        let s = save_current H s frame;
            s = set_current s None
        in case aq_pop_front (sch_ready (ks_scheduler s)) of
             (None, _) \<Rightarrow> None
           | (Some next, ready) \<Rightarrow>
               let s = s\<lparr>ks_scheduler := (ks_scheduler s)\<lparr>sch_ready := ready\<rparr>\<rparr>
               in Some (True, resume H s frame next))"

text \<open>\<open>make_ready\<close> ignores whether the push succeeded.\<close>

definition push_ready :: "('b, 'h) kernel_state \<Rightarrow> tcb_id \<Rightarrow> ('b, 'h) kernel_state" where
  "push_ready s tid =
     s\<lparr>ks_scheduler := (ks_scheduler s)
        \<lparr>sch_ready := snd (aq_push_back (sch_ready (ks_scheduler s)) tid)\<rparr>\<rparr>"

definition make_ready :: "('b, 'h) kernel_state \<Rightarrow> tcb_id \<Rightarrow> ('b, 'h) kernel_state" where
  "make_ready s tid =
     (case get_tcb s tid of
        None \<Rightarrow> push_ready s tid
      | Some tcb \<Rightarrow>
          if tcb_state tcb = Ready then s
          else push_ready (set_thread_state s tid Ready) tid)"

section \<open>Capability lookup\<close>

definition lookup_cap ::
  "('b, 'h) kernel_state \<Rightarrow> tcb_id \<Rightarrow> cptr \<Rightarrow> syscall_error + capability" where
  "lookup_cap s thread cptr =
     (case get_tcb s thread of
        None \<Rightarrow> Inl FailedLookup
      | Some tcb \<Rightarrow>
          (case tcb_cspace tcb of
             None \<Rightarrow> Inl FailedLookup
           | Some cspace_id \<Rightarrow>
               (case pool_get (ks_cnodes s) (cnode_ix cspace_id) of
                  None \<Rightarrow> Inl FailedLookup
                | Some cnode \<Rightarrow>
                    (case cnode_get cnode cptr of
                       None \<Rightarrow> Inl InvalidCapability
                     | Some cap \<Rightarrow> if cap = Null then Inl InvalidCapability else Inr cap))))"

end
