(* ===== verification/Ipc.thy ===== *)
theory Ipc
  imports State
begin

text \<open>
  \<open>src/ipc.rs\<close>: \<open>Send\<close>/\<open>NBSend\<close>, \<open>Recv\<close>, \<open>Call\<close> and \<open>Reply\<close> on endpoints,
  \<open>Signal\<close>, \<open>Wait\<close> and \<open>Poll\<close> on notifications. Each handler is one definition, with the
  checks in the source's order; \<open>offer_cap\<close>, \<open>pop_waiter\<close> and \<open>block_on_endpoint\<close> are the
  three passages the source repeats in several handlers.
\<close>

section \<open>Resolving what a message names\<close>

definition resolve_transferable_cap ::
  "('b, 'h) kernel_state \<Rightarrow> tcb_id \<Rightarrow> cptr \<Rightarrow> syscall_error + capability" where
  "resolve_transferable_cap s thread cptr =
     (case lookup_cap s thread cptr of
        Inl e \<Rightarrow> Inl e
      | Inr cap \<Rightarrow>
          if \<not> contains (cap_rights cap) rights_GRANT then Inl IllegalOperation else Inr cap)"

definition extract_extra_cap ::
  "('f, 'b, 'h, 'p) hal \<Rightarrow> ('b, 'h) kernel_state \<Rightarrow> tcb_id \<Rightarrow> 'f \<Rightarrow> 'b message_tag
    \<Rightarrow> syscall_error + capability option" where
  "extract_extra_cap H s current frame tag =
     (if tag_extra_caps tag = 1
      then (case resolve_transferable_cap s current (h_mr H frame 1) of
              Inl e \<Rightarrow> Inl e
            | Inr cap \<Rightarrow> Inr (Some cap))
      else Inr None)"

definition call_reply_dest_slot ::
  "('f, 'b, 'h, 'p) hal \<Rightarrow> 'f \<Rightarrow> 'b message_tag \<Rightarrow> cptr option" where
  "call_reply_dest_slot H frame tag =
     (if tag_extra_caps tag = 2 then Some (h_mr H frame 1) else None)"

definition payload_words ::
  "('f, 'b, 'h, 'p) hal \<Rightarrow> 'f \<Rightarrow> bool \<Rightarrow> usize \<times> usize \<times> usize" where
  "payload_words H frame mr1_spent =
     (if mr1_spent then (0, h_mr H frame 2, h_mr H frame 3)
      else (h_mr H frame 1, h_mr H frame 2, h_mr H frame 3))"

definition resolve_endpoint ::
  "('b, 'h) kernel_state \<Rightarrow> tcb_id \<Rightarrow> cptr \<Rightarrow> rights \<Rightarrow> syscall_error + (endpoint_id \<times> u64)" where
  "resolve_endpoint s current cptr required =
     (case lookup_cap s current cptr of
        Inl e \<Rightarrow> Inl e
      | Inr (EndpointCap eid b r) \<Rightarrow>
          if contains r required then Inr (eid, b) else Inl IllegalOperation
      | Inr _ \<Rightarrow> Inl InvalidCapability)"

definition resolve_notification ::
  "('b, 'h) kernel_state \<Rightarrow> tcb_id \<Rightarrow> cptr \<Rightarrow> rights
    \<Rightarrow> syscall_error + (notification_id \<times> u64)" where
  "resolve_notification s current cptr required =
     (case lookup_cap s current cptr of
        Inl e \<Rightarrow> Inl e
      | Inr (NotificationCap nid b r) \<Rightarrow>
          if contains r required then Inr (nid, b) else Inl IllegalOperation
      | Inr _ \<Rightarrow> Inl InvalidCapability)"

section \<open>Capability transfer\<close>

definition place_transferred_cap ::
  "('b, 'h) kernel_state \<Rightarrow> tcb_id \<Rightarrow> cptr \<Rightarrow> capability
    \<Rightarrow> syscall_error + ('b, 'h) kernel_state" where
  "place_transferred_cap s receiver dest cap =
     (case get_tcb s receiver of
        None \<Rightarrow> Inl FailedLookup
      | Some tcb \<Rightarrow>
          (case tcb_cspace tcb of
             None \<Rightarrow> Inl FailedLookup
           | Some cspace_id \<Rightarrow>
               (case pool_get (ks_cnodes s) (cnode_ix cspace_id) of
                  None \<Rightarrow> Inl FailedLookup
                | Some cnode \<Rightarrow>
                    (case cnode_get cnode dest of
                       None \<Rightarrow> Inl RangeError
                     | Some slot \<Rightarrow>
                         if slot \<noteq> Null then Inl IllegalOperation
                         else Inr (s\<lparr>ks_cnodes := pool_modify (ks_cnodes s) (cnode_ix cspace_id)
                                       (\<lambda>c. cnode_put c dest cap)\<rparr>)))))"

definition blocked_receiver_dest_slot ::
  "('b, 'h) kernel_state \<Rightarrow> tcb_id \<Rightarrow> cptr option" where
  "blocked_receiver_dest_slot s receiver =
     (case get_tcb s receiver of
        None \<Rightarrow> None
      | Some tcb \<Rightarrow> (case tcb_state tcb of BlockedRecv e dest_slot \<Rightarrow> dest_slot | _ \<Rightarrow> None))"

definition blocked_caller_reply_dest_slot ::
  "('b, 'h) kernel_state \<Rightarrow> tcb_id \<Rightarrow> cptr option" where
  "blocked_caller_reply_dest_slot s caller =
     (case get_tcb s caller of
        None \<Rightarrow> None
      | Some tcb \<Rightarrow> (case tcb_state tcb of BlockedReply dest_slot \<Rightarrow> dest_slot | _ \<Rightarrow> None))"

text \<open>
  \<open>if let Some(cap) = extra_cap { let dest = \<dots>.ok_or(IllegalOperation)?;
  place_transferred_cap(\<dots>)?; }\<close>, the transfer step of \<open>send\<close>, \<open>recv\<close>, \<open>call\<close> and
  \<open>reply\<close>.
\<close>

definition offer_cap ::
  "('b, 'h) kernel_state \<Rightarrow> tcb_id \<Rightarrow> cptr option \<Rightarrow> capability option
    \<Rightarrow> syscall_error + ('b, 'h) kernel_state" where
  "offer_cap s target dest extra_cap =
     (case extra_cap of
        None \<Rightarrow> Inr s
      | Some cap \<Rightarrow>
          (case ok_or dest IllegalOperation of
             Inl e \<Rightarrow> Inl e
           | Inr d \<Rightarrow> place_transferred_cap s target d cap))"

section \<open>Endpoint queues and delivery\<close>

definition set_endpoint_queue ::
  "('b, 'h) kernel_state \<Rightarrow> endpoint_id \<Rightarrow> endpoint_queue \<Rightarrow> ('b, 'h) kernel_state" where
  "set_endpoint_queue s eid queue =
     s\<lparr>ks_endpoints := pool_modify (ks_endpoints s) (endpoint_ix eid) (\<lambda>ep. ep\<lparr>ep_queue := queue\<rparr>)\<rparr>"

fun normalize :: "endpoint_queue \<Rightarrow> endpoint_queue" where
  "normalize (QSend q) = (if aq_is_empty q then QEmpty else QSend q)"
| "normalize (QRecv q) = (if aq_is_empty q then QEmpty else QRecv q)"
| "normalize QEmpty = QEmpty"

declare normalize.simps [simp del]

definition deliver_payload ::
  "('b, 'h) kernel_state \<Rightarrow> tcb_id \<Rightarrow> u64 \<Rightarrow> usize \<Rightarrow> usize \<Rightarrow> usize \<Rightarrow> 'b message_tag
    \<Rightarrow> ('b, 'h) kernel_state" where
  "deliver_payload s target b mr1 mr2 mr3 tag =
     update_tcb s target (\<lambda>tcb. tcb\<lparr>tcb_context :=
       ctx_set_tag (ctx_set_mr (ctx_set_mr (ctx_set_mr (ctx_set_mr (tcb_context tcb) 0 b)
         1 mr1) 2 mr2) 3 mr3) tag\<rparr>)"

text \<open>
  The blocking tail of \<open>send\<close>, \<open>recv\<close> and \<open>call\<close>: queue the thread, record why it is
  blocked, run the next ready thread. A failed \<open>debug_assert!(switched)\<close> is a panic.
\<close>

definition block_on_endpoint ::
  "('f, 'b, 'h, 'p) hal \<Rightarrow> ('b, 'h) kernel_state \<Rightarrow> 'f \<Rightarrow> tcb_id \<Rightarrow> endpoint_id
    \<Rightarrow> (tcb_id array_queue \<Rightarrow> endpoint_queue) \<Rightarrow> tcb_id array_queue \<Rightarrow> thread_state
    \<Rightarrow> (('b, 'h) kernel_state, 'f) outcome" where
  "block_on_endpoint H s frame current eid side queue blocked =
     (if \<not> has_ready s then Err Timeout s frame
      else
        (case aq_push_back queue current of
           (False, _) \<Rightarrow> Err NotEnoughMemory s frame
         | (True, queue) \<Rightarrow>
             (let s = set_endpoint_queue s eid (side queue);
                  s = set_thread_state s current blocked
              in case block_current H s frame of
                   Some (True, s, frame) \<Rightarrow> Ok s frame
                 | _ \<Rightarrow> Panic)))"

section \<open>Endpoint operations\<close>

definition send ::
  "('f, 'w::len word, 'h, 'p) hal \<Rightarrow> ('w word, 'h) kernel_state \<Rightarrow> tcb_id \<Rightarrow> cptr \<Rightarrow> 'f \<Rightarrow> bool
    \<Rightarrow> (('w word, 'h) kernel_state, 'f) outcome" where
  "send H s current cptr frame nonblocking =
     (case resolve_endpoint s current cptr rights_WRITE of Inl e \<Rightarrow> Err e s frame | Inr (eid, b) \<Rightarrow>
      (let tag = h_tag H frame in
       case require_fast_path_only tag of Inl e \<Rightarrow> Err e s frame | Inr _ \<Rightarrow>
      (case extract_extra_cap H s current frame tag of Inl e \<Rightarrow> Err e s frame | Inr extra_cap \<Rightarrow>
      (case payload_words H frame (extra_cap \<noteq> None) of (mr1, mr2, mr3) \<Rightarrow>
      (case ok_or (pool_get (ks_endpoints s) (endpoint_ix eid)) InvalidCapability of
         Inl e \<Rightarrow> Err e s frame
       | Inr endpoint \<Rightarrow>
      (case ep_queue endpoint of
         QRecv waiters \<Rightarrow>
           (case aq_front waiters of None \<Rightarrow> Panic | Some receiver \<Rightarrow>
           (case offer_cap s receiver (blocked_receiver_dest_slot s receiver) extra_cap of
              Inl e \<Rightarrow> Err e s frame
            | Inr s \<Rightarrow>
           (case aq_pop_front waiters of (None, _) \<Rightarrow> Panic | (Some receiver, waiters) \<Rightarrow>
             (let s = set_endpoint_queue s eid (normalize (QRecv waiters));
                  s = deliver_payload s receiver b mr1 mr2 mr3 tag;
                  s = make_ready s receiver
              in Ok s (reply_success H frame)))))
       | queue \<Rightarrow>
           if nonblocking then Ok s (reply_success H frame)
           else block_on_endpoint H s frame current eid QSend
                  (case queue of QSend q \<Rightarrow> q | _ \<Rightarrow> aq_new MAX_TCBS)
                  (BlockedSend eid b False extra_cap None)))))))"

definition recv ::
  "('f, 'w::len word, 'h, 'p) hal \<Rightarrow> ('w word, 'h) kernel_state \<Rightarrow> tcb_id \<Rightarrow> cptr \<Rightarrow> 'f
    \<Rightarrow> (('w word, 'h) kernel_state, 'f) outcome" where
  "recv H s current cptr frame =
     (case resolve_endpoint s current cptr rights_READ of Inl e \<Rightarrow> Err e s frame | Inr (eid, _) \<Rightarrow>
      (let recv_tag = h_tag H frame in
       case require_fast_path_only recv_tag of Inl e \<Rightarrow> Err e s frame | Inr _ \<Rightarrow>
      (let dest_slot = (if tag_extra_caps recv_tag = 1 then Some (h_mr H frame 1) else None) in
      (case ok_or (pool_get (ks_endpoints s) (endpoint_ix eid)) InvalidCapability of
         Inl e \<Rightarrow> Err e s frame
       | Inr endpoint \<Rightarrow>
      (case ep_queue endpoint of
         QSend waiters \<Rightarrow>
           (case aq_front waiters of None \<Rightarrow> Panic | Some sender \<Rightarrow>
           (case ok_or (get_tcb s sender) FailedLookup of Inl e \<Rightarrow> Err e s frame | Inr sender_tcb \<Rightarrow>
           (case tcb_state sender_tcb of
              BlockedSend _ sender_badge is_call extra_cap reply_dest_slot \<Rightarrow>
                (case offer_cap s current dest_slot extra_cap of Inl e \<Rightarrow> Err e s frame | Inr s \<Rightarrow>
                (case aq_pop_front waiters of (None, _) \<Rightarrow> Panic | (Some sender, waiters) \<Rightarrow>
                  (let s = set_endpoint_queue s eid (normalize (QSend waiters));
                       payload = tcb_context sender_tcb;
                       frame = h_set_mr H frame 0 sender_badge;
                       frame = h_set_mr H frame 1 (if extra_cap \<noteq> None then 0 else ctx_mr payload 1);
                       frame = h_set_mr H frame 2 (ctx_mr payload 2);
                       frame = h_set_mr H frame 3 (ctx_mr payload 3);
                       frame = h_set_tag H frame (ctx_tag payload);
                       frame = reply_success H frame;
                       s = (if is_call
                            then set_thread_state
                                   (update_tcb s current (\<lambda>tcb. tcb\<lparr>tcb_reply_to := Some sender\<rparr>))
                                   sender (BlockedReply reply_dest_slot)
                            else make_ready s sender)
                   in Ok s frame)))
            | _ \<Rightarrow> Err IllegalOperation s frame)))
       | queue \<Rightarrow>
           block_on_endpoint H s frame current eid QRecv
             (case queue of QRecv q \<Rightarrow> q | _ \<Rightarrow> aq_new MAX_TCBS)
             (BlockedRecv eid dest_slot))))))"

definition call ::
  "('f, 'w::len word, 'h, 'p) hal \<Rightarrow> ('w word, 'h) kernel_state \<Rightarrow> tcb_id \<Rightarrow> cptr \<Rightarrow> 'f
    \<Rightarrow> (('w word, 'h) kernel_state, 'f) outcome" where
  "call H s current cptr frame =
     (case resolve_endpoint s current cptr rights_WRITE of Inl e \<Rightarrow> Err e s frame | Inr (eid, b) \<Rightarrow>
      (let tag = h_tag H frame in
       case require_call_tag tag of Inl e \<Rightarrow> Err e s frame | Inr _ \<Rightarrow>
      (case extract_extra_cap H s current frame tag of Inl e \<Rightarrow> Err e s frame | Inr extra_cap \<Rightarrow>
      (let reply_dest_slot = call_reply_dest_slot H frame tag in
      (case payload_words H frame (extra_cap \<noteq> None \<or> reply_dest_slot \<noteq> None) of (mr1, mr2, mr3) \<Rightarrow>
      (case ok_or (pool_get (ks_endpoints s) (endpoint_ix eid)) InvalidCapability of
         Inl e \<Rightarrow> Err e s frame
       | Inr endpoint \<Rightarrow>
      (case ep_queue endpoint of
         QRecv waiters \<Rightarrow>
           (case aq_front waiters of None \<Rightarrow> Panic | Some receiver \<Rightarrow>
           (case offer_cap s receiver (blocked_receiver_dest_slot s receiver) extra_cap of
              Inl e \<Rightarrow> Err e s frame
            | Inr s \<Rightarrow>
           (case aq_pop_front waiters of (None, _) \<Rightarrow> Panic | (Some receiver, waiters) \<Rightarrow>
             (let s = set_endpoint_queue s eid (normalize (QRecv waiters));
                  s = deliver_payload s receiver b mr1 mr2 mr3 tag;
                  s = update_tcb s receiver (\<lambda>tcb. tcb\<lparr>tcb_reply_to := Some current\<rparr>);
                  s = set_thread_state s current (BlockedReply reply_dest_slot)
              in case switch_to H s frame receiver of (s, frame) \<Rightarrow> Ok s frame))))
       | queue \<Rightarrow>
           block_on_endpoint H s frame current eid QSend
             (case queue of QSend q \<Rightarrow> q | _ \<Rightarrow> aq_new MAX_TCBS)
             (BlockedSend eid b True extra_cap reply_dest_slot))))))))"

definition reply ::
  "('f, 'w::len word, 'h, 'p) hal \<Rightarrow> ('w word, 'h) kernel_state \<Rightarrow> tcb_id \<Rightarrow> 'f
    \<Rightarrow> (('w word, 'h) kernel_state, 'f) outcome" where
  "reply H s current frame =
     (let tag = h_tag H frame in
      case require_fast_path_only tag of Inl e \<Rightarrow> Err e s frame | Inr _ \<Rightarrow>
     (case extract_extra_cap H s current frame tag of Inl e \<Rightarrow> Err e s frame | Inr extra_cap \<Rightarrow>
     (case payload_words H frame (extra_cap \<noteq> None) of (mr1, mr2, mr3) \<Rightarrow>
     (case ok_or (get_tcb s current) IllegalOperation of Inl e \<Rightarrow> Err e s frame | Inr tcb \<Rightarrow>
     (case ok_or (tcb_reply_to tcb) IllegalOperation of Inl e \<Rightarrow> Err e s frame | Inr target \<Rightarrow>
     (case offer_cap s target (blocked_caller_reply_dest_slot s target) extra_cap of
        Inl e \<Rightarrow> Err e s frame
      | Inr s \<Rightarrow>
     (let s = update_tcb s current (\<lambda>tcb. tcb\<lparr>tcb_reply_to := None\<rparr>) in
      case get_tcb s target of
        None \<Rightarrow> Err IllegalOperation s frame
      | Some _ \<Rightarrow>
          (let s = deliver_payload s target 0 mr1 mr2 mr3 tag;
               s = make_ready s current
           in case switch_to H s frame target of (s, frame) \<Rightarrow> Ok s frame))))))))"

section \<open>Notification operations\<close>

definition update_notification ::
  "('b, 'h) kernel_state \<Rightarrow> notification_id \<Rightarrow> (notification \<Rightarrow> notification)
    \<Rightarrow> ('b, 'h) kernel_state" where
  "update_notification s nid f =
     s\<lparr>ks_notifications := pool_modify (ks_notifications s) (notification_ix nid) f\<rparr>"

definition signal ::
  "('f, 'w::len word, 'h, 'p) hal \<Rightarrow> ('w word, 'h) kernel_state \<Rightarrow> tcb_id \<Rightarrow> cptr \<Rightarrow> 'f
    \<Rightarrow> (('w word, 'h) kernel_state, 'f) outcome" where
  "signal H s current cptr frame =
     (case resolve_notification s current cptr rights_WRITE of Inl e \<Rightarrow> Err e s frame | Inr (nid, b) \<Rightarrow>
     (case ok_or (pool_get (ks_notifications s) (notification_ix nid)) InvalidCapability of
        Inl e \<Rightarrow> Err e s frame
      | Inr notif \<Rightarrow>
     (case aq_pop_front (ntfn_waiters notif) of
        (Some waiter, waiters) \<Rightarrow>
          (let delivered = ntfn_signals notif OR b;
               s = update_notification s nid (\<lambda>n. n\<lparr>ntfn_waiters := waiters, ntfn_signals := 0\<rparr>);
               s = update_tcb s waiter (\<lambda>tcb. tcb\<lparr>tcb_context := ctx_set_mr (tcb_context tcb) 0 delivered\<rparr>);
               s = make_ready s waiter
           in Ok s (reply_success H frame))
      | (None, _) \<Rightarrow>
          (let s = update_notification s nid (\<lambda>n. n\<lparr>ntfn_signals := ntfn_signals n OR b\<rparr>)
           in Ok s (reply_success H frame)))))"

definition wait ::
  "('f, 'w::len word, 'h, 'p) hal \<Rightarrow> ('w word, 'h) kernel_state \<Rightarrow> tcb_id \<Rightarrow> cptr \<Rightarrow> 'f
    \<Rightarrow> (('w word, 'h) kernel_state, 'f) outcome" where
  "wait H s current cptr frame =
     (case resolve_notification s current cptr rights_READ of Inl e \<Rightarrow> Err e s frame | Inr (nid, _) \<Rightarrow>
     (case ok_or (pool_get (ks_notifications s) (notification_ix nid)) InvalidCapability of
        Inl e \<Rightarrow> Err e s frame
      | Inr notif \<Rightarrow>
          if ntfn_signals notif \<noteq> 0 then
            (let frame = h_set_mr H frame 0 (ntfn_signals notif);
                 s = update_notification s nid (\<lambda>n. n\<lparr>ntfn_signals := 0\<rparr>)
             in Ok s (reply_success H frame))
          else if \<not> has_ready s then Err Timeout s frame
          else
            (case aq_push_back (ntfn_waiters notif) current of
               (False, _) \<Rightarrow> Err NotEnoughMemory s frame
             | (True, waiters) \<Rightarrow>
                 (let s = update_notification s nid (\<lambda>n. n\<lparr>ntfn_waiters := waiters\<rparr>);
                      s = set_thread_state s current (BlockedWait nid)
                  in case block_current H s frame of
                       Some (True, s, frame) \<Rightarrow> Ok s frame
                     | _ \<Rightarrow> Panic))))"

definition poll ::
  "('f, 'w::len word, 'h, 'p) hal \<Rightarrow> ('w word, 'h) kernel_state \<Rightarrow> tcb_id \<Rightarrow> cptr \<Rightarrow> 'f
    \<Rightarrow> (('w word, 'h) kernel_state, 'f) outcome" where
  "poll H s current cptr frame =
     (case resolve_notification s current cptr rights_READ of Inl e \<Rightarrow> Err e s frame | Inr (nid, _) \<Rightarrow>
     (case ok_or (pool_get (ks_notifications s) (notification_ix nid)) InvalidCapability of
        Inl e \<Rightarrow> Err e s frame
      | Inr notif \<Rightarrow>
          (let s = (if ntfn_signals notif \<noteq> 0
                    then update_notification s nid (\<lambda>n. n\<lparr>ntfn_signals := 0\<rparr>) else s);
               frame = h_set_mr H frame 0 (ntfn_signals notif)
           in Ok s (reply_success H frame))))"

end
