(* ===== verification/Threads.thy ===== *)
theory Threads
  imports Object
begin

text \<open>
  The abstract thread machine: what the kernel promises about threads, without contexts,
  capabilities or memory. A thread waits in the one queue its state names; \<open>shift\<close> moves a
  thread to a new state and to the tail of that state's queue. \<open>tstep\<close> lists the steps one
  system call can make; \<open>threads_ok\<close> is the invariant, kept by every step. The kernel model
  is proved to refine this machine in \<open>Refine\<close>.
\<close>

section \<open>Views\<close>

datatype place = PReady | PSend endpoint_id | PRecv endpoint_id | PWait notification_id

fun place_of :: "thread_state \<Rightarrow> place option" where
  "place_of Inactive = None"
| "place_of Ready = Some PReady"
| "place_of Running = None"
| "place_of (BlockedSend e b c x d) = Some (PSend e)"
| "place_of (BlockedRecv e d) = Some (PRecv e)"
| "place_of (BlockedReply d) = None"
| "place_of (BlockedWait n) = Some (PWait n)"

record thread_view =
  tv_state :: "tcb_id \<Rightarrow> thread_state option"
  tv_reply :: "tcb_id \<Rightarrow> tcb_id option"
  tv_queue :: "place \<Rightarrow> tcb_id list"
  tv_signals :: "notification_id \<Rightarrow> u64"
  tv_current :: "tcb_id option"

definition shift :: "thread_view \<Rightarrow> tcb_id \<Rightarrow> thread_state \<Rightarrow> thread_view" where
  "shift v t x = v\<lparr>tv_state := (tv_state v)(t \<mapsto> x),
     tv_queue := (\<lambda>p. filter (\<lambda>u. u \<noteq> t) (tv_queue v p) @ (if place_of x = Some p then [t] else []))\<rparr>"

lemma shift_simps [simp]:
  "tv_state (shift v t x) = (tv_state v)(t \<mapsto> x)"
  "tv_reply (shift v t x) = tv_reply v"
  "tv_signals (shift v t x) = tv_signals v"
  "tv_current (shift v t x) = tv_current v"
  by (simp_all add: shift_def)

section \<open>The invariant\<close>

definition queued_once :: "thread_view \<Rightarrow> bool" where
  "queued_once v \<longleftrightarrow> (\<forall>p. distinct (tv_queue v p))
     \<and> (\<forall>p t. t \<in> set (tv_queue v p) \<longleftrightarrow> Option.bind (tv_state v t) place_of = Some p)"

definition one_running :: "thread_view \<Rightarrow> bool" where
  "one_running v \<longleftrightarrow> (\<forall>t. tv_state v t = Some Running \<longleftrightarrow> tv_current v = Some t)"

definition replies_ok :: "thread_view \<Rightarrow> bool" where
  "replies_ok v \<longleftrightarrow> (\<forall>t u. tv_reply v t = Some u \<longrightarrow> (\<exists>d. tv_state v u = Some (BlockedReply d)))
     \<and> (\<forall>t t' u. tv_reply v t = Some u \<longrightarrow> tv_reply v t' = Some u \<longrightarrow> t = t')"

definition rendezvous_ok :: "thread_view \<Rightarrow> bool" where
  "rendezvous_ok v \<longleftrightarrow> (\<forall>e. tv_queue v (PSend e) = [] \<or> tv_queue v (PRecv e) = [])"

definition signals_ok :: "thread_view \<Rightarrow> bool" where
  "signals_ok v \<longleftrightarrow> (\<forall>n. tv_signals v n = 0 \<or> tv_queue v (PWait n) = [])"

definition threads_ok :: "thread_view \<Rightarrow> bool" where
  "threads_ok v \<longleftrightarrow> queued_once v \<and> one_running v \<and> replies_ok v \<and> rendezvous_ok v \<and> signals_ok v"

lemma queued_once_shift: "queued_once v \<Longrightarrow> queued_once (shift v t x)"
  by (auto simp: queued_once_def shift_def)

lemma queued_place:
  assumes "queued_once v" and "t \<in> set (tv_queue v p)"
  obtains x where "tv_state v t = Some x" and "place_of x = Some p"
  using assms by (auto simp: queued_once_def bind_eq_Some_conv)

lemma queued_head:
  assumes "queued_once v" and "tv_queue v p = t # ts"
  obtains x where "tv_state v t = Some x" and "place_of x = Some p"
  using queued_place [OF assms(1), of t p] assms(2) by auto

lemma not_queued:
  assumes "queued_once v" and "tv_state v t = y" and "Option.bind y place_of \<noteq> Some p"
  shows "t \<notin> set (tv_queue v p)"
  using assms by (auto simp: queued_once_def)

text \<open>How a shift looks from the queues: of the head of a queue, and of a thread in none.\<close>

lemma filter_neq_id: "t \<notin> set ts \<Longrightarrow> filter (\<lambda>u. u \<noteq> t) ts = ts"
  by (induction ts) auto

lemma shift_head:
  assumes ok: "queued_once v" and q: "tv_queue v p = t # ts"
  shows "tv_queue (shift v t x) = (\<lambda>r. ((tv_queue v)(p := ts)) r @ (if place_of x = Some r then [t] else []))"
proof
  fix r
  have "filter (\<lambda>u. u \<noteq> t) (tv_queue v r) = ((tv_queue v)(p := ts)) r"
  proof (cases "r = p")
    case True
    have "t \<notin> set ts" using ok q unfolding queued_once_def by (metis distinct.simps(2))
    with True q show ?thesis by (simp add: filter_neq_id)
  next
    case False
    then have "t \<notin> set (tv_queue v r)"
      using ok q unfolding queued_once_def by (metis list.set_intros(1) option.inject)
    with False show ?thesis by (simp add: filter_neq_id)
  qed
  then show "tv_queue (shift v t x) r = ((tv_queue v)(p := ts)) r @ (if place_of x = Some r then [t] else [])"
    by (simp add: shift_def)
qed

lemma shift_idle:
  assumes ok: "queued_once v" and idle: "Option.bind (tv_state v t) place_of = None"
  shows "tv_queue (shift v t x) = (\<lambda>r. tv_queue v r @ (if place_of x = Some r then [t] else []))"
proof
  fix r
  have "t \<notin> set (tv_queue v r)" using ok idle by (simp add: queued_once_def)
  then show "tv_queue (shift v t x) r = tv_queue v r @ (if place_of x = Some r then [t] else [])"
    by (simp add: shift_def filter_neq_id)
qed

text \<open>The view after one or two shifts, written out.\<close>

lemma shift_head_view:
  assumes "queued_once v" and "tv_queue v p = t # ts"
  shows "place_of x = Some p' \<Longrightarrow> p' \<noteq> p \<Longrightarrow> shift v t x
       = v\<lparr>tv_state := (tv_state v)(t \<mapsto> x), tv_queue := (tv_queue v)(p := ts, p' := tv_queue v p' @ [t])\<rparr>"
    and "place_of x = None \<Longrightarrow> shift v t x
       = v\<lparr>tv_state := (tv_state v)(t \<mapsto> x), tv_queue := (tv_queue v)(p := ts)\<rparr>"
  by (rule thread_view.equality; auto simp: shift_head [OF assms])+

lemma shift_idle_view:
  assumes "queued_once v" and "Option.bind (tv_state v t) place_of = None"
  shows "place_of x = Some p \<Longrightarrow> shift v t x
       = v\<lparr>tv_state := (tv_state v)(t \<mapsto> x), tv_queue := (tv_queue v)(p := tv_queue v p @ [t])\<rparr>"
    and "place_of x = None \<Longrightarrow> shift v t x = v\<lparr>tv_state := (tv_state v)(t \<mapsto> x)\<rparr>"
  by (rule thread_view.equality; auto simp: shift_idle [OF assms])+

lemma shift_queue_new: "place_of x = Some p \<Longrightarrow> t \<notin> set (tv_queue v p) \<Longrightarrow> tv_queue (shift v t x) p = tv_queue v p @ [t]"
  by (simp add: shift_def filter_neq_id)

lemma shift_queue_other: "place_of x \<noteq> Some p \<Longrightarrow> t \<notin> set (tv_queue v p) \<Longrightarrow> tv_queue (shift v t x) p = tv_queue v p"
  by (simp add: shift_def filter_neq_id)

lemma handoff_view:
  assumes ok: "queued_once v" and c: "Option.bind (tv_state v c) place_of = None"
    and x: "place_of x = Some p" and q: "tv_queue v q @ (if p = q then [c] else []) = u # us"
  shows "shift (shift v c x) u Running
       = v\<lparr>tv_state := (tv_state v)(c \<mapsto> x, u \<mapsto> Running),
           tv_queue := (tv_queue v)(p := tv_queue v p @ [c], q := us)\<rparr>"
proof -
  let ?w = "shift v c x"
  have w: "?w = v\<lparr>tv_state := (tv_state v)(c \<mapsto> x), tv_queue := (tv_queue v)(p := tv_queue v p @ [c])\<rparr>"
    by (rule shift_idle_view(1) [OF ok c x])
  have "queued_once ?w" using ok by (rule queued_once_shift)
  moreover have "tv_queue ?w q = u # us" using q by (auto simp: w split: if_splits)
  ultimately have "shift ?w u Running
      = ?w\<lparr>tv_state := (tv_state ?w)(u \<mapsto> Running), tv_queue := (tv_queue ?w)(q := us)\<rparr>"
    by (rule shift_head_view(2)) simp
  then show ?thesis by (simp add: w)
qed

lemma reply_handoff_view:
  assumes ok: "queued_once v" and c: "Option.bind (tv_state v c) place_of = None"
    and q: "tv_queue v q = u # us"
  shows "shift (shift v c (BlockedReply d)) u Running
       = v\<lparr>tv_state := (tv_state v)(c \<mapsto> BlockedReply d, u \<mapsto> Running), tv_queue := (tv_queue v)(q := us)\<rparr>"
proof -
  let ?w = "shift v c (BlockedReply d)"
  have w: "?w = v\<lparr>tv_state := (tv_state v)(c \<mapsto> BlockedReply d)\<rparr>"
    by (rule shift_idle_view(2) [OF ok c]) simp
  have "shift ?w u Running = ?w\<lparr>tv_state := (tv_state ?w)(u \<mapsto> Running), tv_queue := (tv_queue ?w)(q := us)\<rparr>"
    by (rule shift_head_view(2) [OF queued_once_shift [OF ok]]) (simp_all add: w q)
  then show ?thesis by (simp add: w)
qed

section \<open>The steps\<close>

text \<open>
  A thread blocks on an endpoint only when nobody waits on the other side, and on a
  notification only when no signal is pending.
\<close>

fun can_block :: "thread_view \<Rightarrow> thread_state \<Rightarrow> bool" where
  "can_block v (BlockedSend e b c x d) \<longleftrightarrow> tv_queue v (PRecv e) = []"
| "can_block v (BlockedRecv e d) \<longleftrightarrow> tv_queue v (PSend e) = []"
| "can_block v (BlockedWait n) \<longleftrightarrow> tv_signals v n = 0"
| "can_block v Inactive \<longleftrightarrow> False"
| "can_block v Ready \<longleftrightarrow> False"
| "can_block v Running \<longleftrightarrow> False"
| "can_block v (BlockedReply d) \<longleftrightarrow> False"

inductive tstep :: "tcb_id \<Rightarrow> thread_view \<Rightarrow> thread_view \<Rightarrow> bool" for c where
  Stay: "tstep c v v"
| Deliver: "tv_queue v (PRecv e) = t # ts \<Longrightarrow> tstep c v (shift v t Ready)"
| Collect: "tv_queue v (PSend e) = t # ts \<Longrightarrow> tv_state v t = Some (BlockedSend e b False x d)
    \<Longrightarrow> tstep c v (shift v t Ready)"
| Accept: "tv_queue v (PSend e) = t # ts \<Longrightarrow> tv_state v t = Some (BlockedSend e b True x d)
    \<Longrightarrow> tstep c v ((shift v t (BlockedReply d))\<lparr>tv_reply := (tv_reply v)(c \<mapsto> t)\<rparr>)"
| Notify: "tv_queue v (PWait n) = t # ts \<Longrightarrow> tstep c v (shift v t Ready)"
| Raise: "tv_queue v (PWait n) = []
    \<Longrightarrow> tstep c v (v\<lparr>tv_signals := (tv_signals v)(n := tv_signals v n OR b)\<rparr>)"
| Consume: "tstep c v (v\<lparr>tv_signals := (tv_signals v)(n := 0)\<rparr>)"
| Block: "can_block v x \<Longrightarrow> tv_queue v PReady = u # us
    \<Longrightarrow> tstep c v ((shift (shift v c x) u Running)\<lparr>tv_current := Some u\<rparr>)"
| Call: "tv_queue v (PRecv e) = t # ts
    \<Longrightarrow> tstep c v ((shift (shift v c (BlockedReply d)) t Running)
          \<lparr>tv_reply := (tv_reply v)(t \<mapsto> c), tv_current := Some t\<rparr>)"
| Reply: "tv_reply v c = Some t
    \<Longrightarrow> tstep c v ((shift (shift v c Ready) t Running)
          \<lparr>tv_reply := (tv_reply v)(c := None), tv_current := Some t\<rparr>)"
| Yield: "tv_queue v PReady @ [c] = u # us
    \<Longrightarrow> tstep c v ((shift (shift v c Ready) u Running)\<lparr>tv_current := Some u\<rparr>)"
| Create: "tv_state v t = None \<Longrightarrow> tstep c v (shift v t Inactive)"
| Start: "tv_state v t = Some Inactive \<Longrightarrow> tstep c v (shift v t Ready)"

section \<open>Every step keeps the invariant\<close>

lemma view_update_simps [simp]:
  "queued_once (v\<lparr>tv_reply := r\<rparr>) = queued_once v"
  "queued_once (v\<lparr>tv_current := k\<rparr>) = queued_once v"
  "queued_once (v\<lparr>tv_signals := g\<rparr>) = queued_once v"
  by (simp_all add: queued_once_def)

lemma queues_shrink:
  assumes "tv_queue v p = []" and "place_of x \<noteq> Some p"
  shows "tv_queue (shift v t x) p = []"
  using assms by (simp add: shift_def)

lemma rendezvous_shift:
  assumes "rendezvous_ok v" and "can_block v x \<or> place_of x = None \<or> x = Ready"
  shows "rendezvous_ok (shift v t x)"
  unfolding rendezvous_ok_def
proof
  fix e
  from assms(1) have "tv_queue v (PSend e) = [] \<or> tv_queue v (PRecv e) = []"
    by (simp add: rendezvous_ok_def)
  with assms(2) show "tv_queue (shift v t x) (PSend e) = [] \<or> tv_queue (shift v t x) (PRecv e) = []"
    by (cases x) (auto simp: shift_def)
qed

lemma signals_shift:
  assumes "signals_ok v" and "can_block v x \<or> place_of x = None \<or> x = Ready"
  shows "signals_ok (shift v t x)"
  using assms by (cases x) (auto simp: signals_ok_def shift_def)

lemma tstep_queued_once:
  assumes "tstep c v v'" and "queued_once v"
  shows "queued_once v'"
  using assms by (induction rule: tstep.induct) (simp_all add: queued_once_shift)

lemma tstep_rendezvous:
  assumes "tstep c v v'" and "rendezvous_ok v"
  shows "rendezvous_ok v'"
proof -
  have upd: "rendezvous_ok (w\<lparr>tv_reply := r\<rparr>) = rendezvous_ok w"
    "rendezvous_ok (w\<lparr>tv_current := k\<rparr>) = rendezvous_ok w"
    "rendezvous_ok (w\<lparr>tv_signals := g\<rparr>) = rendezvous_ok w" for w r k g
    by (simp_all add: rendezvous_ok_def)
  show ?thesis using assms by (induction rule: tstep.induct) (simp_all add: rendezvous_shift upd)
qed

lemma tstep_signals:
  assumes "tstep c v v'" and "signals_ok v"
  shows "signals_ok v'"
proof -
  have upd: "signals_ok (w\<lparr>tv_reply := r\<rparr>) = signals_ok w"
    "signals_ok (w\<lparr>tv_current := k\<rparr>) = signals_ok w" for w r k
    by (simp_all add: signals_ok_def)
  show ?thesis using assms
  proof (induction rule: tstep.induct)
    case (Raise v n b) then show ?case by (auto simp: signals_ok_def)
  next
    case (Consume v n) then show ?case by (auto simp: signals_ok_def)
  qed (simp_all add: signals_shift upd)
qed

text \<open>The states a thread found in a queue can have.\<close>

lemma place_of_simps [simp]:
  "place_of x = Some PReady \<longleftrightarrow> x = Ready"
  "place_of x = Some (PSend e) \<longleftrightarrow> (\<exists>b k y d. x = BlockedSend e b k y d)"
  "place_of x = Some (PRecv e) \<longleftrightarrow> (\<exists>d. x = BlockedRecv e d)"
  "place_of x = Some (PWait n) \<longleftrightarrow> x = BlockedWait n"
  by (cases x; auto)+

lemma head_states:
  assumes "queued_once v"
  shows "tv_queue v PReady = t # ts \<Longrightarrow> tv_state v t = Some Ready"
    and "tv_queue v (PSend e) = t # ts \<Longrightarrow> \<exists>b k y d. tv_state v t = Some (BlockedSend e b k y d)"
    and "tv_queue v (PRecv e) = t # ts \<Longrightarrow> \<exists>d. tv_state v t = Some (BlockedRecv e d)"
    and "tv_queue v (PWait n) = t # ts \<Longrightarrow> tv_state v t = Some (BlockedWait n)"
  using assms by (auto elim!: queued_head)

lemma current_running: "one_running v \<Longrightarrow> tv_current v = Some c \<Longrightarrow> tv_state v c = Some Running"
  by (simp add: one_running_def)

lemma one_running_shift:
  assumes "one_running v" and "tv_state v t = y" and "y \<noteq> Some Running" and "x \<noteq> Running"
  shows "one_running (shift v t x)"
  using assms by (auto simp: one_running_def)

lemma one_running_handoff:
  assumes "one_running v" and "tv_current v = Some c" and "x \<noteq> Running"
  shows "one_running ((shift (shift v c x) u Running)\<lparr>tv_current := Some u\<rparr>)"
  using assms by (auto simp: one_running_def)

lemma one_running_updates [simp]:
  "one_running (v\<lparr>tv_reply := r\<rparr>) = one_running v"
  "one_running (v\<lparr>tv_signals := g\<rparr>) = one_running v"
  "one_running (v\<lparr>tv_reply := r, tv_current := k\<rparr>) = one_running (v\<lparr>tv_current := k\<rparr>)"
  by (simp_all add: one_running_def)

lemma tstep_one_running:
  assumes "tstep c v v'" and "tv_current v = Some c" and "one_running v" and "queued_once v"
  shows "one_running v'"
  using assms
proof (induction rule: tstep.induct)
  case (Deliver v e t ts)
  then show ?case using head_states(3) by (fastforce intro: one_running_shift)
next
  case (Notify v n t ts)
  then show ?case using head_states(4) by (fastforce intro: one_running_shift)
next
  case (Block v x u us)
  then show ?case by (auto intro!: one_running_handoff elim!: can_block.elims)
qed (auto intro: one_running_shift one_running_handoff)

lemma tstep_replies:
  assumes "tstep c v v'" and "tv_current v = Some c" and "one_running v" and "queued_once v"
    and "replies_ok v"
  shows "replies_ok v'"
proof -
  have c: "tv_state v c = Some Running" using assms(2,3) by (simp add: one_running_def)
  have blocked: "\<exists>d. tv_state v u = Some (BlockedReply d)" if "tv_reply v t = Some u" for t u
    using assms(5) that by (auto simp: replies_ok_def)
  from assms(1) show ?thesis
  proof cases
    case (Accept e t ts b x d)
    with assms(5) c show ?thesis by (fastforce simp: replies_ok_def dest: blocked)
  next
    case (Block x u us)
    then have "tv_state v u = Some Ready" using head_states(1) [OF assms(4)] by blast
    with Block assms(5) c blocked show ?thesis by (fastforce simp: replies_ok_def)
  next
    case (Call e t ts d)
    then obtain d' where "tv_state v t = Some (BlockedRecv e d')"
      using head_states(3) [OF assms(4)] by blast
    with Call assms(5) c blocked show ?thesis by (fastforce simp: replies_ok_def)
  next
    case (Reply t)
    with assms(5) c show ?thesis by (fastforce simp: replies_ok_def)
  next
    case (Yield u us)
    then have "tv_state v u = Some Ready \<or> u = c"
      using head_states(1) [OF assms(4)] by (cases "tv_queue v PReady") auto
    with Yield assms(5) c blocked show ?thesis by (fastforce simp: replies_ok_def)
  next
    case (Deliver e t ts)
    then obtain d' where "tv_state v t = Some (BlockedRecv e d')"
      using head_states(3) [OF assms(4)] by blast
    with Deliver assms(5) c blocked show ?thesis by (fastforce simp: replies_ok_def)
  next
    case (Notify n t ts)
    then have "tv_state v t = Some (BlockedWait n)"
      using head_states(4) [OF assms(4)] by blast
    with Notify assms(5) c blocked show ?thesis by (fastforce simp: replies_ok_def)
  qed (use assms(5) blocked in \<open>fastforce simp: replies_ok_def\<close>)+
qed

theorem tstep_threads_ok:
  assumes "tstep c v v'" and "tv_current v = Some c" and "threads_ok v"
  shows "threads_ok v'"
  using assms tstep_queued_once tstep_one_running tstep_replies tstep_rendezvous tstep_signals
  unfolding threads_ok_def by blast

section \<open>What one step can do to one thread, and to the ready queue\<close>

inductive_cases tstepE: "tstep c v v'"

lemma head_exclusions:
  assumes "queued_once v" and "tv_queue v p = u # us"
  shows "tv_state v u \<noteq> Some (BlockedReply d)" and "tv_state v u \<noteq> Some Running"
    and "p \<noteq> PReady \<Longrightarrow> tv_state v u \<noteq> Some Ready"
  using assms by (auto elim!: queued_head)

text \<open>The transitions of one thread's state.\<close>

fun transition :: "thread_state \<Rightarrow> thread_state \<Rightarrow> bool" where
  "transition Inactive y \<longleftrightarrow> y = Ready"
| "transition Ready y \<longleftrightarrow> y = Running"
| "transition Running y \<longleftrightarrow> y \<noteq> Inactive"
| "transition (BlockedSend e b k x d) y \<longleftrightarrow> y = (if k then BlockedReply d else Ready)"
| "transition (BlockedRecv e d) y \<longleftrightarrow> y = Ready \<or> y = Running"
| "transition (BlockedReply d) y \<longleftrightarrow> y = Running"
| "transition (BlockedWait n) y \<longleftrightarrow> y = Ready"

lemma tstep_transition:
  assumes step: "tstep c v v'" and cur: "tv_current v = Some c" and ok: "threads_ok v"
    and t: "tv_state v t = Some x"
  shows "\<exists>y. tv_state v' t = Some y \<and> (y = x \<or> transition x y)"
proof -
  have once: "queued_once v" and c: "tv_state v c = Some Running" and rep: "replies_ok v"
    using ok cur current_running by (simp_all add: threads_ok_def)
  from step show ?thesis
  proof (rule tstepE)
    fix e u us assume "v' = shift v u Ready" "tv_queue v (PRecv e) = u # us"
    with t head_states(3) [OF once] show ?thesis by fastforce
  next
    fix x' u us
    assume "v' = shift (shift v c x') u Running\<lparr>tv_current := Some u\<rparr>" "can_block v x'" "tv_queue v PReady = u # us"
    with t c head_states(1) [OF once, of u us] show ?thesis
      by (cases "t = u"; cases "t = c") (auto elim!: can_block.elims)
  next
    fix u us assume "v' = shift (shift v c Ready) u Running\<lparr>tv_current := Some u\<rparr>" "tv_queue v PReady @ [c] = u # us"
    with t c head_states(1) [OF once, of u] show ?thesis
      by (cases "tv_queue v PReady"; cases "t = u"; cases "t = c") auto
  next
    fix e u us d
    assume v': "v' = shift (shift v c (BlockedReply d)) u Running\<lparr>tv_reply := (tv_reply v)(u \<mapsto> c), tv_current := Some u\<rparr>"
      and "tv_queue v (PRecv e) = u # us"
    then obtain d' where "tv_state v u = Some (BlockedRecv e d')" using head_states(3) [OF once] by blast
    with v' t c show ?thesis by auto
  next
    fix u assume v': "v' = shift (shift v c Ready) u Running\<lparr>tv_reply := (tv_reply v)(c := None), tv_current := Some u\<rparr>"
      and "tv_reply v c = Some u"
    then obtain d where "tv_state v u = Some (BlockedReply d)" using rep unfolding replies_ok_def by blast
    with v' t c show ?thesis by auto
  next
    fix n u us assume "v' = shift v u Ready" "tv_queue v (PWait n) = u # us"
    with t head_states(4) [OF once] show ?thesis by fastforce
  qed (use t in auto)
qed

text \<open>A caller waits for its reply until the thread that holds the link to it replies.\<close>

lemma tstep_caller_waits:
  assumes step: "tstep c v v'" and cur: "tv_current v = Some c" and ok: "threads_ok v"
    and t: "tv_state v t = Some (BlockedReply d)"
  shows "tv_state v' t = Some (BlockedReply d)
       \<or> tv_reply v c = Some t \<and> tv_reply v' c = None \<and> tv_current v' = Some t \<and> tv_state v' t = Some Running"
proof -
  have once: "queued_once v" and c: "tv_state v c = Some Running"
    using ok cur current_running by (simp_all add: threads_ok_def)
  from step show ?thesis
  proof (rule tstepE)
    fix e u us assume "v' = shift v u Ready" "tv_queue v (PRecv e) = u # us"
    with t head_exclusions(1) [OF once, of "PRecv e" u us d] show ?thesis by auto
  next
    fix x' u us
    assume "v' = shift (shift v c x') u Running\<lparr>tv_current := Some u\<rparr>" "tv_queue v PReady = u # us"
    with t c head_states(1) [OF once, of u us] show ?thesis by auto
  next
    fix u us assume "v' = shift (shift v c Ready) u Running\<lparr>tv_current := Some u\<rparr>" "tv_queue v PReady @ [c] = u # us"
    with t c head_states(1) [OF once, of u] show ?thesis
      by (cases "tv_queue v PReady") auto
  next
    fix e u us d
    assume v': "v' = shift (shift v c (BlockedReply d)) u Running\<lparr>tv_reply := (tv_reply v)(u \<mapsto> c), tv_current := Some u\<rparr>"
      and "tv_queue v (PRecv e) = u # us"
    then obtain d' where "tv_state v u = Some (BlockedRecv e d')" using head_states(3) [OF once] by blast
    with v' t c show ?thesis by auto
  next
    fix n u us assume "v' = shift v u Ready" "tv_queue v (PWait n) = u # us"
    with t head_exclusions(1) [OF once, of "PWait n" u us d] show ?thesis by auto
  qed (use t c in auto)
qed

text \<open>
  The ready queue is first in, first out: a step takes at most its head, which then runs, and
  appends at most one thread.
\<close>

definition fifo_step :: "thread_view \<Rightarrow> thread_view \<Rightarrow> bool" where
  "fifo_step v v' \<longleftrightarrow> (\<exists>zs. length zs \<le> 1 \<and> (tv_queue v' PReady = tv_queue v PReady @ zs
     \<or> (\<exists>u us. tv_queue v PReady = u # us \<and> tv_queue v' PReady = us @ zs \<and> tv_current v' = Some u)))"

lemma fifo_keep: "tv_queue v' PReady = tv_queue v PReady \<Longrightarrow> fifo_step v v'"
  unfolding fifo_step_def by (intro exI [of _ "[]"]) simp

lemma fifo_append: "tv_queue v' PReady = tv_queue v PReady @ [t] \<Longrightarrow> fifo_step v v'"
  unfolding fifo_step_def by (intro exI [of _ "[t]"]) simp

lemma shift_ready:
  "tv_queue (shift v t x) PReady = filter (\<lambda>u. u \<noteq> t) (tv_queue v PReady) @ (if x = Ready then [t] else [])"
  by (simp add: shift_def)

lemma ready_filter:
  assumes "queued_once v" and "tv_state v t \<noteq> Some Ready"
  shows "filter (\<lambda>u. u \<noteq> t) (tv_queue v PReady) = tv_queue v PReady"
proof -
  have "t \<notin> set (tv_queue v PReady)"
    using not_queued [OF assms(1) refl, of t PReady] assms(2) by (cases "tv_state v t") auto
  then show ?thesis by (rule filter_neq_id)
qed

lemma fifo_handoff:
  assumes once: "queued_once v" and c: "tv_state v c = Some Running" and x: "x = Ready \<or> place_of x \<noteq> Some PReady"
    and q: "tv_queue v PReady @ (if x = Ready then [c] else []) = u # us"
    and v': "v' = shift (shift v c x) u Running\<lparr>tv_current := Some u\<rparr>"
  shows "fifo_step v v'"
proof -
  have dist: "distinct (tv_queue v PReady)" and c': "c \<notin> set (tv_queue v PReady)"
    using once not_queued [OF once c, of PReady] by (simp_all add: queued_once_def)
  then have "distinct (u # us)" unfolding q [symmetric] by simp
  have "tv_queue v' PReady = filter (\<lambda>w. w \<noteq> u) (tv_queue v PReady @ (if x = Ready then [c] else []))"
    using c' by (simp add: v' shift_ready filter_neq_id)
  also have "\<dots> = us" unfolding q using \<open>distinct (u # us)\<close> by (simp add: filter_neq_id)
  finally have "tv_queue v' PReady = us" .
  with q v' show ?thesis unfolding fifo_step_def
    by (intro exI [of _ "if x = Ready \<and> tv_queue v PReady \<noteq> [] then [c] else []"])
       (cases "tv_queue v PReady"; cases "x = Ready"; auto)
qed

lemma tstep_ready_fifo:
  assumes step: "tstep c v v'" and cur: "tv_current v = Some c" and ok: "threads_ok v"
  shows "fifo_step v v'"
proof -
  have once: "queued_once v" and c: "tv_state v c = Some Running" and rep: "replies_ok v"
    using ok cur current_running by (simp_all add: threads_ok_def)
  note F = ready_filter [OF once]
  from step show ?thesis
  proof (rule tstepE)
    fix e u us assume "v' = shift v u Ready" "tv_queue v (PRecv e) = u # us"
    with F [of u] head_exclusions(3) [OF once, of "PRecv e" u us] show ?thesis
      by (intro fifo_append [of _ _ u]) (simp add: shift_ready)
  next
    fix x' u us
    assume "v' = shift (shift v c x') u Running\<lparr>tv_current := Some u\<rparr>" "can_block v x'" "tv_queue v PReady = u # us"
    then show ?thesis by (intro fifo_handoff [OF once c, of x' u us]) (auto elim: can_block.elims)
  next
    fix e u us d
    assume "v' = shift (shift v c (BlockedReply d)) u Running\<lparr>tv_reply := (tv_reply v)(u \<mapsto> c), tv_current := Some u\<rparr>"
      and q: "tv_queue v (PRecv e) = u # us"
    with F [of u] F [of c] c head_exclusions(3) [OF once q] show ?thesis
      by (intro fifo_keep) (simp add: shift_ready)
  next
    fix u assume v': "v' = shift (shift v c Ready) u Running\<lparr>tv_reply := (tv_reply v)(c := None), tv_current := Some u\<rparr>"
      and "tv_reply v c = Some u"
    then obtain d where "tv_state v u = Some (BlockedReply d)" using rep unfolding replies_ok_def by blast
    with v' F [of u] F [of c] c show ?thesis by (intro fifo_append [of _ _ c]) (auto simp: shift_ready)
  next
    fix u us assume "v' = shift (shift v c Ready) u Running\<lparr>tv_current := Some u\<rparr>" "tv_queue v PReady @ [c] = u # us"
    then show ?thesis by (intro fifo_handoff [OF once c, of Ready u us]) auto
  next
    fix n u us assume "v' = shift v u Ready" "tv_queue v (PWait n) = u # us"
    with F [of u] head_exclusions(3) [OF once, of "PWait n" u us] show ?thesis
      by (intro fifo_append [of _ _ u]) (simp add: shift_ready)
  qed (use F in \<open>auto simp: shift_ready intro: fifo_keep fifo_append\<close>)
qed

end
