(* ===== verification/Invariant.thy ===== *)
theory Invariant
  imports Ipc Threads
begin

text \<open>
  The kernel invariant and the abstraction to the thread machine. \<open>threads_of\<close> reads the
  thread view off the pools, the wait queues and the scheduler; \<open>state_wf\<close> is the local
  well-formedness of every object; \<open>no_dangling\<close> says that every capability, stored or in
  flight, names an object that exists. The lemmas say what each primitive update of the state
  does to each of the three (\<open>observe\<close>, \<open>wf_rules\<close>).
\<close>

section \<open>The abstraction\<close>

fun send_list :: "endpoint_queue \<Rightarrow> tcb_id list" where
  "send_list (QSend q) = aq_list q"
| "send_list _ = []"

fun recv_list :: "endpoint_queue \<Rightarrow> tcb_id list" where
  "recv_list (QRecv q) = aq_list q"
| "recv_list _ = []"

fun wait_list :: "('b, 'h) kernel_state \<Rightarrow> place \<Rightarrow> tcb_id list" where
  "wait_list s PReady = aq_list (sch_ready (ks_scheduler s))"
| "wait_list s (PSend e) =
     (case pool_get (ks_endpoints s) (endpoint_ix e) of None \<Rightarrow> [] | Some ep \<Rightarrow> send_list (ep_queue ep))"
| "wait_list s (PRecv e) =
     (case pool_get (ks_endpoints s) (endpoint_ix e) of None \<Rightarrow> [] | Some ep \<Rightarrow> recv_list (ep_queue ep))"
| "wait_list s (PWait n) =
     (case pool_get (ks_notifications s) (notification_ix n) of None \<Rightarrow> [] | Some x \<Rightarrow> aq_list (ntfn_waiters x))"

definition threads_of :: "('b, 'h) kernel_state \<Rightarrow> thread_view" where
  "threads_of s =
     \<lparr>tv_state = (\<lambda>t. map_option tcb_state (get_tcb s t)),
      tv_reply = (\<lambda>t. Option.bind (get_tcb s t) tcb_reply_to),
      tv_queue = wait_list s,
      tv_signals = (\<lambda>n. case pool_get (ks_notifications s) (notification_ix n) of
                         None \<Rightarrow> 0 | Some x \<Rightarrow> ntfn_signals x),
      tv_current = current_of s\<rparr>"

lemma threads_of_simps [simp]:
  "tv_state (threads_of s) t = map_option tcb_state (get_tcb s t)"
  "tv_reply (threads_of s) t = Option.bind (get_tcb s t) tcb_reply_to"
  "tv_queue (threads_of s) = wait_list s"
  "tv_current (threads_of s) = current_of s"
  by (simp_all add: threads_of_def)

lemma threads_of_eqI:
  assumes "\<And>t. map_option tcb_state (get_tcb s t) = tv_state v t"
    and "\<And>t. Option.bind (get_tcb s t) tcb_reply_to = tv_reply v t"
    and "\<And>p. wait_list s p = tv_queue v p"
    and "\<And>n. tv_signals (threads_of s) n = tv_signals v n"
    and "current_of s = tv_current v"
  shows "threads_of s = v"
  using assms by (intro thread_view.equality ext) simp_all

section \<open>Well-formed objects\<close>

definition pool_all :: "('a \<Rightarrow> bool) \<Rightarrow> 'a pool \<Rightarrow> bool" where
  "pool_all P p \<longleftrightarrow> (\<forall>i x. pool_get p i = Some x \<longrightarrow> P x)"

definition queue_wf :: "tcb_id array_queue \<Rightarrow> bool" where
  "queue_wf q \<longleftrightarrow> aq_wf MAX_TCBS q"

fun endpoint_queue_wf :: "endpoint_queue \<Rightarrow> bool" where
  "endpoint_queue_wf QEmpty \<longleftrightarrow> True"
| "endpoint_queue_wf (QSend q) \<longleftrightarrow> queue_wf q \<and> aq_list q \<noteq> []"
| "endpoint_queue_wf (QRecv q) \<longleftrightarrow> queue_wf q \<and> aq_list q \<noteq> []"

definition cnode_wf :: "cnode \<Rightarrow> bool" where
  "cnode_wf c \<longleftrightarrow> length (cnode_slots c) = CNODE_SLOTS"

definition frame_wf :: "frame \<Rightarrow> bool" where
  "frame_wf f \<longleftrightarrow> length (fr_mapped_at f) = MAX_FRAME_MAPPINGS
     \<and> 2 ^ frame_size_log (fr_size f) dvd unat (fr_paddr f)"

definition state_wf :: "('b, 'h) kernel_state \<Rightarrow> bool" where
  "state_wf s \<longleftrightarrow>
     pool_wf MAX_CNODES (ks_cnodes s) \<and> pool_all cnode_wf (ks_cnodes s)
   \<and> pool_wf MAX_TCBS (ks_tcbs s) \<and> pool_all (\<lambda>t. ctx_wf (tcb_context t)) (ks_tcbs s)
   \<and> pool_wf MAX_ENDPOINTS (ks_endpoints s) \<and> pool_all (\<lambda>e. endpoint_queue_wf (ep_queue e)) (ks_endpoints s)
   \<and> pool_wf MAX_NOTIFICATIONS (ks_notifications s)
   \<and> pool_all (\<lambda>n. queue_wf (ntfn_waiters n)) (ks_notifications s)
   \<and> pool_wf MAX_UNTYPEDS (ks_untypeds s) \<and> pool_all ut_wf (ks_untypeds s)
   \<and> pool_wf MAX_SCHED_CONTEXTS (ks_sched_contexts s)
   \<and> pool_wf MAX_VSPACES (ks_vspaces s)
   \<and> pool_wf MAX_FRAMES (ks_frames s) \<and> pool_all frame_wf (ks_frames s)
   \<and> kpt_wf (ks_page_tables s)
   \<and> queue_wf (sch_ready (ks_scheduler s))"

section \<open>Capabilities and the objects they name\<close>

fun object_exists :: "('b, 'h) kernel_state \<Rightarrow> object_ref \<Rightarrow> bool" where
  "object_exists s (RCNode i) \<longleftrightarrow> pool_get (ks_cnodes s) (cnode_ix i) \<noteq> None"
| "object_exists s (RUntyped i) \<longleftrightarrow> pool_get (ks_untypeds s) (untyped_ix i) \<noteq> None"
| "object_exists s (REndpoint i) \<longleftrightarrow> pool_get (ks_endpoints s) (endpoint_ix i) \<noteq> None"
| "object_exists s (RNotification i) \<longleftrightarrow> pool_get (ks_notifications s) (notification_ix i) \<noteq> None"
| "object_exists s (RTcb i) \<longleftrightarrow> get_tcb s i \<noteq> None"
| "object_exists s (RReply i) \<longleftrightarrow> get_tcb s i \<noteq> None"
| "object_exists s (RSchedContext i) \<longleftrightarrow> pool_get (ks_sched_contexts s) (sched_context_ix i) \<noteq> None"
| "object_exists s (RVSpace i) \<longleftrightarrow> pool_get (ks_vspaces s) (vspace_ix i) \<noteq> None"
| "object_exists s (RFrame i) \<longleftrightarrow> pool_get (ks_frames s) (frame_ix i) \<noteq> None"

definition slot_cap :: "('b, 'h) kernel_state \<Rightarrow> cnode_id \<Rightarrow> cptr \<Rightarrow> capability option" where
  "slot_cap s i j = Option.bind (pool_get (ks_cnodes s) (cnode_ix i)) (\<lambda>c. cnode_get c j)"

definition stored_caps :: "('b, 'h) kernel_state \<Rightarrow> capability set" where
  "stored_caps s = {c. c \<noteq> Null \<and> (\<exists>i j. slot_cap s i j = Some c)}"

definition flight_caps :: "(tcb_id \<Rightarrow> thread_state option) \<Rightarrow> capability set" where
  "flight_caps st = {c. \<exists>t e b k d. st t = Some (BlockedSend e b k (Some c) d)}"

definition caps_of :: "('b, 'h) kernel_state \<Rightarrow> capability set" where
  "caps_of s = stored_caps s \<union> flight_caps (tv_state (threads_of s))"

definition cspaces :: "('b, 'h) kernel_state \<Rightarrow> cnode_id set" where
  "cspaces s = {i. \<exists>t. Option.bind (get_tcb s t) tcb_cspace = Some i}"

definition no_dangling :: "('b, 'h) kernel_state \<Rightarrow> bool" where
  "no_dangling s \<longleftrightarrow> (\<forall>c\<in>caps_of s. \<forall>r. cap_object c = Some r \<longrightarrow> object_exists s r)
     \<and> (\<forall>i\<in>cspaces s. object_exists s (RCNode i))"

definition kernel_inv :: "('b, 'h) kernel_state \<Rightarrow> bool" where
  "kernel_inv s \<longleftrightarrow> state_wf s \<and> threads_ok (threads_of s) \<and> no_dangling s"

section \<open>Which fields the primitives change\<close>

lemma update_tcb_fields [simp]:
  "ks_cnodes (update_tcb s t f) = ks_cnodes s"
  "ks_endpoints (update_tcb s t f) = ks_endpoints s"
  "ks_notifications (update_tcb s t f) = ks_notifications s"
  "ks_untypeds (update_tcb s t f) = ks_untypeds s"
  "ks_sched_contexts (update_tcb s t f) = ks_sched_contexts s"
  "ks_vspaces (update_tcb s t f) = ks_vspaces s"
  "ks_frames (update_tcb s t f) = ks_frames s"
  "ks_page_tables (update_tcb s t f) = ks_page_tables s"
  "ks_scheduler (update_tcb s t f) = ks_scheduler s"
  "ks_hw (update_tcb s t f) = ks_hw s"
  "get_tcb (update_tcb s t f) u = (if t = u then map_option f (get_tcb s u) else get_tcb s u)"
  by (simp_all add: update_tcb_def)

lemma set_current_fields [simp]:
  "ks_cnodes (set_current s c) = ks_cnodes s"
  "ks_tcbs (set_current s c) = ks_tcbs s"
  "ks_endpoints (set_current s c) = ks_endpoints s"
  "ks_notifications (set_current s c) = ks_notifications s"
  "ks_untypeds (set_current s c) = ks_untypeds s"
  "ks_sched_contexts (set_current s c) = ks_sched_contexts s"
  "ks_vspaces (set_current s c) = ks_vspaces s"
  "ks_frames (set_current s c) = ks_frames s"
  "ks_page_tables (set_current s c) = ks_page_tables s"
  "sch_ready (ks_scheduler (set_current s c)) = sch_ready (ks_scheduler s)"
  "current_of (set_current s c) = c"
  "ks_hw (set_current s c) = ks_hw s"
  by (simp_all add: set_current_def)

lemma push_ready_fields [simp]:
  "ks_cnodes (push_ready s t) = ks_cnodes s"
  "ks_tcbs (push_ready s t) = ks_tcbs s"
  "ks_endpoints (push_ready s t) = ks_endpoints s"
  "ks_notifications (push_ready s t) = ks_notifications s"
  "ks_untypeds (push_ready s t) = ks_untypeds s"
  "ks_sched_contexts (push_ready s t) = ks_sched_contexts s"
  "ks_vspaces (push_ready s t) = ks_vspaces s"
  "ks_frames (push_ready s t) = ks_frames s"
  "ks_page_tables (push_ready s t) = ks_page_tables s"
  "sch_ready (ks_scheduler (push_ready s t)) = snd (aq_push_back (sch_ready (ks_scheduler s)) t)"
  "current_of (push_ready s t) = current_of s"
  "ks_hw (push_ready s t) = ks_hw s"
  by (simp_all add: push_ready_def)

lemma set_endpoint_queue_fields [simp]:
  "ks_cnodes (set_endpoint_queue s e q) = ks_cnodes s"
  "ks_tcbs (set_endpoint_queue s e q) = ks_tcbs s"
  "ks_notifications (set_endpoint_queue s e q) = ks_notifications s"
  "ks_untypeds (set_endpoint_queue s e q) = ks_untypeds s"
  "ks_sched_contexts (set_endpoint_queue s e q) = ks_sched_contexts s"
  "ks_vspaces (set_endpoint_queue s e q) = ks_vspaces s"
  "ks_frames (set_endpoint_queue s e q) = ks_frames s"
  "ks_page_tables (set_endpoint_queue s e q) = ks_page_tables s"
  "ks_scheduler (set_endpoint_queue s e q) = ks_scheduler s"
  "ks_hw (set_endpoint_queue s e q) = ks_hw s"
  "pool_get (ks_endpoints (set_endpoint_queue s e q)) i
     = (if endpoint_ix e = i then map_option (\<lambda>ep. ep\<lparr>ep_queue := q\<rparr>) (pool_get (ks_endpoints s) i)
        else pool_get (ks_endpoints s) i)"
  by (simp_all add: set_endpoint_queue_def)

lemma update_notification_fields [simp]:
  "ks_cnodes (update_notification s n f) = ks_cnodes s"
  "ks_tcbs (update_notification s n f) = ks_tcbs s"
  "ks_endpoints (update_notification s n f) = ks_endpoints s"
  "ks_untypeds (update_notification s n f) = ks_untypeds s"
  "ks_sched_contexts (update_notification s n f) = ks_sched_contexts s"
  "ks_vspaces (update_notification s n f) = ks_vspaces s"
  "ks_frames (update_notification s n f) = ks_frames s"
  "ks_page_tables (update_notification s n f) = ks_page_tables s"
  "ks_scheduler (update_notification s n f) = ks_scheduler s"
  "ks_hw (update_notification s n f) = ks_hw s"
  "pool_get (ks_notifications (update_notification s n f)) i
     = (if notification_ix n = i then map_option f (pool_get (ks_notifications s) i)
        else pool_get (ks_notifications s) i)"
  by (simp_all add: update_notification_def)

text \<open>The composite primitives are made of these.\<close>

lemmas composite_defs = set_thread_state_def deliver_payload_def

section \<open>What the primitives do to the thread view\<close>

lemma wait_list_cong:
  assumes "ks_endpoints s' = ks_endpoints s" and "ks_notifications s' = ks_notifications s"
    and "sch_ready (ks_scheduler s') = sch_ready (ks_scheduler s)"
  shows "wait_list s' = wait_list s"
proof
  fix p show "wait_list s' p = wait_list s p" by (cases p) (simp_all add: assms)
qed

lemma threads_of_cong:
  assumes "ks_tcbs s' = ks_tcbs s" and "ks_endpoints s' = ks_endpoints s"
    and "ks_notifications s' = ks_notifications s" and "ks_scheduler s' = ks_scheduler s"
  shows "threads_of s' = threads_of s"
  using wait_list_cong [of s' s] assms by (simp add: threads_of_def)

lemma threads_of_other_fields [observe]:
  "threads_of (s\<lparr>ks_cnodes := a\<rparr>) = threads_of s"
  "threads_of (s\<lparr>ks_untypeds := b\<rparr>) = threads_of s"
  "threads_of (s\<lparr>ks_sched_contexts := c\<rparr>) = threads_of s"
  "threads_of (s\<lparr>ks_vspaces := d\<rparr>) = threads_of s"
  "threads_of (s\<lparr>ks_frames := e\<rparr>) = threads_of s"
  "threads_of (s\<lparr>ks_page_tables := f\<rparr>) = threads_of s"
  "threads_of (s\<lparr>ks_hw := g\<rparr>) = threads_of s"
  by (rule threads_of_cong; simp)+

lemma wait_list_update_tcb [simp]: "wait_list (update_tcb s t f) p = wait_list s p"
  by (cases p) simp_all

lemma wait_list_set_current [simp]: "wait_list (set_current s c) p = wait_list s p"
  by (cases p) simp_all

lemma signals_cong:
  "ks_notifications s' = ks_notifications s \<Longrightarrow> tv_signals (threads_of s') n = tv_signals (threads_of s) n"
  by (simp add: threads_of_def)

lemma threads_of_update_tcb [observe]:
  assumes "\<And>x. tcb_state (f x) = tcb_state x" and "\<And>x. tcb_reply_to (f x) = tcb_reply_to x"
  shows "threads_of (update_tcb s t f) = threads_of s"
proof (rule threads_of_eqI)
  fix u
  show "map_option tcb_state (get_tcb (update_tcb s t f) u) = tv_state (threads_of s) u"
    by (cases "get_tcb s u") (simp_all add: assms(1))
  show "Option.bind (get_tcb (update_tcb s t f) u) tcb_reply_to = tv_reply (threads_of s) u"
    by (cases "get_tcb s u") (simp_all add: assms(2))
qed (simp_all add: signals_cong [of "update_tcb s t f" s])

lemma threads_of_set_state [observe]:
  assumes "get_tcb s t \<noteq> None"
  shows "threads_of (set_thread_state s t x) = (threads_of s)\<lparr>tv_state := (tv_state (threads_of s))(t \<mapsto> x)\<rparr>"
proof (rule threads_of_eqI)
  fix u
  show "map_option tcb_state (get_tcb (set_thread_state s t x) u)
      = tv_state ((threads_of s)\<lparr>tv_state := (tv_state (threads_of s))(t \<mapsto> x)\<rparr>) u"
    using assms by (cases "get_tcb s u") (auto simp: set_thread_state_def)
  show "Option.bind (get_tcb (set_thread_state s t x) u) tcb_reply_to
      = tv_reply ((threads_of s)\<lparr>tv_state := (tv_state (threads_of s))(t \<mapsto> x)\<rparr>) u"
    by (cases "get_tcb s u") (auto simp: set_thread_state_def)
qed (simp_all add: set_thread_state_def signals_cong [of "update_tcb s t f" s for f])

lemma threads_of_set_reply [observe]:
  assumes "get_tcb s t \<noteq> None"
  shows "threads_of (update_tcb s t (\<lambda>tcb. tcb\<lparr>tcb_reply_to := r\<rparr>))
       = (threads_of s)\<lparr>tv_reply := (tv_reply (threads_of s))(t := r)\<rparr>"
proof (rule threads_of_eqI)
  fix u
  show "map_option tcb_state (get_tcb (update_tcb s t (\<lambda>tcb. tcb\<lparr>tcb_reply_to := r\<rparr>)) u)
      = tv_state ((threads_of s)\<lparr>tv_reply := (tv_reply (threads_of s))(t := r)\<rparr>) u"
    by (cases "get_tcb s u") auto
  show "Option.bind (get_tcb (update_tcb s t (\<lambda>tcb. tcb\<lparr>tcb_reply_to := r\<rparr>)) u) tcb_reply_to
      = tv_reply ((threads_of s)\<lparr>tv_reply := (tv_reply (threads_of s))(t := r)\<rparr>) u"
    using assms by (cases "get_tcb s u") auto
qed (simp_all add: signals_cong [of "update_tcb s t f" s for f])

lemma threads_of_set_current [observe]:
  "threads_of (set_current s c) = (threads_of s)\<lparr>tv_current := c\<rparr>"
  by (rule threads_of_eqI) (simp_all add: signals_cong [of "set_current s c" s])

lemma threads_of_push_ready [observe]:
  assumes "queue_wf (sch_ready (ks_scheduler s))" and "length (wait_list s PReady) < MAX_TCBS"
  shows "threads_of (push_ready s t)
       = (threads_of s)\<lparr>tv_queue := (wait_list s)(PReady := wait_list s PReady @ [t])\<rparr>"
proof -
  have "wait_list (push_ready s t) p = ((wait_list s)(PReady := wait_list s PReady @ [t])) p" for p
    using assms by (cases p) (simp_all add: queue_wf_def aq.elems_push)
  then show ?thesis by (simp add: threads_of_def fun_eq_iff)
qed

lemma threads_of_ready_queue [observe]:
  "threads_of (s\<lparr>ks_scheduler := (ks_scheduler s)\<lparr>sch_ready := q\<rparr>\<rparr>)
     = (threads_of s)\<lparr>tv_queue := (wait_list s)(PReady := aq_list q)\<rparr>"
proof -
  have "wait_list (s\<lparr>ks_scheduler := (ks_scheduler s)\<lparr>sch_ready := q\<rparr>\<rparr>) p
      = ((wait_list s)(PReady := aq_list q)) p" for p
    by (cases p) simp_all
  then show ?thesis by (simp add: threads_of_def fun_eq_iff)
qed

lemma threads_of_endpoint [observe]:
  assumes "pool_get (ks_endpoints s) (endpoint_ix e) \<noteq> None"
  shows "threads_of (set_endpoint_queue s e q)
       = (threads_of s)\<lparr>tv_queue := (wait_list s)(PSend e := send_list q, PRecv e := recv_list q)\<rparr>"
proof -
  have "wait_list (set_endpoint_queue s e q) p
      = ((wait_list s)(PSend e := send_list q, PRecv e := recv_list q)) p" for p
    using assms by (cases p) auto
  then show ?thesis by (simp add: threads_of_def fun_eq_iff)
qed

lemma threads_of_notification [observe]:
  assumes "pool_get (ks_notifications s) (notification_ix n) = Some x"
  shows "threads_of (update_notification s n f)
       = (threads_of s)\<lparr>tv_queue := (wait_list s)(PWait n := aq_list (ntfn_waiters (f x))),
                        tv_signals := (tv_signals (threads_of s))(n := ntfn_signals (f x))\<rparr>"
proof -
  have "wait_list (update_notification s n f) p
      = ((wait_list s)(PWait n := aq_list (ntfn_waiters (f x)))) p" for p
    using assms by (cases p) auto
  with assms show ?thesis by (auto simp: threads_of_def fun_eq_iff)
qed

lemma signals_get [simp]:
  "pool_get (ks_notifications s) (notification_ix n) = Some x \<Longrightarrow> tv_signals (threads_of s) n = ntfn_signals x"
  by (simp add: threads_of_def)

section \<open>Well-formedness under the primitives\<close>

lemma pool_all_modify:
  "pool_all P p \<Longrightarrow> (\<And>x. pool_get p i = Some x \<Longrightarrow> P x \<Longrightarrow> P (f x)) \<Longrightarrow> pool_all P (pool_modify p i f)"
  by (auto simp: pool_all_def split: if_splits)

lemma pool_all_get: "pool_all P p \<Longrightarrow> pool_get p i = Some x \<Longrightarrow> P x"
  by (simp add: pool_all_def)

lemma pool_all_alloc:
  "pool_wf N p \<Longrightarrow> pool_all P p \<Longrightarrow> pool_alloc p v = Some (i, p') \<Longrightarrow> P v \<Longrightarrow> pool_all P p'"
  using pool_alloc_Some [of N p v i p'] by (auto simp: pool_all_def split: if_splits)

lemma queue_wf_new: "queue_wf (aq_new MAX_TCBS)"
  by (simp add: queue_wf_def aq.invar_empty)

lemma queue_wf_push: "queue_wf q \<Longrightarrow> queue_wf (snd (aq_push_back q x))"
  by (simp add: queue_wf_def aq.invar_push)

lemma queue_wf_pop: "queue_wf q \<Longrightarrow> queue_wf (snd (aq_pop_front q))"
  by (simp add: queue_wf_def aq.invar_pop)

lemma queue_wf_remove: "queue_wf q \<Longrightarrow> queue_wf (snd (aq_remove q x))"
  by (simp add: queue_wf_def aq.invar_remove)

lemma wf_update_tcb [wf_rules]:
  "state_wf s \<Longrightarrow> (\<And>x. ctx_wf (tcb_context x) \<Longrightarrow> ctx_wf (tcb_context (f x))) \<Longrightarrow> state_wf (update_tcb s t f)"
  by (auto simp: state_wf_def update_tcb_def pool_wf_modify intro: pool_all_modify)

lemma wf_set_thread_state [wf_rules]: "state_wf s \<Longrightarrow> state_wf (set_thread_state s t x)"
  by (simp add: set_thread_state_def wf_update_tcb)

lemma wf_deliver [wf_rules]: "state_wf s \<Longrightarrow> state_wf (deliver_payload s t b m1 m2 m3 tg)"
  by (simp add: deliver_payload_def wf_update_tcb)

lemma wf_set_current [wf_rules]: "state_wf s \<Longrightarrow> state_wf (set_current s c)"
  by (simp add: state_wf_def)

lemma wf_push_ready [wf_rules]: "state_wf s \<Longrightarrow> state_wf (push_ready s t)"
  by (simp add: state_wf_def queue_wf_push)

lemma wf_ready_queue [wf_rules]:
  "state_wf s \<Longrightarrow> queue_wf q \<Longrightarrow> state_wf (s\<lparr>ks_scheduler := (ks_scheduler s)\<lparr>sch_ready := q\<rparr>\<rparr>)"
  by (simp add: state_wf_def)

lemma wf_set_endpoint_queue [wf_rules]:
  "state_wf s \<Longrightarrow> endpoint_queue_wf q \<Longrightarrow> state_wf (set_endpoint_queue s e q)"
  by (auto simp: state_wf_def set_endpoint_queue_def pool_wf_modify intro: pool_all_modify)

lemma wf_update_notification [wf_rules]:
  "state_wf s \<Longrightarrow> (\<And>x. queue_wf (ntfn_waiters x) \<Longrightarrow> queue_wf (ntfn_waiters (f x)))
    \<Longrightarrow> state_wf (update_notification s n f)"
  by (auto simp: state_wf_def update_notification_def pool_wf_modify intro: pool_all_modify)

lemma cnode_wf_put [simp]: "cnode_wf (cnode_put c i cap) = cnode_wf c"
  by (simp add: cnode_wf_def cnode_put_def)

lemma wf_cnode_put [wf_rules]:
  "state_wf s \<Longrightarrow> state_wf (s\<lparr>ks_cnodes := pool_modify (ks_cnodes s) i (\<lambda>c. cnode_put c j cap)\<rparr>)"
  by (auto simp: state_wf_def pool_wf_modify intro: pool_all_modify)

lemma wf_hw [wf_rules]: "state_wf s \<Longrightarrow> state_wf (s\<lparr>ks_hw := h\<rparr>)"
  by (simp add: state_wf_def)

text \<open>What a well-formed state gives for the objects in it.\<close>

lemma wf_objects:
  assumes "state_wf s"
  shows "pool_get (ks_endpoints s) i = Some ep \<Longrightarrow> endpoint_queue_wf (ep_queue ep)"
    and "pool_get (ks_notifications s) i = Some nt \<Longrightarrow> queue_wf (ntfn_waiters nt)"
    and "pool_get (ks_tcbs s) i = Some th \<Longrightarrow> ctx_wf (tcb_context th)"
    and "pool_get (ks_untypeds s) i = Some u \<Longrightarrow> ut_wf u"
    and "pool_get (ks_frames s) i = Some f \<Longrightarrow> frame_wf f"
    and "pool_get (ks_cnodes s) i = Some c \<Longrightarrow> cnode_wf c"
    and "queue_wf (sch_ready (ks_scheduler s))"
  using assms by (auto simp: state_wf_def dest: pool_all_get)

text \<open>There are at most \<open>MAX_TCBS\<close> threads, so a distinct queue that misses one has room for it.\<close>

lemma finite_threads:
  assumes "state_wf s"
  shows "finite {t. get_tcb s t \<noteq> None} \<and> card {t. get_tcb s t \<noteq> None} \<le> MAX_TCBS"
proof -
  have "pool_wf MAX_TCBS (ks_tcbs s)" using assms by (simp add: state_wf_def)
  from pool.finite_dom [OF this]
  have fin: "finite (dom (pool_get (ks_tcbs s)))" "card (dom (pool_get (ks_tcbs s))) \<le> MAX_TCBS" by auto
  have inj: "inj_on tcb_ix {t. get_tcb s t \<noteq> None}" by (auto intro: inj_onI)
  have sub: "tcb_ix ` {t. get_tcb s t \<noteq> None} \<subseteq> dom (pool_get (ks_tcbs s))" by auto
  from finite_imageD [OF finite_subset [OF sub fin(1)] inj] card_inj_on_le [OF inj sub fin(1)] fin(2)
  show ?thesis by simp
qed

lemma queue_room:
  assumes wf: "state_wf s" and ok: "queued_once (threads_of s)"
    and q: "queue_wf q" "aq_list q = wait_list s p \<or> aq_list q = []"
    and t: "get_tcb s t \<noteq> None" "t \<notin> set (wait_list s p)"
  shows "length (aq_list q) < MAX_TCBS"
proof -
  have d: "distinct (aq_list q)" using ok q(2) by (auto simp: queued_once_def)
  have sub: "set (aq_list q) \<subseteq> {t. get_tcb s t \<noteq> None}"
    using ok q(2) by (fastforce simp: queued_once_def bind_eq_Some_conv)
  have mem: "t \<in> {t. get_tcb s t \<noteq> None}" "t \<notin> set (aq_list q)" using t q(2) by auto
  show ?thesis
    using aq.room_for [OF q(1) [unfolded queue_wf_def] d sub mem] finite_threads [OF wf] by simp
qed

lemma ready_room:
  assumes wf: "state_wf s" and ok: "queued_once (threads_of s)"
    and t: "get_tcb s t = Some x" "tcb_state x \<noteq> Ready"
  shows "length (wait_list s PReady) < MAX_TCBS"
proof -
  have "t \<notin> set (wait_list s PReady)"
    using not_queued [OF ok refl, of t PReady] t by simp
  with queue_room [OF wf ok wf_objects(7) [OF wf], of PReady t] t show ?thesis by simp
qed

section \<open>Authority\<close>

text \<open>
  \<open>quiet s s'\<close>: nothing was created; every capability of \<open>s'\<close> is one of \<open>s\<close>.
  \<open>authority_step\<close> is the general case: a capability is derived from one of \<open>s\<close> by
  attenuation, or names an object that \<open>s\<close> did not have.
\<close>

definition quiet :: "('b, 'h) kernel_state \<Rightarrow> ('b, 'h) kernel_state \<Rightarrow> bool" where
  "quiet s s' \<longleftrightarrow> caps_of s' \<subseteq> caps_of s \<and> cspaces s' \<subseteq> cspaces s
     \<and> (\<forall>r. object_exists s' r = object_exists s r)"

definition derived :: "('b, 'h) kernel_state \<Rightarrow> ('b, 'h) kernel_state \<Rightarrow> capability \<Rightarrow> bool" where
  "derived s s' c \<longleftrightarrow> (\<exists>c0\<in>caps_of s. cap_le c c0)
     \<or> (\<exists>r. cap_object c = Some r \<and> \<not> object_exists s r \<and> object_exists s' r)"

definition authority_step :: "('b, 'h) kernel_state \<Rightarrow> ('b, 'h) kernel_state \<Rightarrow> bool" where
  "authority_step s s' \<longleftrightarrow> (\<forall>c\<in>caps_of s'. derived s s' c)
     \<and> (\<forall>i\<in>cspaces s'. i \<in> cspaces s \<or> CNodeCap i \<in> caps_of s)
     \<and> (\<forall>r. object_exists s r \<longrightarrow> object_exists s' r)"

lemma quiet_refl [simp]: "quiet s s"
  by (simp add: quiet_def)

lemma quiet_authority: "quiet s s' \<Longrightarrow> authority_step s s'"
  by (auto simp: quiet_def authority_step_def derived_def)

lemma no_dangling_step:
  assumes "authority_step s s'" and "no_dangling s"
  shows "no_dangling s'"
proof -
  have cap: "object_exists s' r" if "c \<in> caps_of s'" "cap_object c = Some r" for c r
    using assms that by (auto simp: authority_step_def derived_def no_dangling_def cap_le_def)
  have "object_exists s' (RCNode i)" if "i \<in> cspaces s'" for i
  proof -
    from assms(1) that consider "i \<in> cspaces s" | "CNodeCap i \<in> caps_of s"
      by (auto simp: authority_step_def)
    then have "object_exists s (RCNode i)"
      using assms(2) by cases (force simp: no_dangling_def)+
    with assms(1) show ?thesis by (simp add: authority_step_def del: object_exists.simps)
  qed
  with cap show ?thesis by (simp add: no_dangling_def)
qed

named_theorems quiet_rules "updates that create no authority"

lemma stored_caps_cong: "ks_cnodes s' = ks_cnodes s \<Longrightarrow> stored_caps s' = stored_caps s"
  by (simp add: stored_caps_def slot_cap_def)

lemma caps_of_cong:
  "ks_cnodes s' = ks_cnodes s \<Longrightarrow> tv_state (threads_of s') = tv_state (threads_of s)
    \<Longrightarrow> caps_of s' = caps_of s"
  by (simp add: caps_of_def stored_caps_cong [of s' s])

lemma object_exists_cong:
  assumes "ks_cnodes s' = ks_cnodes s" and "ks_untypeds s' = ks_untypeds s"
    and "ks_sched_contexts s' = ks_sched_contexts s" and "ks_vspaces s' = ks_vspaces s"
    and "ks_frames s' = ks_frames s"
    and "\<And>t. (get_tcb s' t = None) = (get_tcb s t = None)"
    and "\<And>e. (pool_get (ks_endpoints s') (endpoint_ix e) = None) = (pool_get (ks_endpoints s) (endpoint_ix e) = None)"
    and "\<And>n. (pool_get (ks_notifications s') (notification_ix n) = None) = (pool_get (ks_notifications s) (notification_ix n) = None)"
  shows "object_exists s' r = object_exists s r"
  by (cases r) (simp_all only: object_exists.simps assms not_False_eq_True)

lemma object_exists_prims [simp]:
  "object_exists (update_tcb s t f) r = object_exists s r"
  "object_exists (set_current s c) r = object_exists s r"
  "object_exists (push_ready s t) r = object_exists s r"
  "object_exists (set_endpoint_queue s e q) r = object_exists s r"
  "object_exists (update_notification s n g) r = object_exists s r"
  "object_exists (s\<lparr>ks_scheduler := x\<rparr>) r = object_exists s r"
  "object_exists (s\<lparr>ks_hw := h\<rparr>) r = object_exists s r"
  "object_exists (s\<lparr>ks_page_tables := k\<rparr>) r = object_exists s r"
  by (rule object_exists_cong; simp)+

lemma cspaces_cong: "ks_tcbs s' = ks_tcbs s \<Longrightarrow> cspaces s' = cspaces s"
  by (simp add: cspaces_def)

lemma cspaces_update_tcb:
  "(\<And>x. tcb_cspace (f x) = tcb_cspace x) \<Longrightarrow> cspaces (update_tcb s t f) = cspaces s"
proof -
  assume *: "\<And>x. tcb_cspace (f x) = tcb_cspace x"
  have "Option.bind (get_tcb (update_tcb s t f) u) tcb_cspace = Option.bind (get_tcb s u) tcb_cspace" for u
    by (cases "get_tcb s u") (simp_all add: *)
  then show ?thesis by (simp only: cspaces_def)
qed

lemma quiet_update_tcb [quiet_rules]:
  assumes "quiet s0 s" and "\<And>x. tcb_state (f x) = tcb_state x"
    and "\<And>x. tcb_cspace (f x) = tcb_cspace x"
  shows "quiet s0 (update_tcb s t f)"
proof -
  have "tv_state (threads_of (update_tcb s t f)) = tv_state (threads_of s)"
    by (rule ext) (auto simp: option.map_comp o_def assms(2))
  from caps_of_cong [OF _ this] cspaces_update_tcb [of f s t, OF assms(3)] assms(1)
  show ?thesis by (simp add: quiet_def)
qed

lemma quiet_set_state [quiet_rules]:
  assumes "quiet s0 s"
    and "\<And>e b k c d. x = BlockedSend e b k (Some c) d \<Longrightarrow> c \<in> caps_of s0"
  shows "quiet s0 (set_thread_state s t x)"
proof -
  have "flight_caps (tv_state (threads_of (set_thread_state s t x)))
      \<subseteq> flight_caps (tv_state (threads_of s)) \<union> caps_of s0"
  proof
    fix c assume "c \<in> flight_caps (tv_state (threads_of (set_thread_state s t x)))"
    then obtain u e b k d where
      u: "tv_state (threads_of (set_thread_state s t x)) u = Some (BlockedSend e b k (Some c) d)"
      unfolding flight_caps_def by blast
    then show "c \<in> flight_caps (tv_state (threads_of s)) \<union> caps_of s0"
      using assms(2) by (auto simp: set_thread_state_def flight_caps_def split: if_splits) blast
  qed
  then have "caps_of (set_thread_state s t x) \<subseteq> caps_of s0"
    using assms(1) stored_caps_cong [of "set_thread_state s t x" s]
    by (auto simp: caps_of_def quiet_def set_thread_state_def)
  with assms(1) show ?thesis
    by (simp add: quiet_def set_thread_state_def cspaces_update_tcb)
qed

lemma quiet_cong [quiet_rules]:
  "quiet s0 s \<Longrightarrow> quiet s0 (set_current s c)"
  "quiet s0 s \<Longrightarrow> quiet s0 (push_ready s t)"
  "quiet s0 s \<Longrightarrow> quiet s0 (set_endpoint_queue s e q)"
  "quiet s0 s \<Longrightarrow> quiet s0 (update_notification s n f)"
  "quiet s0 s \<Longrightarrow> quiet s0 (s\<lparr>ks_scheduler := x\<rparr>)"
  "quiet s0 s \<Longrightarrow> quiet s0 (s\<lparr>ks_hw := h\<rparr>)"
  "quiet s0 s \<Longrightarrow> quiet s0 (s\<lparr>ks_page_tables := k\<rparr>)"
  by (simp_all add: quiet_def caps_of_def flight_caps_def cspaces_def stored_caps_def slot_cap_def)

lemma quiet_deliver [quiet_rules]: "quiet s0 s \<Longrightarrow> quiet s0 (deliver_payload s t b m1 m2 m3 tg)"
  by (simp add: deliver_payload_def quiet_update_tcb)

lemma slot_cap_put:
  "slot_cap (s\<lparr>ks_cnodes := pool_modify (ks_cnodes s) (cnode_ix i) (\<lambda>c. cnode_put c j cap)\<rparr>) i' j'
     = (if i = i' \<and> j = j' \<and> slot_cap s i j \<noteq> None then Some cap else slot_cap s i' j')"
  by (auto simp: slot_cap_def cnode_get_put split: bind_splits)

lemma quiet_cnode_put [quiet_rules]:
  assumes "quiet s0 s" and "cap \<in> caps_of s0 \<or> cap = Null"
  shows "quiet s0 (s\<lparr>ks_cnodes := pool_modify (ks_cnodes s) (cnode_ix i) (\<lambda>c. cnode_put c j cap)\<rparr>)"
    (is "quiet s0 ?s'")
proof -
  have "stored_caps ?s' \<subseteq> stored_caps s \<union> caps_of s0"
    using assms(2) by (auto simp: stored_caps_def slot_cap_put split: if_splits)
  then have "caps_of ?s' \<subseteq> caps_of s0"
    using assms(1) by (auto simp: quiet_def caps_of_def observe)
  moreover have "object_exists ?s' r = object_exists s r" for r
    by (cases r) simp_all
  ultimately show ?thesis using assms(1) cspaces_cong [of ?s' s] by (simp add: quiet_def)
qed

lemma lookup_cap_Inr:
  assumes "lookup_cap s t p = Inr c"
  obtains i where "Option.bind (get_tcb s t) tcb_cspace = Some i" and "slot_cap s i p = Some c" and "c \<noteq> Null"
  using assms by (auto simp: lookup_cap_def slot_cap_def split: option.splits if_splits)

lemma lookup_cap_mem: "lookup_cap s t p = Inr c \<Longrightarrow> c \<in> caps_of s"
  by (erule lookup_cap_Inr) (auto simp: caps_of_def stored_caps_def)

end
