(* ===== verification/Scheduling.thy ===== *)
theory Scheduling
  imports Invariant
begin

text \<open>
  The switching primitives of \<open>src/state.rs\<close> against the thread machine: what
  \<open>save_current\<close>, \<open>make_ready\<close>, \<open>resume\<close>, \<open>switch_to\<close> and \<open>block_current\<close> do to the view,
  to well-formedness and to authority, and when they succeed.
\<close>

section \<open>Saving\<close>

lemma save_current_fields [simp]:
  "ks_cnodes (save_current H s f) = ks_cnodes s"
  "ks_endpoints (save_current H s f) = ks_endpoints s"
  "ks_notifications (save_current H s f) = ks_notifications s"
  "ks_scheduler (save_current H s f) = ks_scheduler s"
  "ks_hw (save_current H s f) = ks_hw s"
  by (simp_all add: save_current_def split: option.split)

lemma get_tcb_save_current:
  "get_tcb (save_current H s f) t
     = (if current_of s = Some t then map_option (\<lambda>x. x\<lparr>tcb_context := save_from H f\<rparr>) (get_tcb s t)
        else get_tcb s t)"
  by (auto simp: save_current_def split: option.split)

lemma threads_of_save_current [observe]: "threads_of (save_current H s f) = threads_of s"
  by (simp add: save_current_def observe split: option.split)

lemma wf_save_current [wf_rules]: "frame_laws H \<Longrightarrow> state_wf s \<Longrightarrow> state_wf (save_current H s f)"
  by (auto simp: save_current_def ctx_wf_save intro: wf_update_tcb split: option.split)

lemma quiet_save_current [quiet_rules]: "quiet s0 s \<Longrightarrow> quiet s0 (save_current H s f)"
  by (simp add: save_current_def quiet_update_tcb split: option.split)

section \<open>Waking\<close>

lemma make_ready_state:
  "get_tcb s t = Some x \<Longrightarrow> tcb_state x \<noteq> Ready \<Longrightarrow> make_ready s t = push_ready (set_thread_state s t Ready) t"
  by (simp add: make_ready_def)

lemma set_thread_state_fields [simp]:
  "ks_scheduler (set_thread_state s t x) = ks_scheduler s"
  "ks_endpoints (set_thread_state s t x) = ks_endpoints s"
  "ks_notifications (set_thread_state s t x) = ks_notifications s"
  "ks_cnodes (set_thread_state s t x) = ks_cnodes s"
  "ks_hw (set_thread_state s t x) = ks_hw s"
  "wait_list (set_thread_state s t x) p = wait_list s p"
  "get_tcb (set_thread_state s t x) u
     = (if t = u then map_option (\<lambda>y. y\<lparr>tcb_state := x\<rparr>) (get_tcb s u) else get_tcb s u)"
  by (simp_all add: set_thread_state_def)

lemma threads_of_make_ready [observe]:
  assumes "get_tcb s t = Some x" and "tcb_state x \<noteq> Ready"
    and "queue_wf (sch_ready (ks_scheduler s))" and "length (wait_list s PReady) < MAX_TCBS"
  shows "threads_of (make_ready s t)
       = (threads_of s)\<lparr>tv_state := (tv_state (threads_of s))(t \<mapsto> Ready),
                        tv_queue := (wait_list s)(PReady := wait_list s PReady @ [t])\<rparr>"
proof -
  have "wait_list (set_thread_state s t Ready) = wait_list s" by (rule ext) simp
  with assms show ?thesis by (simp add: make_ready_state observe)
qed

lemma wf_make_ready [wf_rules]: "state_wf s \<Longrightarrow> state_wf (make_ready s t)"
  by (simp add: make_ready_def wf_rules split: option.split)

lemma quiet_make_ready [quiet_rules]: "quiet s0 s \<Longrightarrow> quiet s0 (make_ready s t)"
  by (auto simp: make_ready_def intro!: quiet_rules split: option.split)

section \<open>Resuming\<close>

lemma resume_Some:
  "get_tcb s n = Some x \<Longrightarrow> resume H s f n
     = (set_current ((set_thread_state s n Running)\<lparr>ks_hw := activate_if_paged H x (ks_hw s)\<rparr>) (Some n),
        restore_into H (tcb_context x) f)"
  by (simp add: resume_def Let_def)

lemma threads_of_resume [observe]:
  assumes "get_tcb s n \<noteq> None"
  shows "threads_of (fst (resume H s f n))
       = (threads_of s)\<lparr>tv_state := (tv_state (threads_of s))(n \<mapsto> Running), tv_current := Some n\<rparr>"
  using assms by (auto simp: resume_Some observe)

lemma wf_resume [wf_rules]: "state_wf s \<Longrightarrow> state_wf (fst (resume H s f n))"
  by (simp add: resume_def Let_def wf_rules split: option.split)

lemma quiet_resume [quiet_rules]: "quiet s0 s \<Longrightarrow> quiet s0 (fst (resume H s f n))"
  by (auto simp: resume_def Let_def intro!: quiet_rules split: option.split)

lemma threads_of_switch_to [observe]:
  assumes "get_tcb s n \<noteq> None"
  shows "threads_of (fst (switch_to H s f n))
       = (threads_of s)\<lparr>tv_state := (tv_state (threads_of s))(n \<mapsto> Running), tv_current := Some n\<rparr>"
  using assms by (simp add: switch_to_def observe get_tcb_save_current)

lemma wf_switch_to [wf_rules]: "frame_laws H \<Longrightarrow> state_wf s \<Longrightarrow> state_wf (fst (switch_to H s f n))"
  by (simp add: switch_to_def wf_rules)

lemma quiet_switch_to [quiet_rules]: "quiet s0 s \<Longrightarrow> quiet s0 (fst (switch_to H s f n))"
  by (simp add: switch_to_def quiet_rules)

section \<open>Blocking\<close>

lemma has_ready_iff: "queue_wf (sch_ready (ks_scheduler s)) \<Longrightarrow> has_ready s \<longleftrightarrow> wait_list s PReady \<noteq> []"
  by (simp add: sch_has_ready_def queue_wf_def aq.is_empty_elems)

definition pop_ready :: "('b, 'h) kernel_state \<Rightarrow> ('b, 'h) kernel_state" where
  "pop_ready s = s\<lparr>ks_scheduler := (ks_scheduler s)
     \<lparr>sch_ready := snd (aq_pop_front (sch_ready (ks_scheduler s)))\<rparr>\<rparr>"

lemma block_current_run:
  assumes q: "queue_wf (sch_ready (ks_scheduler s))" and head: "wait_list s PReady = n # ns"
  shows "block_current H s f = Some (True, resume H (pop_ready (set_current (save_current H s f) None)) f n)"
proof -
  have "has_ready s" using assms by (simp add: has_ready_iff)
  moreover have "fst (aq_pop_front (sch_ready (ks_scheduler s))) = Some n"
    using aq.pop_Cons [of "sch_ready (ks_scheduler s)" n ns] assms by (simp add: queue_wf_def)
  ultimately show ?thesis
    by (cases "aq_pop_front (sch_ready (ks_scheduler s))")
       (simp add: block_current_def pop_ready_def Let_def)
qed

lemma wf_pop_ready [wf_rules]: "state_wf s \<Longrightarrow> state_wf (pop_ready s)"
  by (simp add: pop_ready_def wf_rules queue_wf_pop wf_objects)

lemma quiet_pop_ready [quiet_rules]: "quiet s0 s \<Longrightarrow> quiet s0 (pop_ready s)"
  by (simp add: pop_ready_def quiet_rules)

lemma threads_of_pop_ready [observe]:
  assumes "queue_wf (sch_ready (ks_scheduler s))"
  shows "threads_of (pop_ready s) = (threads_of s)\<lparr>tv_queue := (wait_list s)(PReady := tl (wait_list s PReady))\<rparr>"
  using assms by (simp add: pop_ready_def observe queue_wf_def aq.elems_pop)

lemma get_tcb_pop_ready [simp]: "get_tcb (pop_ready s) t = get_tcb s t"
  by (simp add: pop_ready_def)

text \<open>The whole blocking step, when a thread is ready.\<close>

lemma block_current_effect:
  assumes laws: "frame_laws H" and wf: "state_wf s" and head: "wait_list s PReady = n # ns"
    and ex: "get_tcb s n \<noteq> None"
  obtains s' f' where "block_current H s f = Some (True, s', f')" and "state_wf s'"
    and "threads_of s' = (threads_of s)\<lparr>tv_state := (tv_state (threads_of s))(n \<mapsto> Running),
           tv_queue := (wait_list s)(PReady := ns), tv_current := Some n\<rparr>"
    and "\<And>s0. quiet s0 s \<Longrightarrow> quiet s0 s'"
proof -
  let ?p = "pop_ready (set_current (save_current H s f) None)"
  have q: "queue_wf (sch_ready (ks_scheduler s))" using wf by (rule wf_objects)
  obtain s' f' where r: "resume H ?p f n = (s', f')" by (cases "resume H ?p f n")
  have list: "wait_list (set_current (save_current H s f) None) = wait_list s"
    using threads_of_save_current [of H s f] by (metis threads_of_simps(3) wait_list_set_current ext)
  have "get_tcb ?p n \<noteq> None" using ex by (simp add: get_tcb_save_current)
  from threads_of_resume [OF this, of H f] r head q
  have "threads_of s' = (threads_of s)\<lparr>tv_state := (tv_state (threads_of s))(n \<mapsto> Running),
           tv_queue := (wait_list s)(PReady := ns), tv_current := Some n\<rparr>"
    by (simp add: observe list)
  moreover have "state_wf s'"
    using wf_resume [of ?p H f n] r laws wf by (simp add: wf_rules)
  moreover have "quiet s0 s'" if "quiet s0 s" for s0
    using quiet_resume [of s0 ?p H f n] r that by (simp add: quiet_rules)
  ultimately show ?thesis
    using that block_current_run [OF q head, of H f] r by simp
qed

lemma block_current_False:
  "queue_wf (sch_ready (ks_scheduler s)) \<Longrightarrow> wait_list s PReady = [] \<Longrightarrow> block_current H s f = Some (False, s, f)"
  by (simp add: block_current_def has_ready_iff)

end
