(* ===== verification/IpcCorrect.thy ===== *)
theory IpcCorrect
  imports Scheduling
begin

text \<open>
  Every IPC handler is sound: from a state with the invariant it does not panic, takes one
  step of the thread machine, keeps every object well-formed and creates no authority; on an
  error it leaves the state and the registers as they were.
\<close>

section \<open>Soundness of an outcome\<close>

definition sound ::
  "tcb_id \<Rightarrow> ('b, 'h) kernel_state \<Rightarrow> 'f \<Rightarrow> (('b, 'h) kernel_state, 'f) outcome \<Rightarrow> bool" where
  "sound c s f r \<longleftrightarrow>
     (case r of
        Ok s' f' \<Rightarrow> state_wf s' \<and> tstep c (threads_of s) (threads_of s') \<and> authority_step s s'
      | Err e s' f' \<Rightarrow> state_wf s' \<and> threads_of s' = threads_of s \<and> quiet s s' \<and> f' = f
      | Panic \<Rightarrow> False)"

text \<open>An outcome that is an error leaves everything alone.\<close>

definition atomic :: "('b, 'h) kernel_state \<Rightarrow> 'f \<Rightarrow> (('b, 'h) kernel_state, 'f) outcome \<Rightarrow> bool" where
  "atomic s f r \<longleftrightarrow> (case r of Err e s' f' \<Rightarrow> s' = s \<and> f' = f | _ \<Rightarrow> True)"

text \<open>What an outcome says when it is a success.\<close>

definition on_ok :: "('s \<Rightarrow> 'f \<Rightarrow> bool) \<Rightarrow> ('s, 'f) outcome \<Rightarrow> bool" where
  "on_ok Q r \<longleftrightarrow> (case r of Ok s f \<Rightarrow> Q s f | _ \<Rightarrow> True)"

lemma on_ok_simps [simp]: "on_ok Q (Ok s f) = Q s f" "on_ok Q (Err e s f)" "on_ok Q Panic"
  by (simp_all add: on_ok_def)

definition running :: "tcb_id \<Rightarrow> ('b, 'h) kernel_state \<Rightarrow> bool" where
  "running c s \<longleftrightarrow> kernel_inv s \<and> current_of s = Some c"

lemma atomic_simps [simp]:
  "atomic s f (Ok s' f')" "atomic s f Panic" "atomic s f (Err e s' f') \<longleftrightarrow> s' = s \<and> f' = f"
  by (simp_all add: atomic_def)

lemma sound_Ok: "state_wf s' \<Longrightarrow> tstep c (threads_of s) (threads_of s') \<Longrightarrow> authority_step s s' \<Longrightarrow> sound c s f (Ok s' f')"
  by (simp add: sound_def)

lemma sound_Err [simp]: "running c s \<Longrightarrow> sound c s f (Err e s f)"
  by (simp add: sound_def running_def kernel_inv_def)

definition good ::
  "tcb_id \<Rightarrow> ('b, 'h) kernel_state \<Rightarrow> 'f \<Rightarrow> (('b, 'h) kernel_state, 'f) outcome \<Rightarrow> bool" where
  "good c s f r \<longleftrightarrow> sound c s f r \<and> atomic s f r"

lemma good_Err: "running c s \<Longrightarrow> good c s f (Err e s f)"
  by (simp add: good_def)

lemma good_Ok: "good c s f (Ok s' f') \<longleftrightarrow> sound c s f (Ok s' f')"
  by (simp add: good_def)

text \<open>One rule per case distinction of a handler, to take a handler apart branch by branch.\<close>

lemma peel:
  "(\<And>e. r = Inl e \<Longrightarrow> P (A e)) \<Longrightarrow> (\<And>x. r = Inr x \<Longrightarrow> P (B x)) \<Longrightarrow> P (case r of Inl e \<Rightarrow> A e | Inr x \<Rightarrow> B x)"
  "(\<And>a b. p = (a, b) \<Longrightarrow> P (C a b)) \<Longrightarrow> P (case p of (a, b) \<Rightarrow> C a b)"
  "(g \<Longrightarrow> P D) \<Longrightarrow> (\<not> g \<Longrightarrow> P E) \<Longrightarrow> P (if g then D else E)"
  "(m = None \<Longrightarrow> P F) \<Longrightarrow> (\<And>y. m = Some y \<Longrightarrow> P (G y)) \<Longrightarrow> P (case m of None \<Rightarrow> F | Some y \<Rightarrow> G y)"
  "(q = QEmpty \<Longrightarrow> P J) \<Longrightarrow> (\<And>w. q = QSend w \<Longrightarrow> P (K w)) \<Longrightarrow> (\<And>w. q = QRecv w \<Longrightarrow> P (L w))
    \<Longrightarrow> P (case q of QEmpty \<Rightarrow> J | QSend w \<Rightarrow> K w | QRecv w \<Rightarrow> L w)"
  "(\<And>e b k y d. x = BlockedSend e b k y d \<Longrightarrow> P (M e b k y d)) \<Longrightarrow> (is_BlockedSend x = False \<Longrightarrow> P N)
    \<Longrightarrow> P (case x of BlockedSend e b k y d \<Rightarrow> M e b k y d | _ \<Rightarrow> N)"
  by (auto split: sum.split prod.split option.split endpoint_queue.split thread_state.split)

lemmas peel_sound = peel [where P = "sound c s f" for c s f]
lemmas peel_on_ok = peel [where P = "on_ok Q" for Q]
lemmas peel_good = peel [where P = "good c s f" for c s f]

lemma runningD:
  assumes "running c s"
  shows "state_wf s" and "threads_ok (threads_of s)" and "queued_once (threads_of s)"
    and "no_dangling s" and "current_of s = Some c"
    and "\<exists>x. get_tcb s c = Some x \<and> tcb_state x = Running"
    and "queue_wf (sch_ready (ks_scheduler s))"
proof -
  show wf: "state_wf s" and ok: "threads_ok (threads_of s)" and "no_dangling s"
    and cur: "current_of s = Some c"
    using assms by (auto simp: running_def kernel_inv_def)
  then show "queued_once (threads_of s)" by (simp add: threads_ok_def)
  have "tv_state (threads_of s) c = Some Running"
    using ok cur by (intro current_running) (simp_all add: threads_ok_def)
  then show "\<exists>x. get_tcb s c = Some x \<and> tcb_state x = Running" by auto
  show "queue_wf (sch_ready (ks_scheduler s))" using wf by (rule wf_objects)
qed

section \<open>Blocking on an endpoint\<close>

text \<open>
  The two sides of an endpoint as places; \<open>opposite\<close> is the other one.
\<close>

fun opposite :: "place \<Rightarrow> place" where
  "opposite (PSend e) = PRecv e"
| "opposite (PRecv e) = PSend e"
| "opposite p = p"

lemma endpoint_sides:
  assumes "p = PSend e \<and> side = QSend \<or> p = PRecv e \<and> side = QRecv"
  shows "(q::place \<Rightarrow> tcb_id list)(PSend e := send_list (side l), PRecv e := recv_list (side l))
       = q(p := aq_list l, opposite p := [])" and "p \<noteq> PReady" and "p \<noteq> opposite p"
    and "endpoint_queue_wf (side l) \<longleftrightarrow> queue_wf l \<and> aq_list l \<noteq> []"
  using assms by (auto simp: fun_upd_twist)

lemma block_on_endpoint_effect:
  assumes laws: "frame_laws H" and run: "running c s"
    and ep: "pool_get (ks_endpoints s) (endpoint_ix e) \<noteq> None"
    and p: "p = PSend e \<and> side = QSend \<or> p = PRecv e \<and> side = QRecv"
    and q: "queue_wf q" "aq_list q = wait_list s p" and other: "wait_list s (opposite p) = []"
    and x: "place_of x = Some p" "\<And>e b k c d. x = BlockedSend e b k (Some c) d \<Longrightarrow> c \<in> caps_of s"
    and rd: "wait_list s PReady = n # ns"
  obtains s' f' where "block_on_endpoint H s f c e side q x = Ok s' f'" and "state_wf s'" and "quiet s s'"
    and "threads_of s' = (shift (shift (threads_of s) c x) n Running)\<lparr>tv_current := Some n\<rparr>"
proof -
  note R = runningD [OF run]
  note sides = endpoint_sides [OF p]
  let ?v = "threads_of s"
  obtain tc where tc: "get_tcb s c = Some tc" "tcb_state tc = Running" using R(6) by blast
  have notin: "c \<notin> set (wait_list s r)" for r
    using not_queued [OF R(3) refl, of c r] tc by auto
  have "length (aq_list q) < MAX_TCBS"
    using queue_room [OF R(1,3) q(1), of p c] q(2) tc notin by simp
  then obtain q' where pushed: "aq_push_back q c = (True, q')"
    and q': "queue_wf q'" "aq_list q' = wait_list s p @ [c]"
    using q queue_wf_push [OF q(1), of c] aq.push_ok [of q c] aq.elems_push [of q c]
    by (cases "aq_push_back q c") (simp add: queue_wf_def)
  let ?s1 = "set_thread_state (set_endpoint_queue s e (side q')) c x"
  have wf1: "state_wf ?s1" using R(1) q' sides(4) by (simp add: wf_rules)
  have view1: "threads_of ?s1 = ?v\<lparr>tv_state := (tv_state ?v)(c \<mapsto> x),
      tv_queue := (wait_list s)(p := wait_list s p @ [c])\<rparr>"
    using ep tc other sides(3)
    by (intro thread_view.equality) (auto simp: observe sides(1) q' fun_eq_iff)
  then have queue1: "wait_list ?s1 = (wait_list s)(p := wait_list s p @ [c])"
    by (metis threads_of_simps(3) thread_view.select_convs(3) thread_view.surjective
        thread_view.update_convs(3))
  obtain s' f' where blk: "block_current H ?s1 f = Some (True, s', f')" and wf': "state_wf s'"
    and view': "threads_of s' = (threads_of ?s1)\<lparr>tv_state := (tv_state (threads_of ?s1))(n \<mapsto> Running),
         tv_queue := (wait_list ?s1)(PReady := ns), tv_current := Some n\<rparr>"
    and quiet': "\<And>s0. quiet s0 ?s1 \<Longrightarrow> quiet s0 s'"
    by (rule block_current_effect [OF laws wf1, of n ns f])
      (use rd sides(2) head_states(1) [OF R(3), of n ns] in \<open>auto simp: queue1\<close>)
  have hr: "has_ready s" using rd by (simp add: has_ready_iff [OF R(7)])
  have idle: "Option.bind (tv_state ?v c) place_of = None" using tc by simp
  have "threads_of s' = (shift (shift ?v c x) n Running)\<lparr>tv_current := Some n\<rparr>"
    using handoff_view [OF R(3) idle x(1), of PReady n ns] rd sides(2)
    by (simp add: view' view1 queue1)
  moreover have "quiet s s'"
    using x(2) by (intro quiet' quiet_set_state quiet_cong) auto
  moreover have "block_on_endpoint H s f c e side q x = Ok s' f'"
    using blk hr pushed by (simp add: block_on_endpoint_def)
  ultimately show ?thesis using that wf' by blast
qed

lemma block_on_endpoint_timeout:
  "running c s \<Longrightarrow> wait_list s PReady = [] \<Longrightarrow> block_on_endpoint H s f c e side q x = Err Timeout s f"
  by (simp add: block_on_endpoint_def has_ready_iff [OF runningD(7)])

lemma block_on_endpoint_good:
  assumes laws: "frame_laws H" and run: "running c s"
    and ep: "pool_get (ks_endpoints s) (endpoint_ix e) \<noteq> None"
    and p: "p = PSend e \<and> side = QSend \<or> p = PRecv e \<and> side = QRecv"
    and q: "queue_wf q" "aq_list q = wait_list s p" and other: "wait_list s (opposite p) = []"
    and x: "place_of x = Some p" "\<And>e b k c d. x = BlockedSend e b k (Some c) d \<Longrightarrow> c \<in> caps_of s"
  shows "good c s f (block_on_endpoint H s f c e side q x)"
proof (cases "wait_list s PReady")
  case Nil
  show ?thesis unfolding block_on_endpoint_timeout [OF run Nil] by (rule good_Err [OF run])
next
  case (Cons n ns)
  have can: "can_block (threads_of s) x"
    using x(1) p other by (cases x) auto
  show ?thesis
  proof (rule block_on_endpoint_effect [OF assms Cons, where f = f])
    fix s' f'
    assume ok: "block_on_endpoint H s f c e side q x = Ok s' f'" and wf: "state_wf s'" and quiet: "quiet s s'"
      and v: "threads_of s' = (shift (shift (threads_of s) c x) n Running)\<lparr>tv_current := Some n\<rparr>"
    have "tstep c (threads_of s) (threads_of s')"
      unfolding v using tstep.Block [of "threads_of s" x n ns c] Cons can by simp
    with wf quiet show ?thesis by (simp add: ok good_Ok sound_Ok quiet_authority)
  qed
qed

section \<open>Waking the head of a wait queue\<close>

lemma normalize_lists:
  assumes "queue_wf q"
  shows "send_list (normalize (QSend q)) = aq_list q" and "recv_list (normalize (QSend q)) = []"
    and "send_list (normalize (QRecv q)) = []" and "recv_list (normalize (QRecv q)) = aq_list q"
    and "endpoint_queue_wf (normalize (QSend q))" and "endpoint_queue_wf (normalize (QRecv q))"
  using aq.is_empty_elems [of q] assms by (simp_all add: queue_wf_def normalize.simps)

lemma pop_head:
  assumes "queue_wf q" and "aq_pop_front q = (Some t, q')"
  shows "aq_list q = t # aq_list q'" and "queue_wf q'" and "aq_front q = Some t"
proof -
  have q: "aq_wf MAX_TCBS q" using assms(1) by (simp add: queue_wf_def)
  show "aq_list q = t # aq_list q'"
    using aq.pop_front [OF q] aq.elems_pop [OF q] aq.front_elems [OF q] assms(2)
    by (cases "aq_list q") auto
  show "queue_wf q'" using queue_wf_pop [OF assms(1)] assms(2) by simp
  show "aq_front q = Some t" using aq.pop_front [OF q] assms(2) by simp
qed

lemma pop_nonempty:
  assumes "queue_wf q" and "aq_list q \<noteq> []"
  obtains t q' where "aq_pop_front q = (Some t, q')" and "aq_front q = Some t"
  using assms aq.pop_Cons [of q] aq.front_Some [of q]
  by (cases "aq_list q"; cases "aq_pop_front q") (auto simp: queue_wf_def)

lemma wake_view:
  assumes wf: "state_wf s" and ok: "queued_once (threads_of s)"
    and q: "wait_list s p = t # ts" "p \<noteq> PReady"
    and v: "threads_of s2 = (threads_of s)\<lparr>tv_queue := (wait_list s)(p := ts)\<rparr>"
    and ready: "queue_wf (sch_ready (ks_scheduler s2))"
  shows "threads_of (make_ready s2 t) = shift (threads_of s) t Ready"
proof -
  obtain x where x: "get_tcb s t = Some x" "place_of (tcb_state x) = Some p"
    using queued_head [OF ok, of p t ts] q by auto
  then have nr: "tcb_state x \<noteq> Ready" using q(2) by auto
  have "map_option tcb_state (get_tcb s2 t) = map_option tcb_state (get_tcb s t)"
    using arg_cong [OF v, of "\<lambda>v. tv_state v t"] by simp
  with x obtain x2 where x2: "get_tcb s2 t = Some x2" "tcb_state x2 = tcb_state x" by auto
  with nr have nr2: "tcb_state x2 \<noteq> Ready" by metis
  have list: "wait_list s2 = (wait_list s)(p := ts)" using arg_cong [OF v, of tv_queue] by simp
  then have "length (wait_list s2 PReady) < MAX_TCBS"
    using ready_room [OF wf ok x(1) nr] q(2) by simp
  with x2(1) nr2 ready
  have "threads_of (make_ready s2 t) = (threads_of s2)\<lparr>tv_state := (tv_state (threads_of s2))(t \<mapsto> Ready),
       tv_queue := (wait_list s2)(PReady := wait_list s2 PReady @ [t])\<rparr>"
    by (intro threads_of_make_ready) simp_all
  also have "\<dots> = shift (threads_of s) t Ready"
    using shift_head_view(1) [OF ok, of p t ts Ready PReady] q by (simp add: v list)
  finally show ?thesis .
qed

section \<open>Transferring a capability\<close>

lemma offer_cap_Inr:
  assumes "offer_cap s t dest x = Inr s1"
  obtains (none) "x = None" and "s1 = s"
  | (placed) cap d i where "x = Some cap" and "dest = Some d"
      and "Option.bind (get_tcb s t) tcb_cspace = Some i" and "slot_cap s i d = Some Null"
      and "s1 = s\<lparr>ks_cnodes := pool_modify (ks_cnodes s) (cnode_ix i) (\<lambda>c. cnode_put c d cap)\<rparr>"
proof (cases x)
  case None
  with assms none show ?thesis by (simp add: offer_cap_def)
next
  case (Some cap)
  with assms obtain d where d: "dest = Some d" "place_transferred_cap s t d cap = Inr s1"
    by (auto simp: offer_cap_def ok_or_def split: option.splits)
  then obtain tcb i cn slot where "get_tcb s t = Some tcb" "tcb_cspace tcb = Some i"
    "pool_get (ks_cnodes s) (cnode_ix i) = Some cn" "cnode_get cn d = Some slot" "slot = Null"
    "s1 = s\<lparr>ks_cnodes := pool_modify (ks_cnodes s) (cnode_ix i) (\<lambda>c. cnode_put c d cap)\<rparr>"
    by (auto simp: place_transferred_cap_def split: option.splits if_splits)
  with placed [OF Some d(1), of i] show ?thesis by (simp add: slot_cap_def)
qed

lemma offer_cap_effect:
  assumes "offer_cap s t dest x = Inr s1"
  shows "ks_tcbs s1 = ks_tcbs s" and "ks_endpoints s1 = ks_endpoints s"
    and "ks_notifications s1 = ks_notifications s" and "ks_scheduler s1 = ks_scheduler s"
    and "ks_hw s1 = ks_hw s" and "ks_frames s1 = ks_frames s"
    and "threads_of s1 = threads_of s" and "wait_list s1 = wait_list s"
    and "state_wf s \<Longrightarrow> state_wf s1"
    and "quiet s0 s \<Longrightarrow> (\<And>c. x = Some c \<Longrightarrow> c \<in> caps_of s0) \<Longrightarrow> quiet s0 s1"
proof -
  consider "s1 = s" | cap i d where "x = Some cap"
    "s1 = s\<lparr>ks_cnodes := pool_modify (ks_cnodes s) (cnode_ix i) (\<lambda>c. cnode_put c d cap)\<rparr>"
    using assms by (rule offer_cap_Inr) blast+
  note E = this
  from E show "ks_tcbs s1 = ks_tcbs s" and "ks_endpoints s1 = ks_endpoints s"
    and "ks_notifications s1 = ks_notifications s" and "ks_scheduler s1 = ks_scheduler s"
    and "ks_hw s1 = ks_hw s" and "ks_frames s1 = ks_frames s"
    by (cases; simp)+
  then show v: "threads_of s1 = threads_of s" by (intro threads_of_cong)
  show "wait_list s1 = wait_list s" using arg_cong [OF v, of tv_queue] by simp
  from E show "state_wf s \<Longrightarrow> state_wf s1" by cases (simp_all add: wf_cnode_put)
  from E show "quiet s0 s \<Longrightarrow> (\<And>c. x = Some c \<Longrightarrow> c \<in> caps_of s0) \<Longrightarrow> quiet s0 s1"
    by cases (auto intro: quiet_cnode_put)
qed

lemma extract_extra_cap_mem: "extract_extra_cap H s c f tg = Inr (Some cap) \<Longrightarrow> cap \<in> caps_of s"
  by (auto simp: extract_extra_cap_def resolve_transferable_cap_def lookup_cap_mem
      split: if_splits sum.splits)

lemma flight_cap_mem:
  "get_tcb s t = Some x \<Longrightarrow> tcb_state x = BlockedSend e b k (Some cap) d \<Longrightarrow> cap \<in> caps_of s"
  unfolding caps_of_def flight_caps_def by force

section \<open>\<open>send\<close>\<close>

text \<open>A message to a waiting receiver: the state that \<open>send\<close> returns.\<close>

definition delivered ::
  "('b, 'h) kernel_state \<Rightarrow> endpoint_id \<Rightarrow> tcb_id array_queue \<Rightarrow> tcb_id \<Rightarrow> u64 \<Rightarrow> usize \<times> usize \<times> usize
    \<Rightarrow> 'b message_tag \<Rightarrow> ('b, 'h) kernel_state" where
  "delivered s e q t b m tg =
     deliver_payload (set_endpoint_queue s e (normalize (QRecv q))) t b (fst m) (fst (snd m)) (snd (snd m)) tg"

lemma delivered_view:
  assumes run: "running c s" and ep: "pool_get (ks_endpoints s) (endpoint_ix e) = Some ep" "ep_queue ep = QRecv q"
    and pop: "aq_pop_front q = (Some t, q')" and off: "offer_cap s t dest x = Inr s1"
  shows "wait_list s (PRecv e) = t # aq_list q'" and "state_wf (delivered s1 e q' t b m tg)"
    and "threads_of (delivered s1 e q' t b m tg) = (threads_of s)\<lparr>tv_queue := (wait_list s)(PRecv e := aq_list q')\<rparr>"
    and "quiet s s1 \<Longrightarrow> quiet s (delivered s1 e q' t b m tg)"
proof -
  note R = runningD [OF run]
  have q: "queue_wf q" using wf_objects(1) [OF R(1) ep(1)] ep(2) by simp
  note P = pop_head [OF q pop] and O = offer_cap_effect [OF off]
  show "wait_list s (PRecv e) = t # aq_list q'" using ep P(1) by simp
  show "state_wf (delivered s1 e q' t b m tg)"
    using O(9) R(1) normalize_lists(6) [OF P(2)] by (simp add: delivered_def wf_rules)
  have "wait_list s (PSend e) = []" using ep by simp
  then show "threads_of (delivered s1 e q' t b m tg) = (threads_of s)\<lparr>tv_queue := (wait_list s)(PRecv e := aq_list q')\<rparr>"
    using ep by (simp add: delivered_def deliver_payload_def observe O normalize_lists [OF P(2)]
        fun_upd_idem fun_upd_twist)
  show "quiet s s1 \<Longrightarrow> quiet s (delivered s1 e q' t b m tg)"
    by (simp add: delivered_def quiet_deliver quiet_cong)
qed

lemma deliver_sound:
  assumes laws: "frame_laws H" and run: "running c s"
    and ep: "pool_get (ks_endpoints s) (endpoint_ix e) = Some ep" "ep_queue ep = QRecv q"
    and pop: "aq_pop_front q = (Some t, q')" and off: "offer_cap s t dest x = Inr s1"
    and x: "\<And>cap. x = Some cap \<Longrightarrow> cap \<in> caps_of s"
  shows "sound c s f (Ok (make_ready (delivered s1 e q' t b m tg) t) f')"
proof (rule sound_Ok)
  note R = runningD [OF run]
  note D = delivered_view [OF run ep pop off]
  show "state_wf (make_ready (delivered s1 e q' t b m tg) t)" using D(2) by (rule wf_make_ready)
  have "threads_of (make_ready (delivered s1 e q' t b m tg) t) = shift (threads_of s) t Ready"
    using wake_view [OF R(1,3) D(1) _ D(3)] wf_objects(7) [OF D(2)] by simp
  then show "tstep c (threads_of s) (threads_of (make_ready (delivered s1 e q' t b m tg) t))"
    using tstep.Deliver [of "threads_of s" e t "aq_list q'" c] D(1) by simp
  show "authority_step s (make_ready (delivered s1 e q' t b m tg) t)"
    using D(4) offer_cap_effect(10) [OF off, of s] x by (intro quiet_authority quiet_make_ready) simp
qed

lemma endpoint_wait_lists:
  assumes "pool_get (ks_endpoints s) (endpoint_ix e) = Some ep"
  shows "wait_list s (PSend e) = send_list (ep_queue ep)" and "wait_list s (PRecv e) = recv_list (ep_queue ep)"
  using assms by simp_all

lemma block_send_good:
  assumes laws: "frame_laws H" and run: "running c s"
    and ep: "pool_get (ks_endpoints s) (endpoint_ix e) = Some ep"
    and side: "ep_queue ep = QEmpty \<and> q = aq_new MAX_TCBS \<or> ep_queue ep = QSend q"
    and x: "\<And>cap. x = Some cap \<Longrightarrow> cap \<in> caps_of s"
  shows "good c s f (block_on_endpoint H s f c e QSend q (BlockedSend e b k x d))"
proof -
  have wf: "queue_wf q" "aq_list q = wait_list s (PSend e)" "wait_list s (PRecv e) = []"
    using side wf_objects(1) [OF runningD(1) [OF run] ep] endpoint_wait_lists [OF ep]
    by (auto simp: queue_wf_new aq.elems_empty simp del: wait_list.simps)
  show ?thesis
    using ep wf x by (intro block_on_endpoint_good [OF laws run, where p = "PSend e"]) auto
qed

lemma block_recv_good:
  assumes laws: "frame_laws H" and run: "running c s"
    and ep: "pool_get (ks_endpoints s) (endpoint_ix e) = Some ep"
    and side: "ep_queue ep = QEmpty \<and> q = aq_new MAX_TCBS \<or> ep_queue ep = QRecv q"
  shows "good c s f (block_on_endpoint H s f c e QRecv q (BlockedRecv e d))"
proof -
  have wf: "queue_wf q" "aq_list q = wait_list s (PRecv e)" "wait_list s (PSend e) = []"
    using side wf_objects(1) [OF runningD(1) [OF run] ep] endpoint_wait_lists [OF ep]
    by (auto simp: queue_wf_new aq.elems_empty simp del: wait_list.simps)
  show ?thesis
    using ep wf by (intro block_on_endpoint_good [OF laws run, where p = "PRecv e"]) auto
qed

text \<open>The head of a non-empty wait queue is never \<open>None\<close>.\<close>

lemma endpoint_waiter:
  assumes "running c s" and "pool_get (ks_endpoints s) (endpoint_ix e) = Some ep"
    and "ep_queue ep = QRecv q \<or> ep_queue ep = QSend q"
  shows "aq_front q \<noteq> None" and "aq_pop_front q \<noteq> (None, q')"
    and "aq_pop_front q = (Some t, q') \<Longrightarrow> aq_front q = Some u \<Longrightarrow> u = t"
proof -
  have q: "queue_wf q" "aq_list q \<noteq> []"
    using wf_objects(1) [OF runningD(1) [OF assms(1)] assms(2)] assms(3) by auto
  obtain t0 q0 where "aq_pop_front q = (Some t0, q0)" "aq_front q = Some t0" by (rule pop_nonempty [OF q])
  then show "aq_front q \<noteq> None" and "aq_pop_front q \<noteq> (None, q')"
    and "aq_pop_front q = (Some t, q') \<Longrightarrow> aq_front q = Some u \<Longrightarrow> u = t" by auto
qed

lemma good_stay: "running c s \<Longrightarrow> good c s f (Ok s f')"
  by (auto simp: good_Ok runningD intro!: sound_Ok tstep.Stay quiet_authority)

lemma deliver_good:
  assumes "frame_laws H" and run: "running c s"
    and ep: "pool_get (ks_endpoints s) (endpoint_ix e) = Some ep" "ep_queue ep = QRecv q"
    and "aq_front q = Some t" and pop: "aq_pop_front q = (Some t', q')"
    and "offer_cap s t dest x = Inr s1" and "\<And>cap. x = Some cap \<Longrightarrow> cap \<in> caps_of s"
  shows "good c s f (Ok (make_ready (deliver_payload (set_endpoint_queue s1 e (normalize (QRecv q')))
           t' b m1 m2 m3 tg) t') f')"
  using deliver_sound [OF assms(1-4) pop, of dest x s1 f b "(m1, m2, m3)" tg f'] assms
    endpoint_waiter(3) [OF run ep(1) _ pop, of t]
  by (auto simp: good_Ok delivered_def)

theorem send_good:
  assumes laws: "frame_laws H" and run: "running c s"
  shows "good c s f (send H s c p f nb)"
proof (unfold send_def Let_def, (intro peel_good; (rule good_Err [OF run])?), goal_cases)
qed (use endpoint_waiter [OF run] extract_extra_cap_mem in
    \<open>auto intro!: good_stay [OF run] block_send_good [OF laws run] deliver_good [OF laws run]\<close>)

section \<open>\<open>recv\<close>\<close>

lemma collect_good:
  assumes laws: "frame_laws H" and run: "running c s"
    and ep: "pool_get (ks_endpoints s) (endpoint_ix e) = Some ep" "ep_queue ep = QSend q"
    and front: "aq_front q = Some t" and pop: "aq_pop_front q = (Some t', q')"
    and tcb: "get_tcb s t = Some tcb" "tcb_state tcb = BlockedSend e' b k x d"
    and off: "offer_cap s c dest x = Inr s1"
  shows "good c s f (Ok (if k then set_thread_state
            (update_tcb (set_endpoint_queue s1 e (normalize (QSend q'))) c (\<lambda>tcb. tcb\<lparr>tcb_reply_to := Some t'\<rparr>))
            t' (BlockedReply d)
          else make_ready (set_endpoint_queue s1 e (normalize (QSend q'))) t') f')"
proof -
  note R = runningD [OF run] and O = offer_cap_effect [OF off]
  let ?s2 = "set_endpoint_queue s1 e (normalize (QSend q'))" and ?v = "threads_of s"
  have t': "t' = t" using endpoint_waiter(3) [OF run ep(1) _ pop front] ep by simp
  have q: "queue_wf q" using wf_objects(1) [OF R(1) ep(1)] ep(2) by simp
  note P = pop_head [OF q pop]
  have wl: "wait_list s (PSend e) = t # aq_list q'" "wait_list s (PRecv e) = []" using ep P t' by simp_all
  then have e': "e' = e"
    using queued_head [OF R(3), of "PSend e"] tcb by fastforce
  have quiet1: "quiet s s1" using O(10) [of s] flight_cap_mem [OF tcb(1)] tcb(2) by auto
  have wf2: "state_wf ?s2" using O(9) R(1) normalize_lists(5) [OF P(2)] by (simp add: wf_rules)
  have view2: "threads_of ?s2 = ?v\<lparr>tv_queue := (wait_list s)(PSend e := aq_list q')\<rparr>"
    using ep wl(2) by (simp add: observe O normalize_lists [OF P(2)] fun_upd_idem)
  show ?thesis
  proof (cases k)
    case True
    obtain tc where tc: "get_tcb s c = Some tc" using R(6) by blast
    let ?s3 = "update_tcb ?s2 c (\<lambda>tcb. tcb\<lparr>tcb_reply_to := Some t\<rparr>)"
    let ?s4 = "set_thread_state ?s3 t (BlockedReply d)"
    have "threads_of ?s4 = (shift ?v t (BlockedReply d))\<lparr>tv_reply := (tv_reply ?v)(c \<mapsto> t)\<rparr>"
      using tc tcb shift_head_view(2) [OF R(3), of "PSend e" t "aq_list q'" "BlockedReply d"] wl
      by (simp add: observe view2 O)
    then have "tstep c ?v (threads_of ?s4)"
      using tstep.Accept [of ?v e t "aq_list q'" b x d c] wl tcb True e' by simp
    moreover have "quiet s ?s4" using quiet1 by (intro quiet_rules) auto
    ultimately show ?thesis
      using wf2 True t' by (auto simp: good_Ok wf_rules intro!: sound_Ok quiet_authority)
  next
    case False
    have "threads_of (make_ready ?s2 t) = shift ?v t Ready"
      using wake_view [OF R(1,3) wl(1) _ view2] wf_objects(7) [OF wf2] by simp
    then have "tstep c ?v (threads_of (make_ready ?s2 t))"
      using tstep.Collect [of ?v e t "aq_list q'" b x d c] wl tcb False e' by simp
    moreover have "quiet s (make_ready ?s2 t)" using quiet1 by (intro quiet_rules)
    ultimately show ?thesis
      using wf2 False t' by (auto simp: good_Ok wf_rules intro!: sound_Ok quiet_authority)
  qed
qed

lemmas collect_goods = collect_good [where k = True, simplified] collect_good [where k = False, simplified]

theorem recv_good:
  assumes laws: "frame_laws H" and run: "running c s"
  shows "good c s f (recv H s c p f)"
proof (unfold recv_def Let_def, (intro peel_good; (rule good_Err [OF run])?), goal_cases)
qed (use endpoint_waiter [OF run] in
    \<open>auto intro!: good_stay [OF run] block_recv_good [OF laws run] collect_goods [OF laws run]\<close>)

section \<open>\<open>call\<close> and \<open>reply\<close>\<close>

lemma call_good_leaf:
  assumes laws: "frame_laws H" and run: "running c s"
    and ep: "pool_get (ks_endpoints s) (endpoint_ix e) = Some ep" "ep_queue ep = QRecv q"
    and front: "aq_front q = Some t" and pop: "aq_pop_front q = (Some t', q')"
    and off: "offer_cap s t dest x = Inr s1" and x: "\<And>cap. x = Some cap \<Longrightarrow> cap \<in> caps_of s"
    and sw: "switch_to H (set_thread_state (update_tcb (deliver_payload
               (set_endpoint_queue s1 e (normalize (QRecv q'))) t' b m1 m2 m3 tg) t'
               (\<lambda>tcb. tcb\<lparr>tcb_reply_to := Some c\<rparr>)) c (BlockedReply d)) f t' = (s', f')"
  shows "good c s f (Ok s' f')"
proof -
  note R = runningD [OF run]
  have t: "t = t'" using endpoint_waiter(3) [OF run ep(1) _ pop front] ep by simp
  note D = delivered_view [OF run ep pop off [unfolded t]]
  let ?v = "threads_of s" and ?s2 = "delivered s1 e q' t' b (m1, m2, m3) tg"
  have view2: "threads_of ?s2 = ?v\<lparr>tv_queue := (wait_list s)(PRecv e := aq_list q')\<rparr>" by (rule D(3))
  let ?s4 = "set_thread_state (update_tcb ?s2 t' (\<lambda>tcb. tcb\<lparr>tcb_reply_to := Some c\<rparr>)) c (BlockedReply d)"
  from sw have s': "s' = fst (switch_to H ?s4 f t')" by (simp add: delivered_def)
  obtain tc where tc: "get_tcb s c = Some tc" "tcb_state tc = Running" using R(6) by blast
  obtain tt where tt: "get_tcb s t' = Some tt" "t' \<noteq> c"
    using head_states(3) [OF R(3), of e t' "aq_list q'"] D(1) tc
    by (cases "t' = c") (auto simp del: wait_list.simps)
  have ex: "get_tcb ?s2 c \<noteq> None" "get_tcb ?s2 t' \<noteq> None"
    using arg_cong [OF view2, of "\<lambda>v. tv_state v c"] arg_cong [OF view2, of "\<lambda>v. tv_state v t'"] tc tt
    by auto
  have idle: "Option.bind (tv_state ?v c) place_of = None" using tc by simp
  have "threads_of s' = (shift (shift ?v c (BlockedReply d)) t' Running)
      \<lparr>tv_reply := (tv_reply ?v)(t' \<mapsto> c), tv_current := Some t'\<rparr>"
    using ex tt(2) reply_handoff_view [OF R(3) idle, of "PRecv e" t' "aq_list q'" d] D(1)
    by (simp add: s' observe view2 del: wait_list.simps)
  then have "tstep c ?v (threads_of s')"
    using tstep.Call [of ?v e t' "aq_list q'" c d] D(1) by (simp del: wait_list.simps)
  moreover have "quiet s s'"
    using D(4) offer_cap_effect(10) [OF off, of s] x unfolding s' by (auto intro!: quiet_rules)
  moreover have "state_wf s'" using D(2) laws by (simp add: s' wf_rules)
  ultimately show ?thesis by (simp add: good_Ok sound_Ok quiet_authority)
qed

theorem call_good:
  assumes laws: "frame_laws H" and run: "running c s"
  shows "good c s f (call H s c p f)"
proof (unfold call_def Let_def, (intro peel_good; (rule good_Err [OF run])?), goal_cases)
qed (use endpoint_waiter [OF run] extract_extra_cap_mem in
    \<open>auto intro!: good_stay [OF run] block_send_good [OF laws run] call_good_leaf [OF laws run]\<close>)

lemma reply_target:
  assumes run: "running c s" and c: "get_tcb s c = Some tc" "tcb_reply_to tc = Some t"
  shows "\<exists>x d. get_tcb s t = Some x \<and> tcb_state x = BlockedReply d" and "t \<noteq> c"
proof -
  have "replies_ok (threads_of s)" using runningD(2) [OF run] by (simp add: threads_ok_def)
  moreover have "tv_reply (threads_of s) c = Some t" using c by simp
  ultimately have "\<exists>d. tv_state (threads_of s) t = Some (BlockedReply d)" unfolding replies_ok_def by blast
  then show "\<exists>x d. get_tcb s t = Some x \<and> tcb_state x = BlockedReply d" by auto
  then show "t \<noteq> c" using runningD(6) [OF run] by auto
qed

lemma reply_good_leaf:
  assumes laws: "frame_laws H" and run: "running c s"
    and c: "get_tcb s c = Some tc" "tcb_reply_to tc = Some t"
    and off: "offer_cap s t dest x = Inr s1" and x: "\<And>cap. x = Some cap \<Longrightarrow> cap \<in> caps_of s"
    and sw: "switch_to H (make_ready (deliver_payload
               (update_tcb s1 c (\<lambda>tcb. tcb\<lparr>tcb_reply_to := None\<rparr>)) t 0 m1 m2 m3 tg) c) f t = (s', f')"
  shows "good c s f (Ok s' f')"
proof -
  note R = runningD [OF run] and O = offer_cap_effect [OF off] and T = reply_target [OF run c]
  let ?v = "threads_of s"
  let ?s2 = "deliver_payload (update_tcb s1 c (\<lambda>tcb. tcb\<lparr>tcb_reply_to := None\<rparr>)) t 0 m1 m2 m3 tg"
  from sw have s': "s' = fst (switch_to H (make_ready ?s2 c) f t)" by simp
  obtain tt d where tt: "get_tcb s t = Some tt" "tcb_state tt = BlockedReply d" using T(1) by blast
  have running: "tcb_state tc = Running" using R(6) c by simp
  have tc2: "get_tcb ?s2 c = Some (tc\<lparr>tcb_reply_to := None\<rparr>)"
    using c T(2) by (simp add: deliver_payload_def O)
  have wf2: "state_wf ?s2" using O(9) R(1) by (simp add: wf_rules)
  have view2: "threads_of ?s2 = ?v\<lparr>tv_reply := (tv_reply ?v)(c := None)\<rparr>"
    using c by (simp add: deliver_payload_def observe O)
  have list2: "wait_list ?s2 = wait_list s" using arg_cong [OF view2, of tv_queue] by simp
  have "length (wait_list ?s2 PReady) < MAX_TCBS"
    using ready_room [OF R(1,3) c(1)] running list2 by simp
  then have view3: "threads_of (make_ready ?s2 c) = (threads_of ?s2)\<lparr>tv_state := (tv_state (threads_of ?s2))(c \<mapsto> Ready),
       tv_queue := (wait_list ?s2)(PReady := wait_list ?s2 PReady @ [c])\<rparr>"
    using threads_of_make_ready [OF tc2] running wf_objects(7) [OF wf2] by (simp del: wait_list.simps)
  have "get_tcb (make_ready ?s2 c) t \<noteq> None"
    using arg_cong [OF view3, of "\<lambda>v. tv_state v t"] tt T(2) by (auto simp: view2)
  moreover have "shift (shift ?v c Ready) t Running
      = ?v\<lparr>tv_state := (tv_state ?v)(c \<mapsto> Ready, t \<mapsto> Running), tv_queue := (wait_list s)(PReady := wait_list s PReady @ [c])\<rparr>"
    using shift_idle_view(1) [OF R(3), of c Ready PReady] running c T(2) tt
      shift_idle_view(2) [OF queued_once_shift [OF R(3)], of c Ready t Running] by simp
  ultimately have "threads_of s' = (shift (shift ?v c Ready) t Running)
      \<lparr>tv_reply := (tv_reply ?v)(c := None), tv_current := Some t\<rparr>"
    by (simp add: s' observe view3 view2 list2 del: wait_list.simps)
  then have "tstep c ?v (threads_of s')" using tstep.Reply [of ?v c t] c by simp
  moreover have "quiet s s'" using O(10) [of s] x unfolding s' by (auto intro!: quiet_rules)
  moreover have "state_wf s'" using wf2 laws by (simp add: s' wf_rules)
  ultimately show ?thesis by (simp add: good_Ok sound_Ok quiet_authority)
qed

theorem reply_good:
  assumes laws: "frame_laws H" and run: "running c s"
  shows "good c s f (reply H s c f)"
proof (unfold reply_def Let_def, (intro peel_good; (rule good_Err [OF run])?), goal_cases)
  case (1 _ x m1 m m2 m3 tc t s1)
  then have "get_tcb s1 t \<noteq> None" and "t \<noteq> c"
    using reply_target [OF run, of tc t] offer_cap_effect(1) [of s t _ x s1] by auto
  with 1 show ?case by simp
qed (use extract_extra_cap_mem in \<open>auto intro!: reply_good_leaf [OF laws run]\<close>)

section \<open>Notifications\<close>

lemma pop_empty:
  assumes "queue_wf q" and "aq_pop_front q = (None, q')"
  shows "aq_list q = []"
  using assms aq.pop_Cons [of q] by (cases "aq_list q") (auto simp: queue_wf_def)

lemma notify_good:
  assumes laws: "frame_laws H" and run: "running c s"
    and nt: "pool_get (ks_notifications s) (notification_ix n) = Some x"
    and pop: "aq_pop_front (ntfn_waiters x) = (Some t, q')"
  shows "good c s f (Ok (make_ready (update_tcb (update_notification s n
            (\<lambda>y. y\<lparr>ntfn_waiters := q', ntfn_signals := 0\<rparr>)) t
            (\<lambda>tcb. tcb\<lparr>tcb_context := ctx_set_mr (tcb_context tcb) 0 w\<rparr>)) t) f')"
proof -
  note R = runningD [OF run]
  let ?v = "threads_of s"
  let ?s2 = "update_tcb (update_notification s n (\<lambda>y. y\<lparr>ntfn_waiters := q', ntfn_signals := 0\<rparr>)) t
      (\<lambda>tcb. tcb\<lparr>tcb_context := ctx_set_mr (tcb_context tcb) 0 w\<rparr>)"
  note P = pop_head [OF wf_objects(2) [OF R(1) nt] pop]
  have wl: "wait_list s (PWait n) = t # aq_list q'" using nt P by simp
  have "tv_signals ?v n = 0" using R(2) wl unfolding threads_ok_def signals_ok_def by (metis list.distinct(1) threads_of_simps(3))
  then have view2: "threads_of ?s2 = ?v\<lparr>tv_queue := (wait_list s)(PWait n := aq_list q')\<rparr>"
    using nt by (simp add: observe fun_upd_idem del: signals_get)
  have wf2: "state_wf ?s2" using R(1) P(2) by (simp add: wf_rules)
  have "threads_of (make_ready ?s2 t) = shift ?v t Ready"
    using wake_view [OF R(1,3) wl _ view2] wf_objects(7) [OF wf2] by simp
  then have "tstep c ?v (threads_of (make_ready ?s2 t))"
    using tstep.Notify [of ?v n t "aq_list q'" c] wl by simp
  moreover have "quiet s (make_ready ?s2 t)" by (intro quiet_rules) auto
  ultimately show ?thesis using wf2 by (simp add: good_Ok sound_Ok wf_rules quiet_authority)
qed

lemma raise_good:
  assumes run: "running c s"
    and nt: "pool_get (ks_notifications s) (notification_ix n) = Some x"
    and pop: "aq_pop_front (ntfn_waiters x) = (None, q')"
  shows "good c s f (Ok (update_notification s n (\<lambda>y. y\<lparr>ntfn_signals := ntfn_signals y OR b\<rparr>)) f')"
proof -
  note R = runningD [OF run]
  let ?s2 = "update_notification s n (\<lambda>y. y\<lparr>ntfn_signals := ntfn_signals y OR b\<rparr>)" and ?v = "threads_of s"
  have wl: "wait_list s (PWait n) = []" using nt pop_empty [OF wf_objects(2) [OF R(1) nt] pop] by simp
  have "threads_of ?s2 = ?v\<lparr>tv_signals := (tv_signals ?v)(n := tv_signals ?v n OR b)\<rparr>"
    using nt by (intro thread_view.equality) (auto simp: observe)
  then have "tstep c ?v (threads_of ?s2)" using tstep.Raise [of ?v n c b] wl by simp
  moreover have "quiet s ?s2" by (intro quiet_rules) auto
  ultimately show ?thesis using R(1) by (simp add: good_Ok sound_Ok wf_rules quiet_authority)
qed

lemma consume_good:
  assumes run: "running c s" and nt: "pool_get (ks_notifications s) (notification_ix n) = Some x"
  shows "good c s f (Ok (update_notification s n (\<lambda>y. y\<lparr>ntfn_signals := 0\<rparr>)) f')"
proof -
  note R = runningD [OF run]
  let ?s2 = "update_notification s n (\<lambda>y. y\<lparr>ntfn_signals := 0\<rparr>)" and ?v = "threads_of s"
  have "threads_of ?s2 = ?v\<lparr>tv_signals := (tv_signals ?v)(n := 0)\<rparr>"
    using nt by (intro thread_view.equality) (auto simp: observe)
  then have "tstep c ?v (threads_of ?s2)" using tstep.Consume [of c ?v n] by simp
  moreover have "quiet s ?s2" by (intro quiet_rules) auto
  ultimately show ?thesis using R(1) by (simp add: good_Ok sound_Ok wf_rules quiet_authority)
qed

theorem signal_good:
  assumes laws: "frame_laws H" and run: "running c s"
  shows "good c s f (signal H s c p f)"
proof (unfold signal_def Let_def, (intro peel_good; (rule good_Err [OF run])?), goal_cases)
qed (auto intro!: notify_good [OF laws run] raise_good [OF run])

theorem poll_good:
  assumes laws: "frame_laws H" and run: "running c s"
  shows "good c s f (poll H s c p f)"
proof (unfold poll_def Let_def, (intro peel_good; (rule good_Err [OF run])?), goal_cases)
qed (auto intro!: good_stay [OF run] consume_good [OF run])

lemma wait_block_effect:
  assumes laws: "frame_laws H" and run: "running c s"
    and nt: "pool_get (ks_notifications s) (notification_ix n) = Some x"
    and rd: "wait_list s PReady = u # us"
  obtains q' s' f' where "aq_push_back (ntfn_waiters x) c = (True, q')"
    and "block_current H (set_thread_state (update_notification s n (\<lambda>y. y\<lparr>ntfn_waiters := q'\<rparr>)) c (BlockedWait n)) f
           = Some (True, s', f')"
    and "state_wf s'" and "quiet s s'"
    and "threads_of s' = (shift (shift (threads_of s) c (BlockedWait n)) u Running)\<lparr>tv_current := Some u\<rparr>"
proof -
  note R = runningD [OF run]
  let ?v = "threads_of s" and ?w = "ntfn_waiters x"
  obtain tc where tc: "get_tcb s c = Some tc" "tcb_state tc = Running" using R(6) by blast
  have notin: "c \<notin> set (wait_list s r)" for r
    using not_queued [OF R(3) refl, of c r] tc by auto
  have w: "queue_wf ?w" "aq_list ?w = wait_list s (PWait n)"
    using wf_objects(2) [OF R(1) nt] nt by auto
  have "length (aq_list ?w) < MAX_TCBS"
    using queue_room [OF R(1,3) w(1) disjI1 [OF w(2)] _ notin] tc by simp
  then obtain q' where pushed: "aq_push_back ?w c = (True, q')"
    and q': "queue_wf q'" "aq_list q' = wait_list s (PWait n) @ [c]"
    using w queue_wf_push [OF w(1), of c] aq.push_ok [of ?w c] aq.elems_push [of ?w c]
    by (cases "aq_push_back ?w c") (simp add: queue_wf_def)
  let ?s1 = "set_thread_state (update_notification s n (\<lambda>y. y\<lparr>ntfn_waiters := q'\<rparr>)) c (BlockedWait n)"
  have wf1: "state_wf ?s1" using R(1) q' by (simp add: wf_rules)
  have view1: "threads_of ?s1 = ?v\<lparr>tv_state := (tv_state ?v)(c \<mapsto> BlockedWait n),
      tv_queue := (wait_list s)(PWait n := wait_list s (PWait n) @ [c])\<rparr>"
    using nt tc q'(2) by (intro thread_view.equality) (auto simp: observe)
  have queue1: "wait_list ?s1 = (wait_list s)(PWait n := wait_list s (PWait n) @ [c])"
    using arg_cong [OF view1, of tv_queue] by simp
  obtain s' f' where blk: "block_current H ?s1 f = Some (True, s', f')" and wf': "state_wf s'"
    and view': "threads_of s' = (threads_of ?s1)\<lparr>tv_state := (tv_state (threads_of ?s1))(u \<mapsto> Running),
         tv_queue := (wait_list ?s1)(PReady := us), tv_current := Some u\<rparr>"
    and quiet': "\<And>s0. quiet s0 ?s1 \<Longrightarrow> quiet s0 s'"
    by (rule block_current_effect [OF laws wf1, of u us f])
      (use rd head_states(1) [OF R(3), of u us] in \<open>auto simp: queue1\<close>)
  have idle: "Option.bind (tv_state ?v c) place_of = None" using tc by simp
  have "threads_of s' = (shift (shift ?v c (BlockedWait n)) u Running)\<lparr>tv_current := Some u\<rparr>"
    using handoff_view [OF R(3) idle, of "BlockedWait n" "PWait n" PReady u us] rd
    by (simp add: view' view1 queue1)
  moreover have "quiet s s'" by (intro quiet' quiet_set_state quiet_cong) auto
  ultimately show ?thesis using that pushed blk wf' by blast
qed

lemma wait_leaves:
  assumes laws: "frame_laws H" and run: "running c s"
    and nt: "pool_get (ks_notifications s) (notification_ix n) = Some x" "ntfn_signals x = 0"
    and hr: "has_ready s" and push: "aq_push_back (ntfn_waiters x) c = (k, q')"
  shows "k" and "block_current H (set_thread_state (update_notification s n (\<lambda>y. y\<lparr>ntfn_waiters := q'\<rparr>)) c (BlockedWait n)) f = r
      \<Longrightarrow> \<exists>s' f'. r = Some (True, s', f') \<and> good c s f (Ok s' f')"
proof -
  obtain u us where rd: "wait_list s PReady = u # us"
    using hr has_ready_iff [OF runningD(7) [OF run]] by (auto simp: neq_Nil_conv)
  obtain q0 s' f' where E: "aq_push_back (ntfn_waiters x) c = (True, q0)"
    "block_current H (set_thread_state (update_notification s n (\<lambda>y. y\<lparr>ntfn_waiters := q0\<rparr>)) c (BlockedWait n)) f
       = Some (True, s', f')" "state_wf s'" "quiet s s'"
    and v: "threads_of s' = (shift (shift (threads_of s) c (BlockedWait n)) u Running)\<lparr>tv_current := Some u\<rparr>"
    by (rule wait_block_effect [OF laws run nt(1) rd, where f = f])
  from E(1) push show "k" by simp
  have "tstep c (threads_of s) (threads_of s')"
    unfolding v using tstep.Block [of "threads_of s" "BlockedWait n" u us c] rd nt by simp
  with E push show "block_current H (set_thread_state (update_notification s n (\<lambda>y. y\<lparr>ntfn_waiters := q'\<rparr>)) c (BlockedWait n)) f = r
      \<Longrightarrow> \<exists>s' f'. r = Some (True, s', f') \<and> good c s f (Ok s' f')"
    by (auto simp: good_Ok sound_Ok quiet_authority)
qed

theorem wait_good:
  assumes laws: "frame_laws H" and run: "running c s"
  shows "good c s f (wait H s c p f)"
proof (unfold wait_def Let_def, (intro peel_good; (rule good_Err [OF run])?), goal_cases)
  case (2 _ n b x k q')
  then have nt: "pool_get (ks_notifications s) (notification_ix n) = Some x" "ntfn_signals x = 0"
    and hr: "has_ready s" by auto
  from wait_leaves(1) [OF laws run nt hr 2(6)] wait_leaves(2) [OF laws run nt hr 2(6) refl, of f]
  show ?case by auto
qed (auto intro!: consume_good [OF run])

end
