(* ===== verification/CNodeInvoke.thy ===== *)
theory CNodeInvoke
  imports State
begin

text \<open>
  \<open>src/cnode.rs\<close>: \<open>CNodeInvoke\<close>'s \<open>Mint\<close>, \<open>Copy\<close>, \<open>Move\<close>, \<open>Delete\<close>, \<open>CopyCross\<close> and
  the refused \<open>Revoke\<close>. Every operation either changes CNode slots or fails with the state
  unchanged, so the inner ones return an error or the new state.
\<close>

definition LABEL_MINT :: u32 where "LABEL_MINT = 1"
definition LABEL_COPY :: u32 where "LABEL_COPY = 2"
definition LABEL_MOVE :: u32 where "LABEL_MOVE = 3"
definition LABEL_DELETE :: u32 where "LABEL_DELETE = 4"
definition LABEL_REVOKE :: u32 where "LABEL_REVOKE = 5"
definition LABEL_COPY_CROSS :: u32 where "LABEL_COPY_CROSS = 6"

lemmas cnode_labels = LABEL_MINT_def LABEL_COPY_def LABEL_MOVE_def LABEL_DELETE_def
  LABEL_REVOKE_def LABEL_COPY_CROSS_def

text \<open>\<open>*cnode.slot_mut(i) = cap\<close> in the CNode of the pool.\<close>

definition write_slot ::
  "('b, 'h) kernel_state \<Rightarrow> cnode_id \<Rightarrow> usize \<Rightarrow> capability \<Rightarrow> ('b, 'h) kernel_state" where
  "write_slot s target i cap =
     s\<lparr>ks_cnodes := pool_modify (ks_cnodes s) (cnode_ix target) (\<lambda>c. cnode_put c i cap)\<rparr>"

fun attenuate :: "capability \<Rightarrow> rights \<Rightarrow> u64 \<Rightarrow> syscall_error + capability" where
  "attenuate (UntypedCap i _) r b = Inr (UntypedCap i r)"
| "attenuate (EndpointCap i _ _) r b = Inr (EndpointCap i b r)"
| "attenuate (NotificationCap i _ _) r b = Inr (NotificationCap i b r)"
| "attenuate (TcbCap i _) r b = Inr (TcbCap i r)"
| "attenuate (SchedContextCap i _) r b = Inr (SchedContextCap i r)"
| "attenuate (VSpaceCap i _) r b = Inr (VSpaceCap i r)"
| "attenuate (FrameCap i _) r b = Inr (FrameCap i r)"
| "attenuate (CNodeCap _) r b = Inl IllegalOperation"
| "attenuate Null r b = Inl IllegalOperation"
| "attenuate (ReplyCap _) r b = Inl IllegalOperation"

definition mint ::
  "('b, 'h) kernel_state \<Rightarrow> cnode_id \<Rightarrow> usize \<Rightarrow> usize \<Rightarrow> usize
    \<Rightarrow> syscall_error + ('b, 'h) kernel_state" where
  "mint s target src dest packed =
     (let new_rights = from_bits_truncate (ucast (packed AND 255));
          b = drop_bit 8 packed in
      case ok_or (pool_get (ks_cnodes s) (cnode_ix target)) InvalidCapability of Inl e \<Rightarrow> Inl e
      | Inr cnode \<Rightarrow>
     (case ok_or (cnode_get cnode src) RangeError of Inl e \<Rightarrow> Inl e | Inr source_cap \<Rightarrow>
      if source_cap = Null then Inl InvalidCapability
      else if \<not> is_subset_of new_rights (cap_rights source_cap) then Inl IllegalOperation
      else
     (case attenuate source_cap new_rights b of Inl e \<Rightarrow> Inl e | Inr minted \<Rightarrow>
     (case ok_or (cnode_get cnode dest) RangeError of Inl e \<Rightarrow> Inl e | Inr dest_slot \<Rightarrow>
      if dest_slot \<noteq> Null then Inl IllegalOperation
      else Inr (write_slot s target dest minted)))))"

definition copy ::
  "('b, 'h) kernel_state \<Rightarrow> cnode_id \<Rightarrow> usize \<Rightarrow> usize
    \<Rightarrow> syscall_error + ('b, 'h) kernel_state" where
  "copy s target src dest =
     (case ok_or (pool_get (ks_cnodes s) (cnode_ix target)) InvalidCapability of Inl e \<Rightarrow> Inl e
      | Inr cnode \<Rightarrow>
     (case ok_or (cnode_get cnode src) RangeError of Inl e \<Rightarrow> Inl e | Inr source_cap \<Rightarrow>
      if source_cap = Null then Inl InvalidCapability
      else
     (case ok_or (cnode_get cnode dest) RangeError of Inl e \<Rightarrow> Inl e | Inr dest_slot \<Rightarrow>
      if dest_slot \<noteq> Null then Inl IllegalOperation
      else Inr (write_slot s target dest source_cap))))"

text \<open>The \<open>expect\<close> on the source slot is on a slot that was read above.\<close>

definition move_cap ::
  "('b, 'h) kernel_state \<Rightarrow> cnode_id \<Rightarrow> usize \<Rightarrow> usize
    \<Rightarrow> syscall_error + ('b, 'h) kernel_state" where
  "move_cap s target src dest =
     (case ok_or (pool_get (ks_cnodes s) (cnode_ix target)) InvalidCapability of Inl e \<Rightarrow> Inl e
      | Inr cnode \<Rightarrow>
     (case ok_or (cnode_get cnode src) RangeError of Inl e \<Rightarrow> Inl e | Inr source_cap \<Rightarrow>
      if source_cap = Null then Inl InvalidCapability
      else
     (case ok_or (cnode_get cnode dest) RangeError of Inl e \<Rightarrow> Inl e | Inr dest_slot \<Rightarrow>
      if dest_slot \<noteq> Null then Inl IllegalOperation
      else Inr (write_slot (write_slot s target dest source_cap) target src Null))))"

definition delete ::
  "('b, 'h) kernel_state \<Rightarrow> cnode_id \<Rightarrow> usize \<Rightarrow> syscall_error + ('b, 'h) kernel_state" where
  "delete s target src =
     (case ok_or (pool_get (ks_cnodes s) (cnode_ix target)) InvalidCapability of Inl e \<Rightarrow> Inl e
      | Inr cnode \<Rightarrow>
     (case ok_or (cnode_get cnode src) RangeError of Inl e \<Rightarrow> Inl e | Inr slot \<Rightarrow>
      if slot = Null then Inl InvalidCapability
      else Inr (write_slot s target src Null)))"

definition copy_cross ::
  "('b, 'h) kernel_state \<Rightarrow> tcb_id \<Rightarrow> cnode_id \<Rightarrow> cptr \<Rightarrow> usize \<Rightarrow> usize
    \<Rightarrow> syscall_error + ('b, 'h) kernel_state" where
  "copy_cross s current target source_cnode source_slot dest =
     (case lookup_cap s current source_cnode of
        Inl e \<Rightarrow> Inl e
      | Inr (CNodeCap source_id) \<Rightarrow>
     (case ok_or (pool_get (ks_cnodes s) (cnode_ix source_id)) InvalidCapability of Inl e \<Rightarrow> Inl e
      | Inr src_cnode \<Rightarrow>
     (case ok_or (cnode_get src_cnode source_slot) RangeError of Inl e \<Rightarrow> Inl e | Inr source_cap \<Rightarrow>
      if source_cap = Null then Inl InvalidCapability
      else
     (case ok_or (pool_get (ks_cnodes s) (cnode_ix target)) InvalidCapability of Inl e \<Rightarrow> Inl e
      | Inr target_cnode \<Rightarrow>
     (case ok_or (cnode_get target_cnode dest) RangeError of Inl e \<Rightarrow> Inl e | Inr dest_slot \<Rightarrow>
      if dest_slot \<noteq> Null then Inl IllegalOperation
      else Inr (write_slot s target dest source_cap)))))
      | Inr _ \<Rightarrow> Inl InvalidCapability)"

definition cnode_invoke ::
  "('f, 'w::len word, 'h, 'p) hal \<Rightarrow> ('w word, 'h) kernel_state \<Rightarrow> tcb_id \<Rightarrow> cptr \<Rightarrow> 'f
    \<Rightarrow> (('w word, 'h) kernel_state, 'f) outcome" where
  "cnode_invoke H s current cptr frame =
     (case lookup_cap s current cptr of
        Inl e \<Rightarrow> Err e s frame
      | Inr (CNodeCap target) \<Rightarrow>
          (let label = tag_label (h_tag H frame);
               src = h_mr H frame 1;
               dest = h_mr H frame 2;
               arg3 = h_mr H frame 3;
               result =
                 (if label = LABEL_MINT then mint s target src dest arg3
                  else if label = LABEL_COPY then copy s target src dest
                  else if label = LABEL_MOVE then move_cap s target src dest
                  else if label = LABEL_DELETE then delete s target src
                  else if label = LABEL_COPY_CROSS then copy_cross s current target src dest arg3
                  else if label = LABEL_REVOKE then Inl IllegalOperation
                  else Inl InvalidArgument)
           in case result of
                Inl e \<Rightarrow> Err e s frame
              | Inr s' \<Rightarrow> Ok s' (reply_success H frame))
      | Inr _ \<Rightarrow> Err InvalidCapability s frame)"

end
