(* ===== verification/CNodeCorrect.thy ===== *)
theory CNodeCorrect
  imports IpcCorrect CNodeInvoke
begin

text \<open>
  \<open>CNodeInvoke\<close> against the invariant, and what each of its operations writes: \<open>Mint\<close> only
  attenuates, \<open>Copy\<close> and \<open>CopyCross\<close> duplicate, \<open>Move\<close> moves, \<open>Delete\<close> empties, and no
  operation overwrites an occupied slot.
\<close>

section \<open>Writing one slot\<close>

lemma write_slot_fields [simp]:
  "ks_tcbs (write_slot s i j cap) = ks_tcbs s"
  "ks_endpoints (write_slot s i j cap) = ks_endpoints s"
  "ks_notifications (write_slot s i j cap) = ks_notifications s"
  "ks_scheduler (write_slot s i j cap) = ks_scheduler s"
  "ks_hw (write_slot s i j cap) = ks_hw s"
  by (simp_all add: write_slot_def)

lemma threads_of_write_slot [observe]: "threads_of (write_slot s i j cap) = threads_of s"
  by (rule threads_of_cong) simp_all

lemma wf_write_slot [wf_rules]: "state_wf s \<Longrightarrow> state_wf (write_slot s i j cap)"
  by (simp add: write_slot_def wf_cnode_put)

lemma slot_cap_write:
  "slot_cap (write_slot s i j cap) i' j'
     = (if i = i' \<and> j = j' \<and> slot_cap s i j \<noteq> None then Some cap else slot_cap s i' j')"
  by (simp add: write_slot_def slot_cap_put)

lemma slot_cap_mem: "slot_cap s i j = Some c \<Longrightarrow> c \<noteq> Null \<Longrightarrow> c \<in> caps_of s"
  by (auto simp: caps_of_def stored_caps_def)

lemma quiet_write_slot [quiet_rules]:
  "quiet s0 s \<Longrightarrow> cap \<in> caps_of s0 \<or> cap = Null \<Longrightarrow> quiet s0 (write_slot s i j cap)"
  by (simp add: write_slot_def quiet_cnode_put)

lemma object_exists_write_slot [simp]: "object_exists (write_slot s i j cap) r = object_exists s r"
  by (cases r) (simp_all add: write_slot_def)

lemma authority_write_slot:
  assumes "c0 \<in> caps_of s" and "cap_le cap c0"
  shows "authority_step s (write_slot s i j cap)"
proof -
  have "stored_caps (write_slot s i j cap) \<subseteq> insert cap (stored_caps s)"
    by (auto simp: stored_caps_def slot_cap_write split: if_splits)
  then have "caps_of (write_slot s i j cap) \<subseteq> insert cap (caps_of s)"
    by (auto simp: caps_of_def observe)
  moreover have "cspaces (write_slot s i j cap) = cspaces s" by (rule cspaces_cong) simp
  ultimately show ?thesis using assms by (auto simp: authority_step_def derived_def)
qed

section \<open>What each operation does\<close>

text \<open>\<open>Mint\<close>'s new capability: the source's object, the requested rights, the new badge.\<close>

lemma attenuate_le:
  assumes "attenuate src r b = Inr cap" and "is_subset_of r (cap_rights src)"
  shows "cap_le cap src" and "cap_rights cap = r" and "cap \<noteq> Null"
  using assms by (cases src; auto simp: cap_le_def less_eq_rights_def)+

fun cap_badge :: "capability \<Rightarrow> u64 option" where
  "cap_badge (EndpointCap _ b _) = Some b"
| "cap_badge (NotificationCap _ b _) = Some b"
| "cap_badge _ = None"

lemma attenuate_badge: "attenuate src r b = Inr cap \<Longrightarrow> cap_badge cap = map_option (\<lambda>_. b) (cap_badge src)"
  by (cases src) auto

lemma attenuate_total:
  "src \<noteq> Null \<Longrightarrow> src \<notin> range CNodeCap \<union> range ReplyCap \<Longrightarrow> \<exists>cap. attenuate src r b = Inr cap"
  by (cases src) auto

lemma mint_Inr:
  assumes "mint s i src dest packed = Inr s'"
  obtains c cap where "slot_cap s i src = Some c" and "c \<noteq> Null" and "slot_cap s i dest = Some Null"
    and "is_subset_of (from_bits_truncate (ucast (packed AND 255))) (cap_rights c)"
    and "attenuate c (from_bits_truncate (ucast (packed AND 255))) (drop_bit 8 packed) = Inr cap"
    and "s' = write_slot s i dest cap"
  using assms by (auto simp: mint_def slot_cap_def Let_def ok_or_def split: option.splits sum.splits if_splits)

lemma copy_Inr:
  assumes "copy s i src dest = Inr s'"
  obtains c where "slot_cap s i src = Some c" and "c \<noteq> Null" and "slot_cap s i dest = Some Null"
    and "s' = write_slot s i dest c"
  using assms by (auto simp: copy_def slot_cap_def ok_or_def split: option.splits sum.splits if_splits)

lemma move_cap_Inr:
  assumes "move_cap s i src dest = Inr s'"
  obtains c where "slot_cap s i src = Some c" and "c \<noteq> Null" and "slot_cap s i dest = Some Null"
    and "s' = write_slot (write_slot s i dest c) i src Null"
  using assms by (auto simp: move_cap_def slot_cap_def ok_or_def split: option.splits sum.splits if_splits)

lemma delete_Inr:
  assumes "delete s i src = Inr s'"
  obtains c where "slot_cap s i src = Some c" and "c \<noteq> Null" and "s' = write_slot s i src Null"
  using assms by (auto simp: delete_def slot_cap_def ok_or_def split: option.splits sum.splits if_splits)

lemma copy_cross_Inr:
  assumes "copy_cross s t i p src dest = Inr s'"
  obtains k c where "lookup_cap s t p = Inr (CNodeCap k)" and "slot_cap s k src = Some c" and "c \<noteq> Null"
    and "slot_cap s i dest = Some Null" and "s' = write_slot s i dest c"
  using assms by (auto simp: copy_cross_def slot_cap_def ok_or_def
      split: option.splits sum.splits if_splits capability.splits)

section \<open>The handler\<close>

lemma quiet_good:
  assumes "running c s" and "threads_of s' = threads_of s" and "state_wf s'" and "authority_step s s'"
  shows "good c s f (Ok s' f')"
  using assms by (simp add: good_Ok sound_Ok tstep.Stay)

lemma write_good:
  assumes run: "running c s" and cap: "cap \<in> caps_of s \<or> cap = Null"
  shows "good c s f (Ok (write_slot s i j cap) f')"
  using runningD(1) [OF run] cap
  by (intro quiet_good [OF run] quiet_authority quiet_rules) (auto simp: observe wf_rules)

lemma mint_good:
  assumes run: "running c s" and "mint s i src dest packed = Inr s'"
  shows "good c s f (Ok s' f')"
  using assms(2)
proof (rule mint_Inr)
  fix c0 cap
  assume "slot_cap s i src = Some c0" "c0 \<noteq> Null"
    and "is_subset_of (from_bits_truncate (ucast (packed AND 255))) (cap_rights c0)"
    and "attenuate c0 (from_bits_truncate (ucast (packed AND 255))) (drop_bit 8 packed) = Inr cap"
    and s': "s' = write_slot s i dest cap"
  then have "authority_step s s'"
    using authority_write_slot [of c0 s cap] slot_cap_mem [of s i src c0] attenuate_le(1) by auto
  then show ?thesis
    using runningD(1) [OF run] s' by (intro quiet_good [OF run]) (auto simp: observe wf_rules)
qed

lemma copy_good: "running c s \<Longrightarrow> copy s i src dest = Inr s' \<Longrightarrow> good c s f (Ok s' f')"
  by (erule copy_Inr) (auto intro: write_good slot_cap_mem)

lemma delete_good: "running c s \<Longrightarrow> delete s i src = Inr s' \<Longrightarrow> good c s f (Ok s' f')"
  by (erule delete_Inr) (auto intro: write_good)

lemma copy_cross_good: "running c s \<Longrightarrow> copy_cross s t i p src dest = Inr s' \<Longrightarrow> good c s f (Ok s' f')"
  by (erule copy_cross_Inr) (auto intro: write_good slot_cap_mem)

lemma move_good:
  assumes run: "running c s" and "move_cap s i src dest = Inr s'"
  shows "good c s f (Ok s' f')"
  using assms(2)
proof (rule move_cap_Inr)
  fix c0
  assume c0: "slot_cap s i src = Some c0" "c0 \<noteq> Null"
    and s': "s' = write_slot (write_slot s i dest c0) i src Null"
  have "quiet s s'" unfolding s' using slot_cap_mem [OF c0] by (intro quiet_rules) auto
  then show ?thesis
    using runningD(1) [OF run] s' by (intro quiet_good [OF run] quiet_authority) (auto simp: observe wf_rules)
qed

lemmas cnode_goods = mint_good copy_good move_good delete_good copy_cross_good

lemma peel_capability:
  "(\<And>i. c = CNodeCap i \<Longrightarrow> P (A i)) \<Longrightarrow> P B \<Longrightarrow> P (case c of CNodeCap i \<Rightarrow> A i | _ \<Rightarrow> B)"
  "(\<And>i r. c = UntypedCap i r \<Longrightarrow> P (C i r)) \<Longrightarrow> P B \<Longrightarrow> P (case c of UntypedCap i r \<Rightarrow> C i r | _ \<Rightarrow> B)"
  "(\<And>i r. c = TcbCap i r \<Longrightarrow> P (C' i r)) \<Longrightarrow> P B \<Longrightarrow> P (case c of TcbCap i r \<Rightarrow> C' i r | _ \<Rightarrow> B)"
  "(\<And>i r. c = SchedContextCap i r \<Longrightarrow> P (D i r)) \<Longrightarrow> P B \<Longrightarrow> P (case c of SchedContextCap i r \<Rightarrow> D i r | _ \<Rightarrow> B)"
  "(\<And>i r. c = FrameCap i r \<Longrightarrow> P (E i r)) \<Longrightarrow> P B \<Longrightarrow> P (case c of FrameCap i r \<Rightarrow> E i r | _ \<Rightarrow> B)"
  by (auto split: capability.split)

lemmas peel_good_cap = peel_capability [where P = "good c s f" for c s f]
lemmas peel_on_ok_cap = peel_capability [where P = "on_ok Q" for Q]
lemmas peel_sound_cap = peel_capability [where P = "sound c s f" for c s f]

theorem cnode_invoke_good:
  assumes run: "running c s"
  shows "good c s f (cnode_invoke H s c p f)"
proof (unfold cnode_invoke_def Let_def, (intro peel_good peel_good_cap; (rule good_Err [OF run])?), goal_cases)
qed (auto simp: run split: if_splits intro: cnode_goods)

end
