(* ===== verification/Admin.thy ===== *)
theory Admin
  imports State
begin

text \<open>
  \<open>src/admin.rs\<close>: \<open>UntypedRetype\<close> and \<open>TCBConfigure\<close>.
\<close>

section \<open>UntypedRetype\<close>

text \<open>
  The \<open>match object_type\<close> of \<open>untyped_retype\<close>: the capability to the new object and the
  state, or an early return. An early return keeps what was already allocated, so the error
  carries the state as well. \<open>None\<close> is a panic (\<open>expect\<close>, or the overflow in \<open>bump\<close>).
\<close>

definition retype_object ::
  "('f, 'b::zero, 'h, 'p) hal \<Rightarrow> ('b, 'h) kernel_state \<Rightarrow> untyped_id \<Rightarrow> object_type
    \<Rightarrow> ((syscall_error + capability) \<times> ('b, 'h) kernel_state) option" where
  "retype_object H s uid ot =
     (case ot of
        OT_CNode \<Rightarrow>
          (case pool_alloc (ks_cnodes s) cnode_empty of
             None \<Rightarrow> Some (Inl NotEnoughMemory, s)
           | Some (idx, p) \<Rightarrow> Some (Inr (CNodeCap (CNodeId (of_nat idx))), s\<lparr>ks_cnodes := p\<rparr>))
      | OT_Endpoint \<Rightarrow>
          (case pool_alloc (ks_endpoints s) endpoint_new of
             None \<Rightarrow> Some (Inl NotEnoughMemory, s)
           | Some (idx, p) \<Rightarrow>
               Some (Inr (EndpointCap (EndpointId (of_nat idx)) 0 rights_ALL), s\<lparr>ks_endpoints := p\<rparr>))
      | OT_Notification \<Rightarrow>
          (case pool_alloc (ks_notifications s) notification_new of
             None \<Rightarrow> Some (Inl NotEnoughMemory, s)
           | Some (idx, p) \<Rightarrow>
               Some (Inr (NotificationCap (NotificationId (of_nat idx)) 0 rights_ALL),
                     s\<lparr>ks_notifications := p\<rparr>))
      | OT_Tcb \<Rightarrow>
          (case pool_alloc (ks_tcbs s) (tcb_new H) of
             None \<Rightarrow> Some (Inl NotEnoughMemory, s)
           | Some (idx, p) \<Rightarrow> Some (Inr (TcbCap (TcbId (of_nat idx)) rights_ALL), s\<lparr>ks_tcbs := p\<rparr>))
      | OT_SchedContext \<Rightarrow>
          (case pool_alloc (ks_sched_contexts s) (scheduling_context_new 1) of
             None \<Rightarrow> Some (Inl NotEnoughMemory, s)
           | Some (idx, p) \<Rightarrow>
               Some (Inr (SchedContextCap (SchedContextId (of_nat idx)) rights_ALL),
                     s\<lparr>ks_sched_contexts := p\<rparr>))
      | OT_VSpace \<Rightarrow>
          (case kpt_alloc H (ks_page_tables s) of
             None \<Rightarrow> Some (Inl NotEnoughMemory, s)
           | Some (root, kpt) \<Rightarrow>
               (let s = s\<lparr>ks_page_tables := kpt\<rparr> in
                case pool_alloc (ks_vspaces s) \<lparr>vs_root = root\<rparr> of
                  None \<Rightarrow> Some (Inl NotEnoughMemory, s)
                | Some (idx, p) \<Rightarrow>
                    Some (Inr (VSpaceCap (VSpaceId (of_nat idx)) rights_ALL), s\<lparr>ks_vspaces := p\<rparr>)))
      | OT_Untyped \<Rightarrow> Some (Inl InvalidArgument, s)
      | _ \<Rightarrow>
          (let sz = (if ot = OT_FrameSmall then Small else Mega) in
           case pool_get (ks_untypeds s) (untyped_ix uid) of
             None \<Rightarrow> None
           | Some untyped \<Rightarrow>
               (case untyped_bump untyped (frame_size_bytes H sz) (frame_size_bytes H sz) of
                  None \<Rightarrow> None
                | Some (None, _) \<Rightarrow> Some (Inl NotEnoughMemory, s)
                | Some (Some paddr, untyped') \<Rightarrow>
                    (let s = s\<lparr>ks_untypeds :=
                               pool_modify (ks_untypeds s) (untyped_ix uid) (\<lambda>_. untyped')\<rparr> in
                     case pool_alloc (ks_frames s)
                            \<lparr>fr_paddr = paddr, fr_size = sz,
                             fr_mapped_at = replicate MAX_FRAME_MAPPINGS None\<rparr> of
                       None \<Rightarrow> Some (Inl NotEnoughMemory, s)
                     | Some (idx, p) \<Rightarrow>
                         Some (Inr (FrameCap (FrameId (of_nat idx)) rights_ALL), s\<lparr>ks_frames := p\<rparr>)))))"

text \<open>
  The final writes: \<open>expect\<close> on the CNode, its slot and the Untyped, and the decrement of
  \<open>remaining\<close>, whose underflow would be a panic too.
\<close>

definition retype_commit ::
  "('b, 'h) kernel_state \<Rightarrow> cnode_id \<Rightarrow> usize \<Rightarrow> untyped_id \<Rightarrow> capability
    \<Rightarrow> ('b, 'h) kernel_state option" where
  "retype_commit s cspace_id dest uid new_cap =
     (case pool_get (ks_cnodes s) (cnode_ix cspace_id) of
        None \<Rightarrow> None
      | Some cnode \<Rightarrow>
          if cnode_get cnode dest = None then None
          else
            (let s = s\<lparr>ks_cnodes := pool_modify (ks_cnodes s) (cnode_ix cspace_id)
                        (\<lambda>c. cnode_put c dest new_cap)\<rparr> in
             case pool_get (ks_untypeds s) (untyped_ix uid) of
               None \<Rightarrow> None
             | Some untyped \<Rightarrow>
                 if ut_remaining untyped = 0 then None
                 else Some (s\<lparr>ks_untypeds := pool_modify (ks_untypeds s) (untyped_ix uid)
                               (\<lambda>u. u\<lparr>ut_remaining := ut_remaining u - 1\<rparr>)\<rparr>)))"

definition untyped_retype ::
  "('f, 'w::len word, 'h, 'p) hal \<Rightarrow> ('w word, 'h) kernel_state \<Rightarrow> tcb_id \<Rightarrow> cptr \<Rightarrow> 'f
    \<Rightarrow> (('w word, 'h) kernel_state, 'f) outcome" where
  "untyped_retype H s current cptr frame =
     (case lookup_cap s current cptr of
        Inl e \<Rightarrow> Err e s frame
      | Inr (UntypedCap uid r) \<Rightarrow>
          if \<not> contains r rights_WRITE then Err IllegalOperation s frame
          else
     (case ok_or (object_type_from_usize (h_mr H frame 1)) InvalidArgument of
        Inl e \<Rightarrow> Err e s frame
      | Inr ot \<Rightarrow>
     (let dest = h_mr H frame 2 in
      case ok_or (pool_get (ks_untypeds s) (untyped_ix uid)) InvalidCapability of
        Inl e \<Rightarrow> Err e s frame
      | Inr untyped \<Rightarrow>
          if ut_remaining untyped = 0 then Err NotEnoughMemory s frame
          else
     (case ok_or (Option.bind (get_tcb s current) tcb_cspace) FailedLookup of
        Inl e \<Rightarrow> Err e s frame
      | Inr cspace_id \<Rightarrow>
     (case ok_or (pool_get (ks_cnodes s) (cnode_ix cspace_id)) FailedLookup of
        Inl e \<Rightarrow> Err e s frame
      | Inr cnode \<Rightarrow>
     (case ok_or (cnode_get cnode dest) RangeError of
        Inl e \<Rightarrow> Err e s frame
      | Inr dest_cap \<Rightarrow>
          if dest_cap \<noteq> Null then Err IllegalOperation s frame
          else
     (case retype_object H s uid ot of
        None \<Rightarrow> Panic
      | Some (Inl e, s') \<Rightarrow> Err e s' frame
      | Some (Inr new_cap, s') \<Rightarrow>
          (case retype_commit s' cspace_id dest uid new_cap of
             None \<Rightarrow> Panic
           | Some s'' \<Rightarrow> Ok s'' (reply_success H frame))))))))
      | Inr _ \<Rightarrow> Err InvalidCapability s frame)"

section \<open>TCBConfigure\<close>

text \<open>The optional fourth argument: 0 for no address space, or a VSpace capability.\<close>

definition resolve_address_space ::
  "('b, 'h) kernel_state \<Rightarrow> tcb_id \<Rightarrow> usize \<Rightarrow> syscall_error + usize option" where
  "resolve_address_space s current vspace_arg =
     (if vspace_arg = 0 then Inr None
      else
        (case lookup_cap s current vspace_arg of
           Inl e \<Rightarrow> Inl e
         | Inr (VSpaceCap vid r) \<Rightarrow>
             if contains r rights_WRITE
             then (case ok_or (pool_get (ks_vspaces s) (vspace_ix vid)) InvalidCapability of
                     Inl e \<Rightarrow> Inl e
                   | Inr vspace \<Rightarrow> Inr (Some (vs_root vspace)))
             else Inl IllegalOperation
         | Inr _ \<Rightarrow> Inl InvalidCapability))"

definition configure ::
  "('f, 'w::len word, 'h, 'p) hal \<Rightarrow> ('w word, 'h) kernel_state \<Rightarrow> tcb_id \<Rightarrow> cptr \<Rightarrow> 'f
    \<Rightarrow> (('w word, 'h) kernel_state, 'f) outcome" where
  "configure H s current cptr frame =
     (case lookup_cap s current cptr of
        Inl e \<Rightarrow> Err e s frame
      | Inr (TcbCap target r) \<Rightarrow>
          if \<not> contains r rights_WRITE then Err IllegalOperation s frame
          else
     (case lookup_cap s current (h_mr H frame 1) of
        Inl e \<Rightarrow> Err e s frame
      | Inr (CNodeCap cspace_id) \<Rightarrow>
     (case lookup_cap s current (h_mr H frame 2) of
        Inl e \<Rightarrow> Err e s frame
      | Inr (SchedContextCap sched_id _) \<Rightarrow>
     (case resolve_address_space s current (h_mr H frame 3) of
        Inl e \<Rightarrow> Err e s frame
      | Inr address_space \<Rightarrow>
     (case ok_or (get_tcb s target) InvalidCapability of
        Inl e \<Rightarrow> Err e s frame
      | Inr tcb \<Rightarrow>
          (let was_inactive = (tcb_state tcb = Inactive);
               s = update_tcb s target (\<lambda>tcb. tcb\<lparr>tcb_cspace := Some cspace_id,
                     tcb_sched_context := Some sched_id, tcb_address_space := address_space\<rparr>);
               s = (if was_inactive then make_ready s target else s)
           in Ok s (reply_success H frame))))
      | Inr _ \<Rightarrow> Err InvalidCapability s frame)
      | Inr _ \<Rightarrow> Err InvalidCapability s frame)
      | Inr _ \<Rightarrow> Err InvalidCapability s frame)"

end
