(* ===== verification/AdminCorrect.thy ===== *)
theory AdminCorrect
  imports CNodeCorrect Admin
begin

text \<open>
  \<open>UntypedRetype\<close> and \<open>TCBConfigure\<close> against the invariant. A retype that succeeds adds one
  object that did not exist and stores the only capability to it in a slot that was empty;
  a configure changes one thread's roots and admits it to the ready queue at most once.
\<close>

section \<open>Allocation in the pools\<close>

lemma unat_u16_iff: "i < 65536 \<Longrightarrow> unat (x :: u16) = i \<longleftrightarrow> x = of_nat i"
  by (auto simp: word_unat_eq_iff)

text \<open>\<open>pool_alloc\<close> read through identifiers: the new object is at the new identifier only.\<close>

lemma pool_alloc_ids:
  assumes "pool_wf N p" and "pool_alloc p v = Some (i, p')" and "N \<le> 65536"
  shows "pool_get p (unat (of_nat i :: u16)) = None" and "pool_wf N p'"
    and "pool_get p' (unat x) = (if x = (of_nat i :: u16) then Some v else pool_get p (unat x))"
proof -
  note A = pool_alloc_Some [OF assms(1,2)]
  then have i: "i < 65536" using assms(3) by linarith
  then show "pool_get p (unat (of_nat i :: u16)) = None" and "pool_wf N p'" using A by simp_all
  show "pool_get p' (unat x) = (if x = (of_nat i :: u16) then Some v else pool_get p (unat x))"
    using A unat_u16_iff [OF i, of x] by auto
qed

lemma id_raw_eq:
  "(cnode_raw a = w) = (a = CNodeId w)" "(tcb_raw b = w) = (b = TcbId w)"
  "(endpoint_raw c = w) = (c = EndpointId w)" "(notification_raw d = w) = (d = NotificationId w)"
  "(untyped_raw e = w) = (e = UntypedId w)" "(sched_context_raw g = w) = (g = SchedContextId w)"
  "(vspace_raw h = w) = (h = VSpaceId w)" "(frame_raw k = w) = (k = FrameId w)"
  by (cases a, simp, cases b, simp, cases c, simp, cases d, simp, cases e, simp, cases g, simp,
      cases h, simp, cases k, simp)

text \<open>What a successful retype has done before it stores the new capability.\<close>

definition fresh_object :: "('b, 'h) kernel_state \<Rightarrow> ('b, 'h) kernel_state \<Rightarrow> capability \<Rightarrow> bool" where
  "fresh_object s s' cap \<longleftrightarrow> state_wf s'
     \<and> (\<exists>r. cap_object cap = Some r \<and> \<not> object_exists s r \<and> object_exists s' r)
     \<and> (\<forall>r. object_exists s r \<longrightarrow> object_exists s' r)
     \<and> stored_caps s' \<subseteq> stored_caps s \<and> cspaces s' \<subseteq> cspaces s
     \<and> (\<forall>i j c. slot_cap s i j = Some c \<longrightarrow> slot_cap s' i j = Some c)
     \<and> (threads_of s' = threads_of s
        \<or> (\<exists>t. tv_state (threads_of s) t = None \<and> threads_of s' = shift (threads_of s) t Inactive))"

lemma pool_sizes:
  assumes "state_wf s"
  shows "pool_wf MAX_CNODES (ks_cnodes s)" and "pool_wf MAX_TCBS (ks_tcbs s)"
    and "pool_wf MAX_ENDPOINTS (ks_endpoints s)" and "pool_wf MAX_NOTIFICATIONS (ks_notifications s)"
    and "pool_wf MAX_SCHED_CONTEXTS (ks_sched_contexts s)" and "pool_wf MAX_VSPACES (ks_vspaces s)"
    and "pool_wf MAX_FRAMES (ks_frames s)" and "pool_wf MAX_UNTYPEDS (ks_untypeds s)"
  using assms by (simp_all add: state_wf_def)

lemma fresh_cnode:
  assumes wf: "state_wf s" and al: "pool_alloc (ks_cnodes s) cnode_empty = Some (i, p)"
  shows "fresh_object s (s\<lparr>ks_cnodes := p\<rparr>) (CNodeCap (CNodeId (of_nat i)))"
proof -
  let ?s' = "s\<lparr>ks_cnodes := p\<rparr>"
  have cap: "MAX_CNODES \<le> 65536" by (simp add: limits)
  note A = pool_alloc_ids [OF pool_sizes(1) [OF wf] al cap]
  have wf': "state_wf ?s'"
    using wf A(2) pool_all_alloc [OF pool_sizes(1) [OF wf] _ al, of cnode_wf]
    by (simp add: state_wf_def cnode_wf_def cnode_empty_def)
  have slots: "slot_cap ?s' k j = (if k = CNodeId (of_nat i) then cnode_get cnode_empty j else slot_cap s k j)" for k j
    by (simp add: slot_cap_def A(3) id_raw_eq)
  have none: "slot_cap s (CNodeId (of_nat i)) j = None" for j using A(1) by (simp add: slot_cap_def)
  have st: "stored_caps ?s' \<subseteq> stored_caps s"
    by (auto simp: stored_caps_def slots cnode_get_empty split: if_splits)
  have ex: "object_exists s r \<longrightarrow> object_exists ?s' r" for r by (cases r) (auto simp: A(3))
  show ?thesis unfolding fresh_object_def
    using wf' st ex A slots none cspaces_cong [of ?s' s]
    by (auto simp: observe split: if_splits)
qed

lemma fresh_other:
  assumes "ks_cnodes s' = ks_cnodes s" and "ks_tcbs s' = ks_tcbs s" and "state_wf s'"
    and "threads_of s' = threads_of s" and "cap_object cap = Some r" and "\<not> object_exists s r" and "object_exists s' r"
    and "\<And>r. object_exists s r \<Longrightarrow> object_exists s' r"
  shows "fresh_object s s' cap"
  using assms stored_caps_cong [of s' s] cspaces_cong [of s' s] by (simp add: fresh_object_def slot_cap_def)

lemma fresh_endpoint:
  assumes wf: "state_wf s" and al: "pool_alloc (ks_endpoints s) endpoint_new = Some (i, p)"
  shows "fresh_object s (s\<lparr>ks_endpoints := p\<rparr>) (EndpointCap (EndpointId (of_nat i)) b r)"
proof -
  let ?s' = "s\<lparr>ks_endpoints := p\<rparr>"
  have cap: "MAX_ENDPOINTS \<le> 65536" by (simp add: limits)
  note A = pool_alloc_ids [OF pool_sizes(3) [OF wf] al cap]
  have wf': "state_wf ?s'"
    using wf A(2) pool_all_alloc [OF pool_sizes(3) [OF wf] _ al, of "\<lambda>e. endpoint_queue_wf (ep_queue e)"]
    by (simp add: state_wf_def endpoint_new_def)
  have "wait_list ?s' q = wait_list s q" for q
    using A(1) by (cases q) (auto simp: A(3) endpoint_new_def)
  then have "threads_of ?s' = threads_of s"
    by (intro threads_of_eqI) (simp_all add: signals_cong [of ?s' s])
  moreover have "object_exists s r \<Longrightarrow> object_exists ?s' r" for r by (cases r) (auto simp: A(3))
  ultimately show ?thesis
    using wf' A by (intro fresh_other [where r = "REndpoint (EndpointId (of_nat i))"]) auto
qed

lemma fresh_notification:
  assumes wf: "state_wf s" and al: "pool_alloc (ks_notifications s) notification_new = Some (i, p)"
  shows "fresh_object s (s\<lparr>ks_notifications := p\<rparr>) (NotificationCap (NotificationId (of_nat i)) b r)"
proof -
  let ?s' = "s\<lparr>ks_notifications := p\<rparr>"
  have cap: "MAX_NOTIFICATIONS \<le> 65536" by (simp add: limits)
  note A = pool_alloc_ids [OF pool_sizes(4) [OF wf] al cap]
  have wf': "state_wf ?s'"
    using wf A(2) queue_wf_new pool_all_alloc [OF pool_sizes(4) [OF wf] _ al, of "\<lambda>n. queue_wf (ntfn_waiters n)"]
    by (simp add: state_wf_def notification_new_def)
  have "wait_list ?s' q = wait_list s q" for q
    using A(1) by (cases q) (auto simp: A(3) notification_new_def aq.elems_empty)
  moreover have "tv_signals (threads_of ?s') n = tv_signals (threads_of s) n" for n
    using A(1) by (auto simp: threads_of_def A(3) notification_new_def)
  ultimately have "threads_of ?s' = threads_of s" by (intro threads_of_eqI) simp_all
  moreover have "object_exists s r \<Longrightarrow> object_exists ?s' r" for r by (cases r) (auto simp: A(3))
  ultimately show ?thesis
    using wf' A by (intro fresh_other [where r = "RNotification (NotificationId (of_nat i))"]) auto
qed

lemma fresh_sched_context:
  assumes wf: "state_wf s" and al: "pool_alloc (ks_sched_contexts s) v = Some (i, p)"
  shows "fresh_object s (s\<lparr>ks_sched_contexts := p\<rparr>) (SchedContextCap (SchedContextId (of_nat i)) r)"
proof -
  let ?s' = "s\<lparr>ks_sched_contexts := p\<rparr>"
  have cap: "MAX_SCHED_CONTEXTS \<le> 65536" by (simp add: limits)
  note A = pool_alloc_ids [OF pool_sizes(5) [OF wf] al cap]
  have wf': "state_wf ?s'" using wf A(2) by (simp add: state_wf_def)
  have "object_exists s r \<Longrightarrow> object_exists ?s' r" for r by (cases r) (auto simp: A(3))
  then show ?thesis
    using wf' A by (intro fresh_other [where r = "RSchedContext (SchedContextId (of_nat i))"]) (auto simp: observe)
qed

lemma fresh_tcb:
  assumes wf: "state_wf s" and ok: "queued_once (threads_of s)" and laws: "frame_laws H"
    and al: "pool_alloc (ks_tcbs s) (tcb_new H) = Some (i, p)"
  shows "fresh_object s (s\<lparr>ks_tcbs := p\<rparr>) (TcbCap (TcbId (of_nat i)) r)"
proof -
  let ?s' = "s\<lparr>ks_tcbs := p\<rparr>" and ?t = "TcbId (of_nat i)"
  have cap: "MAX_TCBS \<le> 65536" by (simp add: limits)
  note A = pool_alloc_ids [OF pool_sizes(2) [OF wf] al cap]
  have get: "pool_get p (tcb_ix u) = (if u = ?t then Some (tcb_new H) else get_tcb s u)" for u
    by (simp add: A(3) id_raw_eq)
  have none: "get_tcb s ?t = None" using A(1) by simp
  have wf': "state_wf ?s'"
    using wf A(2) ctx_wf_zeroed [OF laws] pool_all_alloc [OF pool_sizes(2) [OF wf] _ al, of "\<lambda>t. ctx_wf (tcb_context t)"]
    by (simp add: state_wf_def tcb_new_def)
  have list: "wait_list ?s' q = wait_list s q" for q by (cases q) simp_all
  have ex: "object_exists s r \<longrightarrow> object_exists ?s' r" for r by (cases r) (auto simp: A(3))
  have "Option.bind (get_tcb ?s' t) tcb_cspace = Option.bind (get_tcb s t) tcb_cspace" for t
    using none by (simp add: get tcb_new_def)
  then have cs: "cspaces ?s' \<subseteq> cspaces s" unfolding cspaces_def by simp
  have "threads_of ?s' = (threads_of s)\<lparr>tv_state := (tv_state (threads_of s))(?t \<mapsto> Inactive)\<rparr>"
    using none by (intro threads_of_eqI) (auto simp: get list tcb_new_def signals_cong [of ?s' s])
  also have "\<dots> = shift (threads_of s) ?t Inactive"
  proof (rule shift_idle_view(2) [symmetric])
    show "queued_once (threads_of s)" by (rule ok)
    show "Option.bind (tv_state (threads_of s) ?t) place_of = None" using none by simp
  qed simp
  finally have view: "threads_of ?s' = shift (threads_of s) ?t Inactive" .
  show ?thesis unfolding fresh_object_def
  proof (intro conjI)
    show "\<exists>q. cap_object (TcbCap ?t r) = Some q \<and> \<not> object_exists s q \<and> object_exists ?s' q"
      using none by (simp add: A(3))
    show "threads_of ?s' = threads_of s \<or>
        (\<exists>t. tv_state (threads_of s) t = None \<and> threads_of ?s' = shift (threads_of s) t Inactive)"
      using view none by (intro disjI2 exI [of _ ?t]) simp
  qed (use wf' ex cs stored_caps_cong [of ?s' s] in \<open>auto simp: slot_cap_def\<close>)
qed

lemma fresh_vspace:
  assumes wf: "state_wf s" and al: "pool_alloc (ks_vspaces s) v = Some (i, p)" and k: "kpt_wf k"
  shows "fresh_object s (s\<lparr>ks_page_tables := k, ks_vspaces := p\<rparr>) (VSpaceCap (VSpaceId (of_nat i)) r)"
proof -
  let ?s' = "s\<lparr>ks_page_tables := k, ks_vspaces := p\<rparr>"
  have cap: "MAX_VSPACES \<le> 65536" by (simp add: limits)
  note A = pool_alloc_ids [OF pool_sizes(6) [OF wf] al cap]
  have wf': "state_wf ?s'" using wf A(2) k by (simp add: state_wf_def)
  have "object_exists s r \<Longrightarrow> object_exists ?s' r" for r by (cases r) (auto simp: A(3))
  then show ?thesis
    using wf' A by (intro fresh_other [where r = "RVSpace (VSpaceId (of_nat i))"]) (auto simp: observe)
qed

lemma fresh_frame:
  assumes wf: "state_wf s" and al: "pool_alloc (ks_frames s) v = Some (i, p)" and v: "frame_wf v"
    and u: "ut_wf u"
  shows "fresh_object s (s\<lparr>ks_untypeds := pool_modify (ks_untypeds s) k (\<lambda>_. u), ks_frames := p\<rparr>)
           (FrameCap (FrameId (of_nat i)) r)"
proof -
  let ?s' = "s\<lparr>ks_untypeds := pool_modify (ks_untypeds s) k (\<lambda>_. u), ks_frames := p\<rparr>"
  have cap: "MAX_FRAMES \<le> 65536" by (simp add: limits)
  note A = pool_alloc_ids [OF pool_sizes(7) [OF wf] al cap]
  have wf': "state_wf ?s'"
    using wf A(2) u pool_all_alloc [OF pool_sizes(7) [OF wf] _ al, of frame_wf] v
    by (auto simp: state_wf_def pool_wf_modify intro: pool_all_modify)
  have "object_exists s r \<Longrightarrow> object_exists ?s' r" for r by (cases r) (auto simp: A(3))
  then show ?thesis
    using wf' A by (intro fresh_other [where r = "RFrame (FrameId (of_nat i))"]) (auto simp: observe)
qed

section \<open>The whole \<open>match object_type\<close>\<close>

lemma quiet_untypeds [quiet_rules]:
  "quiet s0 s \<Longrightarrow> quiet s0 (s\<lparr>ks_untypeds := pool_modify (ks_untypeds s) k f\<rparr>)"
proof -
  assume q: "quiet s0 s"
  let ?s' = "s\<lparr>ks_untypeds := pool_modify (ks_untypeds s) k f\<rparr>"
  have "object_exists ?s' r = object_exists s r" for r by (cases r) auto
  moreover have "caps_of ?s' = caps_of s" by (rule caps_of_cong) (simp_all add: observe)
  moreover have "cspaces ?s' = cspaces s" by (rule cspaces_cong) simp
  ultimately show ?thesis using q by (simp add: quiet_def)
qed

text \<open>
  A retype of a frame: the memory is bumped off the Untyped, aligned to the frame's size,
  before the pool slot is claimed.
\<close>

lemma retype_frame:
  assumes laws: "paging_laws H" and wf: "state_wf s"
    and u: "pool_get (ks_untypeds s) (untyped_ix uid) = Some u"
    and sz: "sz = (if ot = OT_FrameSmall then Small else Mega)" and ot: "ot = OT_FrameSmall \<or> ot = OT_FrameMega"
  obtains (err) e s' where "retype_object H s uid ot = Some (Inl e, s')" "state_wf s'" "threads_of s' = threads_of s" "quiet s s'"
  | (new) cap s' where "retype_object H s uid ot = Some (Inr cap, s')" "fresh_object s s' cap"
proof -
  let ?B = "frame_size_bytes H sz"
  have B: "?B = 2 ^ frame_size_log sz" by (rule frame_size_bytes_log [OF laws])
  have uw: "ut_wf u" using wf_objects(4) [OF wf u] .
  have log: "frame_size_log sz < 64" using frame_size_log_le [of sz] by linarith
  obtain r u' where b: "untyped_bump u ?B ?B = Some (r, u')"
    using untyped_bump_no_panic [OF uw frame_size_log_le [of sz]] B by force
  have uw': "ut_wf u'" using untyped_bump_wf [OF uw b [unfolded B] log] .
  show ?thesis
  proof (cases r)
    case None
    with err [of NotEnoughMemory s] ot u sz b wf show ?thesis
      by (auto simp: retype_object_def Let_def)
  next
    case (Some pa)
    let ?s1 = "s\<lparr>ks_untypeds := pool_modify (ks_untypeds s) (untyped_ix uid) (\<lambda>_. u')\<rparr>"
    let ?f = "\<lparr>fr_paddr = pa, fr_size = sz, fr_mapped_at = replicate MAX_FRAME_MAPPINGS None\<rparr>"
    obtain nx limit where mem: "ut_memory u = Some (nx, limit)"
      using b Some by (auto simp: untyped_bump_def split: option.splits)
    have fw: "frame_wf ?f"
      using untyped_bump_Some(1) [OF b [unfolded Some B] mem log] by (simp add: frame_wf_def)
    show ?thesis
    proof (cases "pool_alloc (ks_frames s) ?f")
      case None
      have "state_wf ?s1" using wf uw' by (auto simp: state_wf_def pool_wf_modify intro: pool_all_modify)
      moreover have "quiet s ?s1" by (rule quiet_untypeds [OF quiet_refl])
      ultimately show ?thesis
        using err [of NotEnoughMemory ?s1] ot u sz b Some None
        by (auto simp: retype_object_def Let_def observe)
    next
      case (Some ip)
      obtain i p where ip: "ip = (i, p)" by (cases ip)
      from new [OF _ fresh_frame [OF wf Some [unfolded ip] fw uw']] ot u sz b \<open>r = Some pa\<close> Some ip
      show ?thesis by (auto simp: retype_object_def Let_def)
    qed
  qed
qed

lemma retype_object_cases:
  assumes laws: "frame_laws H" "paging_laws H" and wf: "state_wf s" and ok: "queued_once (threads_of s)"
    and u: "pool_get (ks_untypeds s) (untyped_ix uid) = Some u"
  obtains (err) e s' where "retype_object H s uid ot = Some (Inl e, s')" "state_wf s'" "threads_of s' = threads_of s" "quiet s s'"
  | (new) cap s' where "retype_object H s uid ot = Some (Inr cap, s')" "fresh_object s s' cap"
proof (cases ot)
  case OT_CNode
  then show ?thesis using err [of NotEnoughMemory s] new fresh_cnode [OF wf] wf
    by (cases "pool_alloc (ks_cnodes s) cnode_empty") (auto simp: retype_object_def)
next
  case OT_Endpoint
  then show ?thesis using err [of NotEnoughMemory s] new fresh_endpoint [OF wf] wf
    by (cases "pool_alloc (ks_endpoints s) endpoint_new") (auto simp: retype_object_def)
next
  case OT_Notification
  then show ?thesis using err [of NotEnoughMemory s] new fresh_notification [OF wf] wf
    by (cases "pool_alloc (ks_notifications s) notification_new") (auto simp: retype_object_def)
next
  case OT_Tcb
  then show ?thesis using err [of NotEnoughMemory s] new fresh_tcb [OF wf ok laws(1)] wf
    by (cases "pool_alloc (ks_tcbs s) (tcb_new H)") (auto simp: retype_object_def)
next
  case OT_SchedContext
  then show ?thesis using err [of NotEnoughMemory s] new fresh_sched_context [OF wf] wf
    by (cases "pool_alloc (ks_sched_contexts s) (scheduling_context_new 1)") (auto simp: retype_object_def)
next
  case OT_Untyped
  then show ?thesis using err [of InvalidArgument s] wf by (simp add: retype_object_def)
next
  case OT_VSpace
  show ?thesis
  proof (cases "kpt_alloc H (ks_page_tables s)")
    case None
    with OT_VSpace err [of NotEnoughMemory s] wf show ?thesis by (simp add: retype_object_def)
  next
    case (Some rk)
    obtain root k where rk: "rk = (root, k)" by (cases rk)
    have kw: "kpt_wf k"
      using kpt_alloc_Some(5) [OF laws(2) _ Some [unfolded rk]] wf by (simp add: state_wf_def)
    let ?s1 = "s\<lparr>ks_page_tables := k\<rparr>"
    have "state_wf ?s1" using wf kw by (simp add: state_wf_def)
    moreover have "quiet s ?s1" by (rule quiet_cong(7) [OF quiet_refl])
    moreover have "threads_of ?s1 = threads_of s" by (simp add: observe)
    moreover have "retype_object H s uid ot = (case pool_alloc (ks_vspaces s) \<lparr>vs_root = root\<rparr> of
        None \<Rightarrow> Some (Inl NotEnoughMemory, ?s1)
      | Some (idx, p) \<Rightarrow> Some (Inr (VSpaceCap (VSpaceId (of_nat idx)) rights_ALL), ?s1\<lparr>ks_vspaces := p\<rparr>))"
      using OT_VSpace Some rk by (simp add: retype_object_def Let_def)
    ultimately show ?thesis
      using err [of NotEnoughMemory ?s1] new [OF _ fresh_vspace [OF wf _ kw]]
      by (cases "pool_alloc (ks_vspaces s) \<lparr>vs_root = root\<rparr>") auto
  qed
next
  case OT_FrameSmall
  show ?thesis by (rule retype_frame [OF laws(2) wf u refl disjI1 [OF OT_FrameSmall]]) (erule err new; assumption)+
next
  case OT_FrameMega
  show ?thesis by (rule retype_frame [OF laws(2) wf u refl disjI2 [OF OT_FrameMega]]) (erule err new; assumption)+
qed

section \<open>The commit and the handler\<close>

lemma fresh_commit:
  assumes fresh: "fresh_object s s1 cap" and empty: "slot_cap s i dest = Some Null"
    and u: "pool_get (ks_untypeds s1) (untyped_ix uid) = Some u" "ut_remaining u \<noteq> 0"
  obtains s2 where "retype_commit s1 i dest uid cap = Some s2" "state_wf s2"
    "threads_of s2 = threads_of s1" "authority_step s s2"
    "slot_cap s2 i dest = Some cap" "\<And>k j. (k, j) \<noteq> (i, dest) \<Longrightarrow> slot_cap s2 k j = slot_cap s1 k j"
proof -
  have slot1: "slot_cap s1 i dest = Some Null" using fresh empty by (simp add: fresh_object_def)
  then obtain cn where cn: "pool_get (ks_cnodes s1) (cnode_ix i) = Some cn" "cnode_get cn dest = Some Null"
    by (auto simp: slot_cap_def bind_eq_Some_conv)
  let ?s3 = "s1\<lparr>ks_cnodes := pool_modify (ks_cnodes s1) (cnode_ix i) (\<lambda>c. cnode_put c dest cap),
      ks_untypeds := pool_modify (ks_untypeds s1) (untyped_ix uid) (\<lambda>u. u\<lparr>ut_remaining := ut_remaining u - 1\<rparr>)\<rparr>"
  have com: "retype_commit s1 i dest uid cap = Some ?s3"
    using cn u by (simp add: retype_commit_def Let_def)
  have view: "threads_of ?s3 = threads_of s1" by (rule threads_of_cong) simp_all
  have wf3: "state_wf ?s3"
    using fresh by (auto simp: fresh_object_def state_wf_def pool_wf_modify ut_wf_def intro!: pool_all_modify)
  have slots: "slot_cap ?s3 k j = (if i = k \<and> dest = j then Some cap else slot_cap s1 k j)" for k j
    using slot_cap_put [of s1 i dest cap k j] slot1 by (auto simp: slot_cap_def)
  have st: "stored_caps ?s3 \<subseteq> insert cap (stored_caps s)"
  proof -
    have "stored_caps ?s3 \<subseteq> insert cap (stored_caps s1)"
      by (auto simp: stored_caps_def slots split: if_splits)
    with fresh show ?thesis by (auto simp: fresh_object_def)
  qed
  have fl: "flight_caps (tv_state (threads_of s1)) \<subseteq> flight_caps (tv_state (threads_of s))"
  proof -
    consider "threads_of s1 = threads_of s" | t where "threads_of s1 = shift (threads_of s) t Inactive"
      using fresh by (auto simp: fresh_object_def)
    then show ?thesis by cases (force simp: flight_caps_def split: if_splits)+
  qed
  have ex: "object_exists ?s3 r = object_exists s1 r" for r by (cases r) simp_all
  have cs: "cspaces ?s3 = cspaces s1" by (rule cspaces_cong) simp
  have auth: "authority_step s ?s3"
    unfolding authority_step_def
  proof (intro conjI ballI allI)
    fix c assume "c \<in> caps_of ?s3"
    then have "c = cap \<or> c \<in> caps_of s" using st fl by (auto simp: caps_of_def view)
    then show "derived s ?s3 c" using fresh by (auto simp: derived_def fresh_object_def ex)
  qed (use fresh in \<open>auto simp: fresh_object_def ex cs\<close>)
  show ?thesis by (rule that [OF com wf3 view auth]) (simp_all only: slots, auto)
qed

text \<open>A retype leaves the Untyped's count alone until the commit.\<close>

lemma retype_object_untyped:
  assumes "retype_object H s uid ot = Some (r, s')" and "pool_get (ks_untypeds s) (untyped_ix uid) = Some u"
  shows "\<exists>u'. pool_get (ks_untypeds s') (untyped_ix uid) = Some u' \<and> ut_remaining u' = ut_remaining u"
  using assms untyped_bump_fields(1)
  by (auto simp: retype_object_def Let_def split: object_type.splits option.splits prod.splits if_splits)

lemma retype_sound_leaf:
  assumes run: "running c s" and fresh: "fresh_object s s1 cap" and com: "retype_commit s1 i dest uid cap = Some s2"
    and empty: "slot_cap s i dest = Some Null"
    and u: "pool_get (ks_untypeds s1) (untyped_ix uid) = Some u" "ut_remaining u \<noteq> 0"
  shows "sound c s f (Ok s2 f')"
proof (rule fresh_commit [OF fresh empty u])
  fix s3
  assume "retype_commit s1 i dest uid cap = Some s3" and wf: "state_wf s3"
    and view: "threads_of s3 = threads_of s1" and auth: "authority_step s s3"
  with com have s3: "s3 = s2" by simp
  have "tstep c (threads_of s) (threads_of s1)"
    using fresh tstep.Stay [of c "threads_of s"] tstep.Create [of "threads_of s" _ c]
    unfolding fresh_object_def by metis
  with wf view auth s3 show ?thesis by (simp add: sound_Ok)
qed

theorem untyped_retype_sound:
  assumes laws: "frame_laws H" "paging_laws H" and run: "running c s"
  shows "sound c s f (untyped_retype H s c p f)"
proof (unfold untyped_retype_def Let_def, (intro peel_sound peel_sound_cap; (rule sound_Err [OF run])?), goal_cases)
  case (1 _ uid r ot u i cn dc)
  then have u: "pool_get (ks_untypeds s) (untyped_ix uid) = Some u" by simp
  show ?case
    by (rule retype_object_cases [OF laws runningD(1,3) [OF run] u, of ot]) (use 1 in simp_all)
next
  case (2 _ uid r ot u i cn dc y rr s1 e)
  then have u: "pool_get (ks_untypeds s) (untyped_ix uid) = Some u" by simp
  show ?case
    by (rule retype_object_cases [OF laws runningD(1,3) [OF run] u, of ot])
       (use 2 in \<open>auto simp: sound_def\<close>)
next
  case (3 _ uid r ot u i cn dc y rr s1 cap)
  then have u: "pool_get (ks_untypeds s) (untyped_ix uid) = Some u" and empty: "slot_cap s i (h_mr H f 2) = Some Null"
    and eq: "retype_object H s uid ot = Some (Inr cap, s1)" by (auto simp: slot_cap_def)
  obtain u' where u': "pool_get (ks_untypeds s1) (untyped_ix uid) = Some u'" "ut_remaining u' \<noteq> 0"
    using retype_object_untyped [OF eq u] 3(6) by auto
  have fresh: "fresh_object s s1 cap"
    by (rule retype_object_cases [OF laws runningD(1,3) [OF run] u, of ot]) (use eq in auto)
  show ?case by (rule fresh_commit [OF fresh empty u']) (use 3 in simp)
next
  case (4 _ uid r ot u i cn dc y rr s1 cap s2)
  then have u: "pool_get (ks_untypeds s) (untyped_ix uid) = Some u" and empty: "slot_cap s i (h_mr H f 2) = Some Null"
    and eq: "retype_object H s uid ot = Some (Inr cap, s1)" by (auto simp: slot_cap_def)
  obtain u' where u': "pool_get (ks_untypeds s1) (untyped_ix uid) = Some u'" "ut_remaining u' \<noteq> 0"
    using retype_object_untyped [OF eq u] 4(6) by auto
  have fresh: "fresh_object s s1 cap"
    by (rule retype_object_cases [OF laws runningD(1,3) [OF run] u, of ot]) (use eq in auto)
  show ?case by (rule retype_sound_leaf [OF run fresh 4(14) empty u'])
qed

section \<open>\<open>configure\<close>\<close>

lemma configure_view:
  assumes run: "running c s" and t: "get_tcb s t = Some tcb"
    and s1: "s1 = update_tcb s t (\<lambda>tcb. tcb\<lparr>tcb_cspace := Some i, tcb_sched_context := Some sc, tcb_address_space := a\<rparr>)"
  shows "threads_of s1 = threads_of s" and "tcb_state tcb = Inactive \<Longrightarrow> threads_of (make_ready s1 t) = shift (threads_of s) t Ready"
proof -
  note R = runningD [OF run]
  show view1: "threads_of s1 = threads_of s" by (simp add: s1 observe)
  have wf1: "state_wf s1" using R(1) by (simp add: s1 wf_rules)
  assume inactive: "tcb_state tcb = Inactive"
  obtain tcb1 where t1: "get_tcb s1 t = Some tcb1" "tcb_state tcb1 \<noteq> Ready" using t inactive by (simp add: s1)
  have list1: "wait_list s1 = wait_list s" using arg_cong [OF view1, of tv_queue] by simp
  have "length (wait_list s1 PReady) < MAX_TCBS"
    using ready_room [OF R(1,3) t] inactive list1 by simp
  then have "threads_of (make_ready s1 t) = (threads_of s1)\<lparr>tv_state := (tv_state (threads_of s1))(t \<mapsto> Ready),
      tv_queue := (wait_list s1)(PReady := wait_list s1 PReady @ [t])\<rparr>"
    using t1 wf_objects(7) [OF wf1] by (intro threads_of_make_ready)
  also have "\<dots> = shift (threads_of s) t Ready"
    using shift_idle_view(1) [OF R(3), of t Ready PReady] t inactive by (simp add: view1 list1)
  finally show "threads_of (make_ready s1 t) = shift (threads_of s) t Ready" .
qed

lemma configure_leaf:
  assumes run: "running c s" and t: "get_tcb s t = Some tcb"
    and cs: "CNodeCap i \<in> caps_of s"
    and s1: "s1 = update_tcb s t (\<lambda>tcb. tcb\<lparr>tcb_cspace := Some i, tcb_sched_context := Some sc, tcb_address_space := a\<rparr>)"
  shows "good c s f (Ok s1 f')" and "tcb_state tcb = Inactive \<Longrightarrow> good c s f (Ok (make_ready s1 t) f')"
proof -
  note R = runningD [OF run]
  have view1: "threads_of s1 = threads_of s" by (rule configure_view(1) [OF run t s1])
  have wf1: "state_wf s1" using R(1) by (simp add: s1 wf_rules)
  have cs1: "cspaces s1 \<subseteq> insert i (cspaces s)"
    by (auto simp: cspaces_def s1 bind_eq_Some_conv split: if_splits)
  have caps1: "caps_of s1 = caps_of s" by (rule caps_of_cong) (simp_all add: view1, simp add: s1)
  have ex1: "object_exists s1 r = object_exists s r" for r by (simp add: s1)
  have auth1: "authority_step s s1"
    using cs1 caps1 cs ex1 by (auto simp: authority_step_def derived_def)
  then show "good c s f (Ok s1 f')" using view1 wf1 by (intro quiet_good [OF run])
  assume inactive: "tcb_state tcb = Inactive"
  let ?s2 = "make_ready s1 t"
  have "threads_of ?s2 = shift (threads_of s) t Ready" by (rule configure_view(2) [OF run t s1 inactive])
  then have "tstep c (threads_of s) (threads_of ?s2)"
    using tstep.Start [of "threads_of s" t c] t inactive by simp
  moreover have q: "quiet s1 ?s2" by (rule quiet_make_ready) simp
  have "authority_step s ?s2"
    using auth1 q caps1 by (auto simp: quiet_def authority_step_def derived_def)
  ultimately show "good c s f (Ok ?s2 f')" using wf1 by (simp add: good_Ok sound_Ok wf_rules)
qed

lemma lookup_cnode_mem: "lookup_cap s t p = Inr (CNodeCap i) \<Longrightarrow> CNodeCap i \<in> caps_of s"
  by (rule lookup_cap_mem)

theorem configure_good:
  assumes run: "running c s"
  shows "good c s f (configure H s c p f)"
proof (unfold configure_def Let_def, (intro peel_good peel_good_cap; (rule good_Err [OF run])?), goal_cases)
qed (use configure_leaf [OF run _ lookup_cnode_mem refl] in \<open>auto split: if_splits\<close>)

end
