(* ===== verification/FrameInvoke.thy ===== *)
theory FrameInvoke
  imports State
begin

text \<open>
  \<open>src/frame.rs\<close>: \<open>FrameInvoke\<close>'s \<open>Map\<close> and \<open>Unmap\<close>. The page-table walks are the
  HAL's (parameters); the checks, the spare page tables and the record of mappings are here.
\<close>

definition LABEL_MAP :: u32 where "LABEL_MAP = 1"
definition LABEL_UNMAP :: u32 where "LABEL_UNMAP = 2"

definition PERM_READ :: usize where "PERM_READ = push_bit 0 1"
definition PERM_WRITE :: usize where "PERM_WRITE = push_bit 1 1"
definition PERM_EXECUTE :: usize where "PERM_EXECUTE = push_bit 2 1"
definition PERM_USER :: usize where "PERM_USER = push_bit 3 1"

definition to_pte_flags :: "('f, 'b, 'h, 'p) hal \<Rightarrow> usize \<Rightarrow> 'p" where
  "to_pte_flags H perms =
     (let flags = h_pte_valid H;
          flags = (if perms AND PERM_READ \<noteq> 0 then h_pte_union H flags (h_pte_read H) else flags);
          flags = (if perms AND PERM_WRITE \<noteq> 0 then h_pte_union H flags (h_pte_write H) else flags);
          flags = (if perms AND PERM_EXECUTE \<noteq> 0 then h_pte_union H flags (h_pte_execute H) else flags);
          flags = (if perms AND PERM_USER \<noteq> 0 then h_pte_union H flags (h_pte_user H) else flags)
      in flags)"

text \<open>\<open>iter().position(p)\<close>: the first index, if any.\<close>

fun find_position :: "('a \<Rightarrow> bool) \<Rightarrow> nat \<Rightarrow> 'a list \<Rightarrow> nat option" where
  "find_position P i [] = None"
| "find_position P i (x # xs) = (if P x then Some i else find_position P (i + 1) xs)"

text \<open>
  \<open>for slot in spares.iter_mut().take(n)\<close>: allocate \<open>n\<close> spare tables. On exhaustion the
  early return keeps the ones already taken.
\<close>

fun take_spares ::
  "('f, 'b, 'h, 'p) hal \<Rightarrow> nat \<Rightarrow> kernel_page_tables
    \<Rightarrow> (syscall_error + usize list) \<times> kernel_page_tables" where
  "take_spares H 0 k = (Inr [], k)"
| "take_spares H (Suc n) k =
     (case kpt_alloc H k of
        None \<Rightarrow> (Inl NotEnoughMemory, k)
      | Some (page, k) \<Rightarrow>
          (case take_spares H n k of
             (Inl e, k) \<Rightarrow> (Inl e, k)
           | (Inr pages, k) \<Rightarrow> (Inr (page # pages), k)))"

definition max_new_tables :: "frame_size \<Rightarrow> nat" where
  "max_new_tables sz = (case sz of Small \<Rightarrow> 2 | Mega \<Rightarrow> 1)"

definition resolve_vspace ::
  "('b, 'h) kernel_state \<Rightarrow> tcb_id \<Rightarrow> cptr \<Rightarrow> syscall_error + vspace_id" where
  "resolve_vspace s current cptr =
     (case lookup_cap s current cptr of
        Inl e \<Rightarrow> Inl e
      | Inr (VSpaceCap vid r) \<Rightarrow>
          if contains r rights_WRITE then Inr vid else Inl IllegalOperation
      | Inr _ \<Rightarrow> Inl InvalidCapability)"

text \<open>
  \<open>map\<close>. The walk gets the two-element \<open>spares\<close> array (0 where not filled) and returns how
  many it took; taking more than were allocated panics (an index past the array, or the
  underflow of \<open>max_new_tables - next_spare\<close>). \<open>is_multiple_of\<close> is \<open>mod\<close>.
\<close>

definition frame_map ::
  "('f, 'b, 'h, 'p) hal \<Rightarrow> ('b, 'h) kernel_state \<Rightarrow> tcb_id \<Rightarrow> frame_id \<Rightarrow> 'f
    \<Rightarrow> (('b, 'h) kernel_state, 'f) outcome" where
  "frame_map H s current fid frame =
     (case resolve_vspace s current (h_mr H frame 1) of Inl e \<Rightarrow> Err e s frame | Inr vid \<Rightarrow>
     (let vaddr = h_mr H frame 2;
          perms = h_mr H frame 3 in
      case ok_or (pool_get (ks_frames s) (frame_ix fid)) InvalidCapability of
        Inl e \<Rightarrow> Err e s frame
      | Inr f \<Rightarrow>
     (case ok_or (find_position (\<lambda>m. m = None) 0 (fr_mapped_at f)) IllegalOperation of
        Inl e \<Rightarrow> Err e s frame
      | Inr free_slot \<Rightarrow>
          if vaddr mod frame_size_bytes H (fr_size f) \<noteq> 0 then Err AlignmentError s frame
          else
     (case ok_or (pool_get (ks_vspaces s) (vspace_ix vid)) InvalidCapability of
        Inl e \<Rightarrow> Err e s frame
      | Inr vspace \<Rightarrow>
          if h_translate H (ks_hw s) (vs_root vspace) vaddr \<noteq> None
          then Err IllegalOperation s frame
          else
     (case take_spares H (max_new_tables (fr_size f)) (ks_page_tables s) of
        (Inl e, kpt) \<Rightarrow> Err e (s\<lparr>ks_page_tables := kpt\<rparr>) frame
      | (Inr pages, kpt) \<Rightarrow>
          (let spares = pages @ replicate (2 - length pages) 0;
               flags = to_pte_flags H perms in
           case (case fr_size f of
                   Small \<Rightarrow> h_map_page H (ks_hw s) (vs_root vspace) vaddr (fr_paddr f) flags spares
                 | Mega \<Rightarrow> h_map_megapage H (ks_hw s) (vs_root vspace) vaddr (fr_paddr f) flags spares)
           of (hw, next_spare) \<Rightarrow>
             if next_spare > max_new_tables (fr_size f) then Panic
             else
               (case kpt_release_last H kpt (max_new_tables (fr_size f) - next_spare) of
                  None \<Rightarrow> Panic
                | Some kpt \<Rightarrow>
                    Ok (s\<lparr>ks_hw := hw, ks_page_tables := kpt,
                          ks_frames := pool_modify (ks_frames s) (frame_ix fid)
                            (\<lambda>f. f\<lparr>fr_mapped_at := (fr_mapped_at f)[free_slot := Some (vid, vaddr)]\<rparr>)\<rparr>)
                       frame)))))))"

definition maps_vspace :: "vspace_id \<Rightarrow> (vspace_id \<times> usize) option \<Rightarrow> bool" where
  "maps_vspace vid m = (case m of Some (v, _) \<Rightarrow> v = vid | None \<Rightarrow> False)"

definition frame_unmap ::
  "('f, 'b, 'h, 'p) hal \<Rightarrow> ('b, 'h) kernel_state \<Rightarrow> tcb_id \<Rightarrow> frame_id \<Rightarrow> 'f
    \<Rightarrow> (('b, 'h) kernel_state, 'f) outcome" where
  "frame_unmap H s current fid frame =
     (case resolve_vspace s current (h_mr H frame 1) of Inl e \<Rightarrow> Err e s frame | Inr vid \<Rightarrow>
     (case ok_or (pool_get (ks_frames s) (frame_ix fid)) InvalidCapability of
        Inl e \<Rightarrow> Err e s frame
      | Inr f \<Rightarrow>
     (case find_position (maps_vspace vid) 0 (fr_mapped_at f) of
        None \<Rightarrow> Ok s frame
      | Some slot \<Rightarrow>
     (case fr_mapped_at f ! slot of
        None \<Rightarrow> Panic
      | Some (_, vaddr) \<Rightarrow>
     (case ok_or (pool_get (ks_vspaces s) (vspace_ix vid)) InvalidCapability of
        Inl e \<Rightarrow> Err e s frame
      | Inr vspace \<Rightarrow>
          Ok (s\<lparr>ks_hw := h_unmap H (ks_hw s) (vs_root vspace) vaddr,
                ks_frames := pool_modify (ks_frames s) (frame_ix fid)
                  (\<lambda>f. f\<lparr>fr_mapped_at := (fr_mapped_at f)[slot := None]\<rparr>)\<rparr>) frame)))))"

definition frame_invoke ::
  "('f, 'w::len word, 'h, 'p) hal \<Rightarrow> ('w word, 'h) kernel_state \<Rightarrow> tcb_id \<Rightarrow> cptr \<Rightarrow> 'f
    \<Rightarrow> (('w word, 'h) kernel_state, 'f) outcome" where
  "frame_invoke H s current cptr frame =
     (case lookup_cap s current cptr of
        Inl e \<Rightarrow> Err e s frame
      | Inr (FrameCap fid r) \<Rightarrow>
          if \<not> contains r rights_WRITE then Err IllegalOperation s frame
          else
            (let label = tag_label (h_tag H frame) in
             case (if label = LABEL_MAP then frame_map H s current fid frame
                   else if label = LABEL_UNMAP then frame_unmap H s current fid frame
                   else Err InvalidArgument s frame)
             of Ok s frame \<Rightarrow> Ok s (reply_success H frame)
              | Err e s frame \<Rightarrow> Err e s frame
              | Panic \<Rightarrow> Panic)
      | Inr _ \<Rightarrow> Err InvalidCapability s frame)"

end
