(* ===== verification/FrameCorrect.thy ===== *)
theory FrameCorrect
  imports CNodeCorrect FrameInvoke
begin

text \<open>
  \<open>FrameInvoke\<close> against the invariant: \<open>Map\<close> neither panics nor leaks a page table when it
  succeeds (the spares the walk did not take go back), \<open>Unmap\<close> finds the mapping it records.
\<close>

section \<open>Positions\<close>

lemma find_position_Some:
  "find_position P i xs = Some k \<Longrightarrow> i \<le> k \<and> k - i < length xs \<and> P (xs ! (k - i)) \<and> (\<forall>j<k - i. \<not> P (xs ! j))"
proof (induction P i xs rule: find_position.induct)
  case (2 P i x xs)
  show ?case
  proof (cases "P x")
    case False
    with 2 have IH: "i + 1 \<le> k" "k - (i + 1) < length xs" "P (xs ! (k - (i + 1)))" "\<forall>j<k - (i + 1). \<not> P (xs ! j)"
      by auto
    moreover from IH have "k - i = Suc (k - (i + 1))" by simp
    ultimately show ?thesis using False by (auto simp: less_Suc_eq_0_disj)
  qed (use 2 in auto)
qed simp

lemma find_position_None: "find_position P i xs = None \<longleftrightarrow> (\<forall>x\<in>set xs. \<not> P x)"
  by (induction P i xs rule: find_position.induct) auto

section \<open>Spare page tables\<close>

lemma take_spares_Inr:
  assumes laws: "paging_laws H" and "kpt_wf k" and "take_spares H n k = (Inr pages, k')"
  shows "length pages = n \<and> kpt_wf k' \<and> kpt_used k' = kpt_used k + n \<and> kpt_base k' = kpt_base k"
  using assms(2,3)
proof (induction n arbitrary: k pages)
  case (Suc n)
  then obtain a k1 rest where al: "kpt_alloc H k = Some (a, k1)" and rec: "take_spares H n k1 = (Inr rest, k')"
    and "pages = a # rest"
    by (auto split: option.splits prod.splits sum.splits)
  with Suc.IH [OF kpt_alloc_Some(5) [OF laws Suc.prems(1) al] rec] kpt_alloc_Some [OF laws Suc.prems(1) al]
  show ?case by simp
qed simp

text \<open>The array handed to the walk has two elements, whatever the size of the frame.\<close>

lemma spares_length:
  assumes "paging_laws H" and "kpt_wf k" and "take_spares H (max_new_tables sz) k = (Inr pages, k')"
  shows "length (pages @ replicate (2 - length pages) 0) = 2"
  using take_spares_Inr [OF assms] by (cases sz) (simp_all add: max_new_tables_def)

text \<open>On exhaustion the spares already taken are not given back: the arena is full.\<close>

lemma take_spares_Inl:
  assumes laws: "paging_laws H" and "kpt_wf k" and "take_spares H n k = (Inl e, k')"
  shows "kpt_wf k' \<and> kpt_used k' = 32 \<and> kpt_used k \<le> kpt_used k' \<and> e = NotEnoughMemory"
  using assms(2,3)
proof (induction n arbitrary: k)
  case (Suc n)
  show ?case
  proof (cases "kpt_alloc H k")
    case None
    with Suc.prems kpt_alloc_None [OF laws Suc.prems(1)] show ?thesis by auto
  next
    case (Some ak)
    obtain a k1 where al: "kpt_alloc H k = Some (a, k1)" using Some by (cases ak) simp
    then have "take_spares H n k1 = (Inl e, k')"
      using Suc.prems(2) by (auto split: prod.splits sum.splits)
    with Suc.IH [OF kpt_alloc_Some(5) [OF laws Suc.prems(1) al]] kpt_alloc_Some(6) [OF laws Suc.prems(1) al]
    show ?thesis by simp
  qed
qed simp

section \<open>The two operations\<close>

lemma wf_mapping:
  assumes wf: "state_wf s" and k: "kpt_wf k"
  shows "state_wf (s\<lparr>ks_page_tables := k\<rparr>)"
    and "state_wf (s\<lparr>ks_hw := hw, ks_page_tables := k,
           ks_frames := pool_modify (ks_frames s) i (\<lambda>f. f\<lparr>fr_mapped_at := (fr_mapped_at f)[j := m]\<rparr>)\<rparr>)"
    and "state_wf (s\<lparr>ks_hw := hw,
           ks_frames := pool_modify (ks_frames s) i (\<lambda>f. f\<lparr>fr_mapped_at := (fr_mapped_at f)[j := m]\<rparr>)\<rparr>)"
  using wf k by (auto simp: state_wf_def pool_wf_modify frame_wf_def intro!: pool_all_modify)

lemma threads_of_mapping:
  "threads_of (s\<lparr>ks_hw := hw, ks_page_tables := k, ks_frames := fs\<rparr>) = threads_of s"
  "threads_of (s\<lparr>ks_hw := hw, ks_frames := fs\<rparr>) = threads_of s"
  by (rule threads_of_cong; simp)+

lemma quiet_mapping:
  "quiet s (s\<lparr>ks_hw := hw, ks_page_tables := k, ks_frames := pool_modify (ks_frames s) i g\<rparr>)"
  "quiet s (s\<lparr>ks_hw := hw, ks_frames := pool_modify (ks_frames s) i g\<rparr>)"
proof -
  have "object_exists (s\<lparr>ks_hw := hw, ks_page_tables := k, ks_frames := pool_modify (ks_frames s) i g\<rparr>) r = object_exists s r"
    "object_exists (s\<lparr>ks_hw := hw, ks_frames := pool_modify (ks_frames s) i g\<rparr>) r = object_exists s r" for r
    by (cases r; auto)+
  then show "quiet s (s\<lparr>ks_hw := hw, ks_page_tables := k, ks_frames := pool_modify (ks_frames s) i g\<rparr>)"
    "quiet s (s\<lparr>ks_hw := hw, ks_frames := pool_modify (ks_frames s) i g\<rparr>)"
    by (simp_all add: quiet_def caps_of_def flight_caps_def stored_caps_def slot_cap_def cspaces_def)
qed

lemmas mapping_sound = sound_Ok [OF _ tstep.Stay quiet_authority]

text \<open>
  What \<open>Map\<close> does when it succeeds: one free slot of the frame records the mapping, the walk
  took \<open>n\<close> tables of the arena, and exactly those are used up.
\<close>

definition walk ::
  "('f, 'b, 'h, 'p) hal \<Rightarrow> frame_size \<Rightarrow> 'h \<Rightarrow> usize \<Rightarrow> usize \<Rightarrow> usize \<Rightarrow> 'p \<Rightarrow> usize list \<Rightarrow> 'h \<times> nat" where
  "walk H sz hw root va pa fl sp =
     (case sz of Small \<Rightarrow> h_map_page H hw root va pa fl sp | Mega \<Rightarrow> h_map_megapage H hw root va pa fl sp)"

definition mapped ::
  "('f, 'b, 'h, 'p) hal \<Rightarrow> ('b, 'h) kernel_state \<Rightarrow> tcb_id \<Rightarrow> frame_id \<Rightarrow> 'f \<Rightarrow> ('b, 'h) kernel_state \<Rightarrow> bool" where
  "mapped H s c fid f s' \<longleftrightarrow>
     (\<exists>vid v fr i k hw n sp.
        resolve_vspace s c (h_mr H f 1) = Inr vid
      \<and> pool_get (ks_vspaces s) (vspace_ix vid) = Some v
      \<and> pool_get (ks_frames s) (frame_ix fid) = Some fr
      \<and> i < length (fr_mapped_at fr) \<and> fr_mapped_at fr ! i = None
      \<and> h_mr H f 2 mod frame_size_bytes H (fr_size fr) = 0
      \<and> h_translate H (ks_hw s) (vs_root v) (h_mr H f 2) = None
      \<and> (hw, n) = walk H (fr_size fr) (ks_hw s) (vs_root v) (h_mr H f 2) (fr_paddr fr) (to_pte_flags H (h_mr H f 3)) sp
      \<and> length sp = 2 \<and> n \<le> max_new_tables (fr_size fr)
      \<and> kpt_wf k \<and> kpt_used k = kpt_used (ks_page_tables s) + n
      \<and> s' = s\<lparr>ks_hw := hw, ks_page_tables := k,
              ks_frames := pool_modify (ks_frames s) (frame_ix fid)
                (\<lambda>f'. f'\<lparr>fr_mapped_at := (fr_mapped_at f')[i := Some (vid, h_mr H f 2)]\<rparr>)\<rparr>)"

lemma frame_map_mapped:
  assumes laws: "paging_laws H" and wf: "state_wf s"
  shows "on_ok (\<lambda>s' f'. mapped H s c fid f s' \<and> f' = f) (frame_map H s c fid f)"
proof (unfold frame_map_def Let_def, (intro peel_on_ok; (rule on_ok_simps)?), goal_cases)
  case (1 vid fr i v x k0 pages hw n k)
  have k: "kpt_wf (ks_page_tables s)" using wf by (simp add: state_wf_def)
  from 1 have sp: "take_spares H (max_new_tables (fr_size fr)) (ks_page_tables s) = (Inr pages, k0)"
    and n: "n \<le> max_new_tables (fr_size fr)" and i: "find_position (\<lambda>m. m = None) 0 (fr_mapped_at fr) = Some i"
    and rel: "kpt_release_last H k0 (max_new_tables (fr_size fr) - n) = Some k" by auto
  from take_spares_Inr [OF laws k sp] kpt_release [OF laws _, of k0 "max_new_tables (fr_size fr) - n"] rel n
  have "kpt_wf k \<and> kpt_used k = kpt_used (ks_page_tables s) + n" by auto
  with 1 n find_position_Some [OF i] spares_length [OF laws k sp] show ?case
    unfolding mapped_def walk_def on_ok_simps
    by (intro conjI exI [of _ vid] exI [of _ v] exI [of _ fr] exI [of _ i] exI [of _ k] exI [of _ hw]
        exI [of _ n] exI [of _ "pages @ replicate (2 - length pages) 0"]) simp_all
qed

lemma walk_bound:
  assumes laws: "paging_laws H" and sp: "length sp = 2" and w: "walk H sz hw root va pa fl sp = (hw', n)"
  shows "n \<le> max_new_tables sz"
proof -
  have "snd (walk H sz hw root va pa fl sp) \<le> max_new_tables sz"
    using laws sp by (cases sz) (simp_all add: walk_def max_new_tables_def paging_laws_def)
  with w show ?thesis by simp
qed

lemma frame_map_sound:
  assumes laws: "paging_laws H" and run: "running c s"
  shows "sound c s f (frame_map H s c fid f)"
proof (unfold frame_map_def Let_def, (intro peel_sound; (rule sound_Err [OF run])?), goal_cases)
  case (1 vid fr i v x k0 e)
  have k: "kpt_wf (ks_page_tables s)" using runningD(1) [OF run] by (simp add: state_wf_def)
  from 1 have "take_spares H (max_new_tables (fr_size fr)) (ks_page_tables s) = (Inl e, k0)" by simp
  from take_spares_Inl [OF laws k this] show ?case
    using wf_mapping(1) [OF runningD(1) [OF run]]
    by (simp add: sound_def observe quiet_cong(7))
next
  case (2 vid fr i v x k0 pages hw n)
  have k: "kpt_wf (ks_page_tables s)" using runningD(1) [OF run] by (simp add: state_wf_def)
  from 2 have sp: "take_spares H (max_new_tables (fr_size fr)) (ks_page_tables s) = (Inr pages, k0)" by simp
  from 2 walk_bound [OF laws spares_length [OF laws k sp] 2(9) [folded walk_def]] show ?case by simp
next
  case (3 vid fr i v x k0 pages hw n)
  have k: "kpt_wf (ks_page_tables s)" using runningD(1) [OF run] by (simp add: state_wf_def)
  from 3 have sp: "take_spares H (max_new_tables (fr_size fr)) (ks_page_tables s) = (Inr pages, k0)" by simp
  note T = take_spares_Inr [OF laws k sp]
  then have "max_new_tables (fr_size fr) - n \<le> kpt_used k0" by linarith
  with T 3 kpt_release [OF laws, of k0 "max_new_tables (fr_size fr) - n"] show ?case by auto
next
  case (4 vid fr i v x k0 pages hw n k1)
  have k: "kpt_wf (ks_page_tables s)" using runningD(1) [OF run] by (simp add: state_wf_def)
  from 4 have sp: "take_spares H (max_new_tables (fr_size fr)) (ks_page_tables s) = (Inr pages, k0)" by simp
  from take_spares_Inr [OF laws k sp] kpt_release [OF laws _, of k0 "max_new_tables (fr_size fr) - n"] 4
  have "kpt_wf k1" by auto
  from wf_mapping(2) [OF runningD(1) [OF run] this] tstep.Stay [of c "threads_of s"]
  show ?case by (intro sound_Ok quiet_authority quiet_mapping) (simp_all add: threads_of_mapping)
qed

lemma maps_vspace_Some: "maps_vspace vid m \<longleftrightarrow> (\<exists>va. m = Some (vid, va))"
  by (auto simp: maps_vspace_def split: option.splits)

lemma frame_unmap_good:
  assumes run: "running c s"
  shows "good c s f (frame_unmap H s c fid f)"
proof (unfold frame_unmap_def Let_def, (intro peel_good; (rule good_Err [OF run] good_stay [OF run])?), goal_cases)
  case (1 vid fr i)
  with find_position_Some [of "maps_vspace vid" 0 "fr_mapped_at fr" i] show ?case
    by (auto simp: maps_vspace_Some)
next
  case (2 vid fr i m v0 va v)
  have "kpt_wf (ks_page_tables s)" using runningD(1) [OF run] by (simp add: state_wf_def)
  from wf_mapping(3) [OF runningD(1) [OF run] this] tstep.Stay [of c "threads_of s"]
  show ?case unfolding good_Ok
    by (intro sound_Ok quiet_authority quiet_mapping) (simp_all add: threads_of_mapping)
qed

lemma sound_reply:
  "sound c s f r \<Longrightarrow> sound c s f (case r of Ok s f \<Rightarrow> Ok s (g f) | Err e s f \<Rightarrow> Err e s f | Panic \<Rightarrow> Panic)"
  by (cases r) (auto simp: sound_def)

theorem frame_invoke_sound:
  assumes laws: "paging_laws H" and run: "running c s"
  shows "sound c s f (frame_invoke H s c p f)"
proof (unfold frame_invoke_def Let_def,
    (intro peel_sound peel_sound_cap sound_reply; (rule sound_Err [OF run])?), goal_cases)
qed (use frame_map_sound [OF laws run] frame_unmap_good [OF run, unfolded good_def, THEN conjunct1] in auto)

end
