(* ===== verification/Syscall.thy ===== *)
theory Syscall
  imports Ipc CNodeInvoke Admin FrameInvoke
begin

text \<open>
  \<open>src/syscall.rs\<close> (the syscall table, \<open>Yield\<close> and \<open>dispatch\<close>) and the entry points of
  \<open>src/lib.rs\<close>. \<open>dispatch\<close> is the kernel's only transition: user code changes registers,
  traps, and \<open>dispatch\<close> runs to completion.
\<close>

datatype syscall_number =
    SysSend | SysNBSend | SysRecv | SysCall | SysReply | SysSignal | SysWait | SysPoll
  | SysCNodeInvoke | SysUntypedRetype | SysTCBConfigure | SysYield | SysFrameInvoke

definition syscall_from_usize :: "usize \<Rightarrow> syscall_number option" where
  "syscall_from_usize n =
     (if n = 1 then Some SysSend
      else if n = 2 then Some SysNBSend
      else if n = 3 then Some SysRecv
      else if n = 4 then Some SysCall
      else if n = 5 then Some SysReply
      else if n = 6 then Some SysSignal
      else if n = 7 then Some SysWait
      else if n = 8 then Some SysPoll
      else if n = 9 then Some SysCNodeInvoke
      else if n = 10 then Some SysUntypedRetype
      else if n = 11 then Some SysTCBConfigure
      else if n = 12 then Some SysYield
      else if n = 13 then Some SysFrameInvoke
      else None)"

definition yield_now ::
  "('f, 'w::len word, 'h, 'p) hal \<Rightarrow> ('w word, 'h) kernel_state \<Rightarrow> tcb_id \<Rightarrow> 'f
    \<Rightarrow> (('w word, 'h) kernel_state, 'f) outcome" where
  "yield_now H s current frame =
     (let s = make_ready s current in
      case block_current H s frame of
        Some (True, s, frame) \<Rightarrow> Ok s (reply_success H frame)
      | _ \<Rightarrow> Panic)"

text \<open>The \<open>match syscall\<close> of \<open>dispatch\<close>.\<close>

definition run_syscall ::
  "('f, 'w::len word, 'h, 'p) hal \<Rightarrow> ('w word, 'h) kernel_state \<Rightarrow> tcb_id \<Rightarrow> 'f \<Rightarrow> syscall_number
    \<Rightarrow> (('w word, 'h) kernel_state, 'f) outcome" where
  "run_syscall H s current frame syscall =
     (let cptr = h_mr H frame 0 in
      case syscall of
        SysSend \<Rightarrow> send H s current cptr frame False
      | SysNBSend \<Rightarrow> send H s current cptr frame True
      | SysRecv \<Rightarrow> recv H s current cptr frame
      | SysCall \<Rightarrow> call H s current cptr frame
      | SysReply \<Rightarrow> reply H s current frame
      | SysSignal \<Rightarrow> signal H s current cptr frame
      | SysWait \<Rightarrow> wait H s current cptr frame
      | SysPoll \<Rightarrow> poll H s current cptr frame
      | SysCNodeInvoke \<Rightarrow> cnode_invoke H s current cptr frame
      | SysUntypedRetype \<Rightarrow> untyped_retype H s current cptr frame
      | SysTCBConfigure \<Rightarrow> configure H s current cptr frame
      | SysFrameInvoke \<Rightarrow> frame_invoke H s current cptr frame
      | SysYield \<Rightarrow> yield_now H s current frame)"

text \<open>\<open>None\<close> is a kernel panic.\<close>

definition dispatch ::
  "('f, 'w::len word, 'h, 'p) hal \<Rightarrow> ('w word, 'h) kernel_state \<Rightarrow> 'f
    \<Rightarrow> (('w word, 'h) kernel_state \<times> 'f) option" where
  "dispatch H s frame =
     (case current_of s of
        None \<Rightarrow> Some (s, frame)
      | Some current \<Rightarrow>
          (case syscall_from_usize (h_syscall_number H frame) of
             None \<Rightarrow> Some (s, reply_error H frame IllegalOperation)
           | Some syscall \<Rightarrow>
               (case run_syscall H s current frame syscall of
                  Ok s frame \<Rightarrow> Some (s, frame)
                | Err e s frame \<Rightarrow> Some (s, reply_error H frame e)
                | Panic \<Rightarrow> None)))"

text \<open>The trap entry point forwards to \<open>dispatch\<close> on the one kernel state.\<close>

definition kernel_trap_handler ::
  "('f, 'w::len word, 'h, 'p) hal \<Rightarrow> ('w word, 'h) kernel_state \<Rightarrow> 'f
    \<Rightarrow> (('w word, 'h) kernel_state \<times> 'f) option" where
  "kernel_trap_handler H state frame = dispatch H state frame"

text \<open>
  \<open>enter_first_thread\<close>: the state and the frame it hands to the HAL's \<open>enter_thread\<close>, which
  does not return.
\<close>

definition enter_first_thread ::
  "('f, 'b, 'h, 'p) hal \<Rightarrow> ('b, 'h) kernel_state \<Rightarrow> tcb_id \<Rightarrow> ('b, 'h) kernel_state \<times> 'f" where
  "enter_first_thread H s tid =
     (let s = s\<lparr>ks_scheduler := sch_remove_ready (ks_scheduler s) tid\<rparr>;
          s = set_current s (Some tid);
          frame = h_zeroed H in
      case get_tcb s tid of
        None \<Rightarrow> (s, frame)
      | Some tcb \<Rightarrow>
          (let s = set_thread_state s tid Running;
               frame = restore_into H (tcb_context tcb) frame;
               s = s\<lparr>ks_hw := activate_if_paged H tcb (ks_hw s)\<rparr>
           in (s, frame)))"

end
