(* ===== verification/Refine.thy ===== *)
theory Refine
  imports AdminCorrect FrameCorrect Syscall
begin

text \<open>
  The whole kernel: \<open>dispatch\<close> never panics, keeps the invariant, refines the thread machine
  step by step and respects authority; the first thread starts in a state with the invariant;
  and every state that user code can drive the kernel to has it.
\<close>

section \<open>\<open>Yield\<close>\<close>

lemma yield_effect:
  assumes laws: "frame_laws H" and run: "running c s" and head: "wait_list s PReady @ [c] = u # us"
  obtains s' f' where "yield_now H s c f = Ok s' f'" and "state_wf s'" and "quiet s s'"
    and "threads_of s' = (shift (shift (threads_of s) c Ready) u Running)\<lparr>tv_current := Some u\<rparr>"
    and "wait_list s' PReady = us"
proof -
  note R = runningD [OF run]
  let ?v = "threads_of s" and ?s1 = "make_ready s c"
  obtain tc where tc: "get_tcb s c = Some tc" "tcb_state tc = Running" using R(6) by blast
  have nr: "tcb_state tc \<noteq> Ready" using tc by simp
  have view1: "threads_of ?s1 = ?v\<lparr>tv_state := (tv_state ?v)(c \<mapsto> Ready),
      tv_queue := (wait_list s)(PReady := wait_list s PReady @ [c])\<rparr>"
    by (rule threads_of_make_ready [OF tc(1) nr R(7) ready_room [OF R(1,3) tc(1) nr]])
  have queue1: "wait_list ?s1 = (wait_list s)(PReady := wait_list s PReady @ [c])"
    using arg_cong [OF view1, of tv_queue] by simp
  have wf1: "state_wf ?s1" using R(1) by (rule wf_make_ready)
  have "get_tcb s u \<noteq> None"
    using head head_states(1) [OF R(3)] tc by (cases "wait_list s PReady") auto
  then have "tv_state (threads_of ?s1) u \<noteq> None" by (simp add: view1)
  then have ex: "get_tcb ?s1 u \<noteq> None" by simp
  have head1: "wait_list ?s1 PReady = u # us" using head by (simp add: queue1 del: wait_list.simps)
  obtain s' f' where blk: "block_current H ?s1 f = Some (True, s', f')" and wf': "state_wf s'"
    and view': "threads_of s' = (threads_of ?s1)\<lparr>tv_state := (tv_state (threads_of ?s1))(u \<mapsto> Running),
         tv_queue := (wait_list ?s1)(PReady := us), tv_current := Some u\<rparr>"
    and quiet': "\<And>s0. quiet s0 ?s1 \<Longrightarrow> quiet s0 s'"
    using block_current_effect [OF laws wf1 head1 ex, of f] by blast
  have idle: "Option.bind (tv_state ?v c) place_of = None" using tc by simp
  have view: "threads_of s' = (shift (shift ?v c Ready) u Running)\<lparr>tv_current := Some u\<rparr>"
    using handoff_view [OF R(3) idle, of Ready PReady PReady u us] head
    by (simp add: view' view1 queue1 del: wait_list.simps)
  have "wait_list s' = (wait_list ?s1)(PReady := us)" using arg_cong [OF view', of tv_queue] by simp
  then have ready: "wait_list s' PReady = us" by (simp del: wait_list.simps)
  have "quiet s s'" by (intro quiet' quiet_make_ready) simp
  moreover have "yield_now H s c f = Ok s' (reply_success H f')" using blk by (simp add: yield_now_def)
  ultimately show ?thesis using that wf' view ready by blast
qed

theorem yield_good:
  assumes laws: "frame_laws H" and run: "running c s"
  shows "good c s f (yield_now H s c f)"
proof -
  obtain u us where head: "wait_list s PReady @ [c] = u # us" by (cases "wait_list s PReady") simp_all
  show ?thesis
  proof (rule yield_effect [OF laws run head, of f])
    fix s' f'
    assume y: "yield_now H s c f = Ok s' f'" "state_wf s'" "quiet s s'"
      and v: "threads_of s' = (shift (shift (threads_of s) c Ready) u Running)\<lparr>tv_current := Some u\<rparr>"
    have "tstep c (threads_of s) (threads_of s')"
      unfolding v using tstep.Yield [of "threads_of s" c u us] head by (simp del: wait_list.simps)
    with y show ?thesis by (simp add: good_Ok sound_Ok quiet_authority)
  qed
qed

section \<open>One system call\<close>

theorem run_syscall_sound:
  assumes laws: "frame_laws H" "paging_laws H" and run: "running c s"
  shows "sound c s f (run_syscall H s c f n)"
proof -
  have good: "good c s f r \<Longrightarrow> sound c s f r" for r :: "(('b word, 'c) kernel_state, 'a) outcome"
    by (simp add: good_def)
  show ?thesis
    by (cases n) (simp_all add: run_syscall_def good send_good recv_good call_good reply_good signal_good
        wait_good poll_good cnode_invoke_good configure_good yield_good untyped_retype_sound
        frame_invoke_sound laws run)
qed

text \<open>
  Only a retype and a frame map can fail after a write (\<open>NotEnoughMemory\<close> with memory already
  taken); every other call fails with the state as it was.
\<close>

theorem run_syscall_atomic:
  assumes laws: "frame_laws H" and run: "running c s" and "n \<noteq> SysUntypedRetype" and "n \<noteq> SysFrameInvoke"
  shows "atomic s f (run_syscall H s c f n)"
proof -
  have good: "good c s f r \<Longrightarrow> atomic s f r" for r :: "(('b word, 'c) kernel_state, 'a) outcome"
    by (simp add: good_def)
  show ?thesis
    using assms(3,4)
    by (cases n) (simp_all add: run_syscall_def good send_good recv_good call_good reply_good signal_good
        wait_good poll_good cnode_invoke_good configure_good yield_good laws run)
qed

lemma sound_inv:
  assumes "running c s" and "state_wf s'" and "tstep c (threads_of s) (threads_of s')" and "authority_step s s'"
  shows "kernel_inv s'"
  using assms runningD [OF assms(1)] tstep_threads_ok [OF assms(3)] no_dangling_step [OF assms(4)]
  by (simp add: kernel_inv_def)

lemma dispatch_cases:
  assumes laws: "frame_laws H" "paging_laws H" and inv: "kernel_inv s"
  obtains (idle) "current_of s = None" "dispatch H s f = Some (s, f)"
  | (ok) c n s' f' where "running c s" "syscall_from_usize (h_syscall_number H f) = Some n"
      "run_syscall H s c f n = Ok s' f'" "dispatch H s f = Some (s', f')"
      "state_wf s'" "tstep c (threads_of s) (threads_of s')" "authority_step s s'"
  | (err) c e s' where "running c s" "dispatch H s f = Some (s', reply_error H f e)"
      "state_wf s'" "threads_of s' = threads_of s" "quiet s s'"
proof (cases "current_of s")
  case None
  with idle show ?thesis by (simp add: dispatch_def)
next
  case (Some c)
  with inv have run: "running c s" by (simp add: running_def)
  show ?thesis
  proof (cases "syscall_from_usize (h_syscall_number H f)")
    case None
    with err [OF run, of s IllegalOperation] runningD(1) [OF run] Some show ?thesis by (simp add: dispatch_def)
  next
    case n: (Some n)
    have "sound c s f (run_syscall H s c f n)" by (rule run_syscall_sound [OF laws run])
    with Some n ok [OF run n] err [OF run] show ?thesis
      by (cases "run_syscall H s c f n") (auto simp: dispatch_def sound_def)
  qed
qed

theorem dispatch_inv:
  assumes "frame_laws H" and "paging_laws H" and "kernel_inv s"
  shows "\<exists>s' f'. dispatch H s f = Some (s', f') \<and> kernel_inv s'"
proof (rule dispatch_cases [OF assms, of f])
  fix c n s' f'
  assume "running c s" "state_wf s'" "tstep c (threads_of s) (threads_of s')" "authority_step s s'"
    and "dispatch H s f = Some (s', f')"
  then show ?thesis using sound_inv by blast
next
  fix c e s'
  assume "running c s" "state_wf s'" "threads_of s' = threads_of s" "quiet s s'"
    and d: "dispatch H s f = Some (s', reply_error H f e)"
  then have "kernel_inv s'" using sound_inv quiet_authority tstep.Stay by metis
  with d show ?thesis by blast
qed (use assms in auto)

section \<open>Reachable states\<close>

text \<open>
  The first thread must not be waiting anywhere: it is \<open>Ready\<close> (configured) or \<open>Inactive\<close>.
\<close>

definition startable :: "('b, 'h) kernel_state \<Rightarrow> tcb_id \<Rightarrow> bool" where
  "startable s t \<longleftrightarrow> current_of s = None
     \<and> (case get_tcb s t of None \<Rightarrow> False | Some tcb \<Rightarrow> tcb_state tcb = Ready \<or> tcb_state tcb = Inactive)"

lemma remove_absent_list: "distinct xs \<Longrightarrow> remove1 x xs = filter (\<lambda>y. y \<noteq> x) xs"
  by (simp add: distinct_remove1_removeAll removeAll_filter_not_eq eq_commute [of x])

lemma enter_first_thread_fields:
  "ks_cnodes (fst (enter_first_thread H s t)) = ks_cnodes s"
  "object_exists (fst (enter_first_thread H s t)) r = object_exists s r"
  by (simp_all add: enter_first_thread_def Let_def set_thread_state_def split: option.split)

lemma enter_first_thread_view:
  assumes inv: "kernel_inv s" and start: "startable s t"
  shows "threads_of (fst (enter_first_thread H s t)) = (shift (threads_of s) t Running)\<lparr>tv_current := Some t\<rparr>"
    and "state_wf (fst (enter_first_thread H s t))" and "quiet s (fst (enter_first_thread H s t))"
proof -
  let ?v = "threads_of s" and ?q = "snd (aq_remove (sch_ready (ks_scheduler s)) t)"
  let ?s1 = "s\<lparr>ks_scheduler := sch_remove_ready (ks_scheduler s) t\<rparr>"
  have wf: "state_wf s" and once: "queued_once ?v" using inv by (simp_all add: kernel_inv_def threads_ok_def)
  have q: "queue_wf (sch_ready (ks_scheduler s))" using wf by (rule wf_objects)
  obtain tcb where tcb: "get_tcb s t = Some tcb" "tcb_state tcb = Ready \<or> tcb_state tcb = Inactive"
    using start by (auto simp: startable_def split: option.splits)
  have s': "fst (enter_first_thread H s t) = (set_thread_state (set_current ?s1 (Some t)) t Running)
      \<lparr>ks_hw := activate_if_paged H tcb (ks_hw s)\<rparr>"
    using tcb(1) by (simp add: enter_first_thread_def Let_def)
  have list: "aq_list ?q = filter (\<lambda>u. u \<noteq> t) (wait_list s PReady)"
    using once q aq.elems_remove [of "sch_ready (ks_scheduler s)" t]
    by (auto simp: queue_wf_def queued_once_def remove_absent_list simp flip: wait_list.simps(1))
  have view1: "threads_of ?s1 = ?v\<lparr>tv_queue := (wait_list s)(PReady := aq_list ?q)\<rparr>"
    by (simp add: sch_remove_ready_def observe)
  have other: "t \<notin> set (wait_list s p)" if "p \<noteq> PReady" for p
    using not_queued [OF once refl, of t p] tcb that by auto
  have "tv_queue (shift ?v t Running) p = ((wait_list s)(PReady := aq_list ?q)) p" for p
    using list other [of p] by (cases "p = PReady") (simp_all add: shift_def filter_neq_id)
  then have "tv_queue (shift ?v t Running) = (wait_list s)(PReady := aq_list ?q)" by (rule ext)
  moreover have "shift ?v t Running = ?v\<lparr>tv_state := (tv_state ?v)(t \<mapsto> Running), tv_queue := tv_queue (shift ?v t Running)\<rparr>"
    by (simp add: shift_def)
  ultimately show "threads_of (fst (enter_first_thread H s t)) = (shift ?v t Running)\<lparr>tv_current := Some t\<rparr>"
    using tcb(1) by (simp add: s' observe view1)
  show "state_wf (fst (enter_first_thread H s t))"
    using wf queue_wf_remove [OF q] by (simp add: s' sch_remove_ready_def wf_rules)
  show "quiet s (fst (enter_first_thread H s t))"
    unfolding s' by (intro quiet_rules) auto
qed

theorem enter_first_thread_inv:
  assumes inv: "kernel_inv s" and start: "startable s t"
  shows "kernel_inv (fst (enter_first_thread H s t))"
proof -
  let ?v = "threads_of s"
  note E = enter_first_thread_view [OF inv start, of H]
  have ok: "threads_ok ?v" and dang: "no_dangling s" and cur: "tv_current ?v = None"
    using inv start by (simp_all add: kernel_inv_def startable_def)
  obtain x where x: "tv_state ?v t = Some x" "x = Ready \<or> x = Inactive"
    using start by (auto simp: startable_def split: option.splits)
  have "threads_ok ((shift ?v t Running)\<lparr>tv_current := Some t\<rparr>)"
    unfolding threads_ok_def
  proof (intro conjI)
    show "one_running ((shift ?v t Running)\<lparr>tv_current := Some t\<rparr>)"
      using ok cur by (auto simp: threads_ok_def one_running_def)
    show "replies_ok ((shift ?v t Running)\<lparr>tv_current := Some t\<rparr>)"
      using ok x unfolding threads_ok_def replies_ok_def by fastforce
    show "rendezvous_ok ((shift ?v t Running)\<lparr>tv_current := Some t\<rparr>)"
      using ok rendezvous_shift [of ?v Running t] by (simp add: threads_ok_def rendezvous_ok_def)
    show "signals_ok ((shift ?v t Running)\<lparr>tv_current := Some t\<rparr>)"
      using ok signals_shift [of ?v Running t] by (simp add: threads_ok_def signals_ok_def)
  qed (use ok queued_once_shift in \<open>simp add: threads_ok_def\<close>)
  with E no_dangling_step [OF quiet_authority dang] show ?thesis by (simp add: kernel_inv_def)
qed

text \<open>
  A system is the kernel state with the registers of the running thread. It starts when the
  first thread is entered; then user code leaves any register contents, and the kernel runs.
\<close>

inductive reachable :: "('f, 'w::len word, 'h, 'p) hal \<Rightarrow> ('w word, 'h) kernel_state \<Rightarrow> bool"
  for H :: "('f, 'w::len word, 'h, 'p) hal" where
  Start: "kernel_inv s \<Longrightarrow> startable s t \<Longrightarrow> reachable H (fst (enter_first_thread H s t))"
| Trap: "reachable H s \<Longrightarrow> dispatch H s f = Some (s', f') \<Longrightarrow> reachable H s'"

lemma dispatch_keeps_current:
  assumes "frame_laws H" and "paging_laws H" and "kernel_inv s" and "current_of s \<noteq> None"
    and "dispatch H s f = Some (s', f')"
  shows "current_of s' \<noteq> None"
proof (rule dispatch_cases [OF assms(1-3), of f])
  fix c n s1 f1
  assume c: "running c s" and "dispatch H s f = Some (s1, f1)" and step: "tstep c (threads_of s) (threads_of s1)"
  with assms(5) have s1: "s1 = s'" by simp
  from step c have "tv_current (threads_of s1) \<noteq> None"
    by cases (auto dest!: runningD(5) arg_cong [of "threads_of s1" _ tv_current])
  then show ?thesis by (simp add: s1)
next
  fix c e s1
  assume "dispatch H s f = Some (s1, reply_error H f e)" and view: "threads_of s1 = threads_of s"
  with assms(4,5) arg_cong [OF view, of tv_current] show ?thesis by simp
qed (use assms in auto)

theorem reachable_inv:
  assumes laws: "frame_laws H" "paging_laws H" and "reachable H s"
  shows "kernel_inv s \<and> current_of s \<noteq> None"
  using assms(3)
proof (induction rule: reachable.induct)
  case (Start s t)
  then show ?case
    using enter_first_thread_inv [OF Start, of H]
      arg_cong [OF enter_first_thread_view(1) [OF Start, of H], of tv_current] by simp
next
  case (Trap s f s' f')
  then have inv: "kernel_inv s" "current_of s \<noteq> None" by auto
  from dispatch_inv [OF laws inv(1), of f] Trap(2) have "kernel_inv s'" by auto
  with dispatch_keeps_current [OF laws inv Trap(2)] show ?case by simp
qed

inductive_cases reachableE: "reachable H s"

section \<open>Runs of traps\<close>

text \<open>The kernel fed one trap after another, with the registers each finds; \<open>None\<close> is a panic.\<close>

fun run_traps ::
  "('f, 'w::len word, 'h, 'p) hal \<Rightarrow> ('w word, 'h) kernel_state \<Rightarrow> 'f list \<Rightarrow> ('w word, 'h) kernel_state option" where
  "run_traps H s [] = Some s"
| "run_traps H s (f # fs) = (case dispatch H s f of None \<Rightarrow> None | Some (s', f') \<Rightarrow> run_traps H s' fs)"

lemma run_traps_inv:
  assumes "frame_laws H" and "paging_laws H" and "kernel_inv s"
  shows "\<exists>s'. run_traps H s fs = Some s' \<and> kernel_inv s'"
  using assms(3)
proof (induction fs arbitrary: s)
  case (Cons f fs)
  obtain s1 f1 where "dispatch H s f = Some (s1, f1)" "kernel_inv s1"
    using dispatch_inv [OF assms(1,2) Cons.prems, of f] by blast
  with Cons.IH [of s1] show ?case by simp
qed simp

lemma syscall_yield: "syscall_from_usize 12 = Some SysYield"
  by (simp add: syscall_from_usize_def)

text \<open>The running thread and the ready queue as one list; a yield rotates it.\<close>

definition ring :: "('b, 'h) kernel_state \<Rightarrow> tcb_id list" where
  "ring s = (case current_of s of None \<Rightarrow> [] | Some c \<Rightarrow> c # wait_list s PReady)"

lemma yield_rotates:
  assumes laws: "frame_laws H" "paging_laws H" and inv: "kernel_inv s" and cur: "current_of s = Some c"
    and f: "h_syscall_number H f = 12"
  shows "\<exists>s' f'. dispatch H s f = Some (s', f') \<and> kernel_inv s' \<and> ring s' = rotate1 (ring s)"
proof -
  have run: "running c s" using inv cur by (simp add: running_def)
  obtain u us where head: "wait_list s PReady @ [c] = u # us" by (cases "wait_list s PReady") simp_all
  show ?thesis
  proof (rule yield_effect [OF laws(1) run head, of f])
    fix s' f'
    assume y: "yield_now H s c f = Ok s' f'" and ready: "wait_list s' PReady = us"
      and v: "threads_of s' = (shift (shift (threads_of s) c Ready) u Running)\<lparr>tv_current := Some u\<rparr>"
    have d: "dispatch H s f = Some (s', f')"
      using y cur f by (simp add: dispatch_def syscall_yield run_syscall_def)
    with dispatch_inv [OF laws inv, of f] have "kernel_inv s'" by simp
    moreover have "current_of s' = Some u" using arg_cong [OF v, of tv_current] by simp
    then have "ring s' = rotate1 (ring s)" using ready cur head by (simp add: ring_def del: wait_list.simps)
    ultimately show ?thesis using d by blast
  qed
qed

lemma yields_rotate:
  assumes laws: "frame_laws H" "paging_laws H" and inv: "kernel_inv s" and cur: "current_of s \<noteq> None"
    and fs: "\<forall>f\<in>set fs. h_syscall_number H f = 12"
  shows "\<exists>s'. run_traps H s fs = Some s' \<and> ring s' = rotate (length fs) (ring s)"
  using inv cur fs
proof (induction fs arbitrary: s)
  case (Cons f fs)
  from Cons.prems(2) obtain c where "current_of s = Some c" by blast
  moreover have "h_syscall_number H f = 12" using Cons.prems(3) by simp
  ultimately obtain s1 f1 where d: "dispatch H s f = Some (s1, f1)" "kernel_inv s1" "ring s1 = rotate1 (ring s)"
    using yield_rotates [OF laws Cons.prems(1)] by blast
  have "current_of s1 \<noteq> None" using dispatch_keeps_current [OF laws Cons.prems(1,2) d(1)] .
  with Cons.IH [OF d(2)] Cons.prems(3) d show ?case by (auto simp: rotate1_rotate_swap)
qed simp

end
