(* ===== verification/IpcSpec.thy ===== *)
theory IpcSpec
  imports Refine
begin

text \<open>
  What the IPC operations deliver: message contents, badges and tags, the one-shot reply link,
  signals, the registers saved and loaded by a switch, and the slots a capability transfer may
  write.
\<close>

section \<open>Registers across a switch\<close>

text \<open>
  Either the caller is still the running thread, or its registers were saved as they were at the
  trap, the new thread's saved registers were loaded and its address space, if it has one, was
  activated last.
\<close>

definition switch_ok ::
  "('f, 'w::len word, 'h, 'p) hal \<Rightarrow> tcb_id \<Rightarrow> 'f \<Rightarrow> ('w word, 'h) kernel_state \<Rightarrow> 'f \<Rightarrow> bool" where
  "switch_ok H c f s' f' \<longleftrightarrow> current_of s' = Some c
     \<or> (\<exists>u y yc. current_of s' = Some u \<and> get_tcb s' u = Some y
          \<and> f' = restore_into H (tcb_context y) f \<and> (\<exists>hw. ks_hw s' = activate_if_paged H y hw)
          \<and> get_tcb s' c = Some yc \<and> tcb_context yc = save_from H f)"

lemma get_tcb_resume:
  "get_tcb (fst (resume H s f n)) t
     = (if n = t then map_option (\<lambda>y. y\<lparr>tcb_state := Running\<rparr>) (get_tcb s t) else get_tcb s t)"
  by (simp add: resume_def Let_def split: option.split)

lemma current_of_resume: "current_of (fst (resume H s f n)) = Some n"
  by (simp add: resume_def Let_def split: option.split)

lemma snd_resume: "get_tcb s n = Some x \<Longrightarrow> snd (resume H s f n) = restore_into H (tcb_context x) f"
  by (simp add: resume_Some)

lemma resume_activates:
  "get_tcb s n = Some x \<Longrightarrow> ks_hw (fst (resume H s f n)) = activate_if_paged H (x\<lparr>tcb_state := Running\<rparr>) (ks_hw s)"
  by (simp add: resume_Some activate_if_paged_def cong: option.case_cong)

lemma resume_switch_ok:
  assumes c: "get_tcb s c = Some yc" "tcb_context yc = save_from H f" and n: "get_tcb s n \<noteq> None"
    and r: "resume H s f n = (s', f')"
  shows "switch_ok H c f s' f'"
proof (cases "n = c")
  case True
  with current_of_resume [of H s f n] r show ?thesis by (simp add: switch_ok_def)
next
  case False
  from n obtain x where x: "get_tcb s n = Some x" by blast
  have "current_of s' = Some n" and "f' = restore_into H (tcb_context x) f"
    and "get_tcb s' n = Some (x\<lparr>tcb_state := Running\<rparr>)" and "get_tcb s' c = Some yc"
    and "ks_hw s' = activate_if_paged H (x\<lparr>tcb_state := Running\<rparr>) (ks_hw s)"
    using resume_activates [OF x, of H f] current_of_resume [of H s f n] snd_resume [OF x, of H f] get_tcb_resume [of H s f n] r x c(1) False
    by auto
  with c(2) show ?thesis by (auto simp: switch_ok_def)
qed

lemma saved_current:
  assumes "current_of s = Some c" and "get_tcb s c = Some tc"
  shows "\<exists>yc. get_tcb (save_current H s f) c = Some yc \<and> tcb_context yc = save_from H f"
  using assms by (simp add: get_tcb_save_current)

lemma switch_to_ok:
  assumes "current_of s = Some c" and "get_tcb s c \<noteq> None" and "get_tcb s n \<noteq> None"
    and "switch_to H s f n = (s', f')"
  shows "switch_ok H c f s' f'"
proof -
  from assms(1,2) obtain yc where "get_tcb (save_current H s f) c = Some yc" "tcb_context yc = save_from H f"
    using saved_current [of s c _ H f] by blast
  moreover have "get_tcb (save_current H s f) n \<noteq> None" using assms(3) by (simp add: get_tcb_save_current)
  moreover have "resume H (save_current H s f) f n = (s', f')" using assms(4) by (simp add: switch_to_def)
  ultimately show ?thesis by (rule resume_switch_ok)
qed

lemma block_current_ok:
  assumes cur: "current_of s = Some c" and c: "get_tcb s c \<noteq> None"
    and q: "queue_wf (sch_ready (ks_scheduler s))" and live: "\<forall>t\<in>set (wait_list s PReady). get_tcb s t \<noteq> None"
    and b: "block_current H s f = Some (True, s', f')"
  shows "switch_ok H c f s' f'"
proof -
  have "has_ready s" using b by (auto simp: block_current_def split: if_splits)
  then obtain n ns where head: "wait_list s PReady = n # ns"
    using has_ready_iff [OF q] by (auto simp: neq_Nil_conv)
  let ?p = "pop_ready (set_current (save_current H s f) None)"
  from cur c obtain yc where "get_tcb ?p c = Some yc" "tcb_context yc = save_from H f"
    using saved_current [of s c _ H f] by auto
  moreover have "get_tcb ?p n \<noteq> None" using live head by (simp add: get_tcb_save_current)
  moreover have "resume H ?p f n = (s', f')" using block_current_run [OF q head, of H f] b by simp
  ultimately show ?thesis by (rule resume_switch_ok)
qed

lemma make_ready_current [simp]: "current_of (make_ready s t) = current_of s"
  by (simp add: make_ready_def split: option.split)

lemma deliver_fields [simp]:
  "ks_scheduler (deliver_payload s t b m1 m2 m3 tg) = ks_scheduler s"
  "get_tcb (deliver_payload s t b m1 m2 m3 tg) u
     = (if t = u then map_option (\<lambda>tcb. tcb\<lparr>tcb_context :=
          ctx_set_tag (ctx_set_mr (ctx_set_mr (ctx_set_mr (ctx_set_mr (tcb_context tcb) 0 b) 1 m1) 2 m2) 3 m3) tg\<rparr>)
          (get_tcb s u) else get_tcb s u)"
  by (simp_all add: deliver_payload_def)

text \<open>A block, in the states the handlers block in: the caller queued, everyone else as before.\<close>

lemma ready_threads_exist: "queued_once (threads_of s) \<Longrightarrow> \<forall>t\<in>set (wait_list s PReady). get_tcb s t \<noteq> None"
  by (auto simp: queued_once_def bind_eq_Some_conv simp flip: wait_list.simps(1))

lemma block_handler_ok:
  assumes run: "running c s" and "\<And>t. get_tcb s1 t = None \<longleftrightarrow> get_tcb s t = None"
    and sch: "ks_scheduler s1 = ks_scheduler s" and b: "block_current H s1 f = Some (True, s', f')"
  shows "switch_ok H c f s' f'"
proof (rule block_current_ok [OF _ _ _ _ b])
  note R = runningD [OF run]
  show "current_of s1 = Some c" and "queue_wf (sch_ready (ks_scheduler s1))" using R(5,7) sch by simp_all
  show "get_tcb s1 c \<noteq> None" using R(6) assms(2) [of c] by auto
  show "\<forall>t\<in>set (wait_list s1 PReady). get_tcb s1 t \<noteq> None"
    using ready_threads_exist [OF R(3)] assms(2) sch by simp
qed

lemma block_on_endpoint_switch:
  assumes run: "running c s"
  shows "on_ok (switch_ok H c f) (block_on_endpoint H s f c e side q x)"
proof (unfold block_on_endpoint_def Let_def, (intro peel_on_ok; (rule on_ok_simps)?), goal_cases)
  case (1 k q')
  show ?case
  proof (cases k)
    case True
    let ?s1 = "set_thread_state (set_endpoint_queue s e (side q')) c x"
    show ?thesis
    proof (cases "block_current H ?s1 f")
      case (Some r)
      obtain g s' f' where r: "r = (g, s', f')" by (cases r)
      show ?thesis
        using block_handler_ok [OF run, of ?s1 H f s' f'] Some r True by (cases g) auto
    qed (use True in simp)
  qed simp
qed

lemma stay_switch: "current_of s' = Some c \<Longrightarrow> switch_ok H c f s' f'"
  by (simp add: switch_ok_def)

lemma offered_current: "offer_cap s t d x = Inr s1 \<Longrightarrow> current_of s1 = current_of s"
  by (simp add: offer_cap_effect(4))

lemma send_switch:
  assumes run: "running c s"
  shows "on_ok (switch_ok H c f) (send H s c p f nb)"
proof (unfold send_def Let_def, (intro peel_on_ok; (rule on_ok_simps)?), goal_cases)
qed (auto intro!: stay_switch block_on_endpoint_switch [OF run] simp: runningD(5) [OF run] offered_current)

lemma recv_switch:
  assumes run: "running c s"
  shows "on_ok (switch_ok H c f) (recv H s c p f)"
proof (unfold recv_def Let_def, (intro peel_on_ok; (rule on_ok_simps)?), goal_cases)
qed (auto intro!: stay_switch block_on_endpoint_switch [OF run] simp: runningD(5) [OF run] offered_current)

lemma make_ready_exists: "(\<exists>y. get_tcb (make_ready s t) u = Some y) = (\<exists>y. get_tcb s u = Some y)"
  by (auto simp: make_ready_def split: option.splits)

lemma waiter_exists:
  assumes run: "running c s" and ep: "pool_get (ks_endpoints s) (endpoint_ix e) = Some ep" "ep_queue ep = QRecv q"
    and pop: "aq_pop_front q = (Some t, q')"
  shows "\<exists>x d. get_tcb s t = Some x \<and> tcb_state x = BlockedRecv e d" and "t \<noteq> c"
proof -
  note R = runningD [OF run]
  have "queue_wf q" using wf_objects(1) [OF R(1) ep(1)] ep(2) by simp
  from pop_head(1) [OF this pop] have "wait_list s (PRecv e) = t # aq_list q'" using ep by simp
  then have "\<exists>d. tv_state (threads_of s) t = Some (BlockedRecv e d)"
    by (intro head_states(3) [OF R(3)]) simp
  then show "\<exists>x d. get_tcb s t = Some x \<and> tcb_state x = BlockedRecv e d" by auto
  then show "t \<noteq> c" using R(6) by auto
qed

lemma call_switch:
  assumes run: "running c s"
  shows "on_ok (switch_ok H c f) (call H s c p f)"
proof (unfold call_def Let_def, (intro peel_on_ok; (rule on_ok_simps)?), goal_cases)
  case (3 _ e b _ x m1 m m2 m3 ep q t s1 t0 q' t' s' f')
  then have ep: "pool_get (ks_endpoints s) (endpoint_ix e) = Some ep" and pop: "aq_pop_front q = (Some t', q')" by simp_all
  from waiter_exists [OF run ep 3(8) pop] runningD(6) [OF run] offer_cap_effect(1) [OF 3(10)]
  have "switch_ok H c f s' f'"
    by (intro switch_to_ok [OF _ _ _ 3(13)]) (auto simp: runningD(5) [OF run] offered_current [OF 3(10)])
  then show ?case by simp
qed (auto intro!: block_on_endpoint_switch [OF run])

lemma reply_switch:
  assumes run: "running c s"
  shows "on_ok (switch_ok H c f) (reply H s c f)"
proof (unfold reply_def Let_def, (intro peel_on_ok; (rule on_ok_simps)?), goal_cases)
  case (1 _ x m1 m m2 m3 tc t s1 tt s' f')
  then have c: "get_tcb s c = Some tc" "tcb_reply_to tc = Some t" by simp_all
  have "switch_ok H c f s' f'"
    using reply_target(1) [OF run c] c(1) offer_cap_effect(1) [OF 1(7)]
    by (intro switch_to_ok [OF _ _ _ 1(9)])
       (auto simp: runningD(5) [OF run] offered_current [OF 1(7)] make_ready_exists)
  then show ?case by simp
qed

lemma wait_switch:
  assumes run: "running c s"
  shows "on_ok (switch_ok H c f) (wait H s c p f)"
proof (unfold wait_def Let_def, (intro peel_on_ok; (rule on_ok_simps)?), goal_cases)
  case (1 _ n b x)
  show ?case by (simp add: stay_switch runningD(5) [OF run])
next
  case (2 _ n b x k q')
  let ?s1 = "set_thread_state (update_notification s n (\<lambda>y. y\<lparr>ntfn_waiters := q'\<rparr>)) c (BlockedWait n)"
  show ?case
  proof (cases "block_current H ?s1 f")
    case (Some r)
    obtain g s' f' where r: "r = (g, s', f')" by (cases r)
    show ?thesis
      using block_handler_ok [OF run, of ?s1 H f s' f'] Some r by (cases g; cases k) auto
  qed (cases k; simp)
qed

lemma yield_switch:
  assumes laws: "frame_laws H" and run: "running c s"
  shows "on_ok (\<lambda>s' f'. \<exists>f0. switch_ok H c f s' f0 \<and> f' = reply_success H f0) (yield_now H s c f)"
proof (cases "block_current H (make_ready s c) f")
  case (Some r)
  note R = runningD [OF run]
  obtain g s' f' where r: "r = (g, s', f')" by (cases r)
  obtain tc where tc: "get_tcb s c = Some tc" "tcb_state tc = Running" using R(6) by blast
  have view: "threads_of (make_ready s c) = (threads_of s)\<lparr>tv_state := (tv_state (threads_of s))(c \<mapsto> Ready),
      tv_queue := (wait_list s)(PReady := wait_list s PReady @ [c])\<rparr>"
    using tc ready_room [OF R(1,3) tc(1)] R(7) by (intro threads_of_make_ready [OF tc(1)]) simp_all
  have "wait_list (make_ready s c) = (wait_list s)(PReady := wait_list s PReady @ [c])"
    using arg_cong [OF view, of tv_queue] by simp
  then have live: "\<forall>t\<in>set (wait_list (make_ready s c) PReady). get_tcb (make_ready s c) t \<noteq> None"
    using ready_threads_exist [OF R(3)] tc by (auto simp: make_ready_exists simp del: wait_list.simps)
  have wf: "queue_wf (sch_ready (ks_scheduler (make_ready s c)))"
    using wf_make_ready [OF R(1), of c] by (rule wf_objects)
  have "switch_ok H c f s' f'" if g
    using block_current_ok [of "make_ready s c" c H f s' f', OF _ _ wf live] Some r that tc R(5)
    by (auto simp: make_ready_exists)
  then show ?thesis using Some r by (cases g) (auto simp: yield_now_def)
qed (simp add: yield_now_def)

end
