(* ===== verification/System.thy ===== *)
theory System
  imports Refine IpcSpec
begin

text \<open>
  Facts about whole traps: waiting in one queue once, authority over a run of traps, what an
  error leaves, and which registers the thread that runs next finds.
\<close>

section \<open>Waiting once\<close>

lemma count_distinct: "distinct xs \<Longrightarrow> count_list xs x = (if x \<in> set xs then 1 else 0)"
  by (induction xs) auto

lemma queued_count:
  assumes "queued_once v"
  shows "count_list (tv_queue v p) t = (if Option.bind (tv_state v t) place_of = Some p then 1 else 0)"
  using assms by (auto simp: queued_once_def count_distinct)

lemma reachable_threads:
  assumes "frame_laws H" and "paging_laws H" and "reachable H s"
  shows "queued_once (threads_of s)" and "one_running (threads_of s)" and "replies_ok (threads_of s)"
    and "rendezvous_ok (threads_of s)" and "signals_ok (threads_of s)"
  using reachable_inv [OF assms] by (simp_all add: kernel_inv_def threads_ok_def)

lemma ring_bound:
  assumes inv: "kernel_inv s"
  shows "length (ring s) \<le> MAX_TCBS"
proof (cases "current_of s")
  case (Some c)
  then have run: "running c s" using inv by (simp add: running_def)
  note R = runningD [OF run]
  obtain tc where "get_tcb s c = Some tc" "tcb_state tc \<noteq> Ready" using R(6) by auto
  from ready_room [OF R(1,3) this] Some show ?thesis by (simp add: ring_def del: wait_list.simps)
qed (simp add: ring_def)

section \<open>Authority over a run\<close>

lemma dispatch_step:
  assumes "frame_laws H" and "paging_laws H" and "kernel_inv s" and d: "dispatch H s f = Some (s', f')"
  shows "threads_of s' = threads_of s \<or> (\<exists>c. current_of s = Some c \<and> tstep c (threads_of s) (threads_of s'))"
  by (rule dispatch_cases [OF assms(1-3), of f]) (use d in \<open>auto simp: running_def\<close>)

lemma dispatch_authority:
  assumes "frame_laws H" and "paging_laws H" and "kernel_inv s" and d: "dispatch H s f = Some (s', f')"
  shows "authority_step s s'"
  by (rule dispatch_cases [OF assms(1-3), of f]) (use d in \<open>auto intro: quiet_authority quiet_refl\<close>)

definition authority_run :: "('b, 'h) kernel_state \<Rightarrow> ('b, 'h) kernel_state \<Rightarrow> bool" where
  "authority_run s s' \<longleftrightarrow> (\<forall>c\<in>caps_of s'. derived s s' c)
     \<and> (\<forall>i\<in>cspaces s'. i \<in> cspaces s \<or> CNodeCap i \<in> caps_of s \<or> \<not> object_exists s (RCNode i))
     \<and> (\<forall>r. object_exists s r \<longrightarrow> object_exists s' r)"

lemma authority_run_refl: "authority_run s s"
  by (auto simp: authority_run_def derived_def)

lemma derived_trans:
  assumes run: "authority_run s s1" and step: "authority_step s1 s2" and c: "derived s1 s2 c"
  shows "derived s s2 c"
proof -
  from c consider (held) c1 where "c1 \<in> caps_of s1" "cap_le c c1"
    | (fresh) r where "cap_object c = Some r" "\<not> object_exists s1 r" "object_exists s2 r"
    by (auto simp: derived_def)
  then show ?thesis
  proof cases
    case held
    then have "derived s s1 c1" using run by (simp add: authority_run_def)
    with held(2) step show ?thesis
      unfolding derived_def authority_step_def cap_le_def by (metis order_trans)
  next
    case fresh
    with run show ?thesis unfolding derived_def authority_run_def by metis
  qed
qed

lemma cap_le_CNode: "cap_le (CNodeCap i) c \<Longrightarrow> c = CNodeCap i"
  by (cases c) (auto simp: cap_le_def)

lemma authority_run_step:
  assumes run: "authority_run s s1" and step: "authority_step s1 s2"
  shows "authority_run s s2"
proof -
  have "derived s s2 c" if "c \<in> caps_of s2" for c
    using derived_trans [OF run step] step that by (simp add: authority_step_def)
  moreover have "i \<in> cspaces s \<or> CNodeCap i \<in> caps_of s \<or> \<not> object_exists s (RCNode i)"
    if "i \<in> cspaces s2" for i
  proof (cases "i \<in> cspaces s1")
    case True then show ?thesis using run by (simp add: authority_run_def)
  next
    case False
    with step that have "CNodeCap i \<in> caps_of s1" by (auto simp: authority_step_def)
    with run have "derived s s1 (CNodeCap i)" by (simp add: authority_run_def)
    then show ?thesis by (auto simp: derived_def dest: cap_le_CNode)
  qed
  moreover have "object_exists s2 r" if "object_exists s r" for r
    using run step that by (simp add: authority_run_def authority_step_def)
  ultimately show ?thesis by (simp add: authority_run_def)
qed

lemma run_traps_authority:
  assumes laws: "frame_laws H" "paging_laws H" and "kernel_inv s1" and "authority_run s s1"
    and "run_traps H s1 fs = Some s'"
  shows "authority_run s s'"
  using assms(3-)
proof (induction fs arbitrary: s1)
  case (Cons f fs)
  from dispatch_inv [OF laws Cons.prems(1), of f] obtain s2 f2
    where d: "dispatch H s1 f = Some (s2, f2)" "kernel_inv s2" by blast
  from authority_run_step [OF Cons.prems(2) dispatch_authority [OF laws Cons.prems(1) d(1)]]
  show ?case using Cons.IH [OF d(2)] Cons.prems(3) d(1) by simp
qed simp

section \<open>Errors\<close>

lemma dispatch_run:
  "current_of s = Some c \<Longrightarrow> syscall_from_usize (h_syscall_number H f) = Some n \<Longrightarrow>
   dispatch H s f = (case run_syscall H s c f n of Ok s f \<Rightarrow> Some (s, f)
     | Err e s f \<Rightarrow> Some (s, reply_error H f e) | Panic \<Rightarrow> None)"
  by (simp add: dispatch_def split: outcome.split)

lemma run_syscall_Err:
  assumes "frame_laws H" and "paging_laws H" and "running c s" and "run_syscall H s c f n = Err e s1 f1"
  shows "f1 = f" and "threads_of s1 = threads_of s" and "quiet s s1" and "state_wf s1"
    and "n \<noteq> SysUntypedRetype \<Longrightarrow> n \<noteq> SysFrameInvoke \<Longrightarrow> s1 = s"
  using run_syscall_sound [OF assms(1-3), of f n] run_syscall_atomic [OF assms(1,3), of n f] assms(4)
  by (auto simp: sound_def)

section \<open>The switch, at the trap\<close>

text \<open>The calls that never change the running thread.\<close>

lemma write_slot_current [simp]: "current_of (write_slot s i j cap) = current_of s"
  by simp

lemma signal_stays: "on_ok (\<lambda>s' f'. current_of s' = current_of s) (signal H s c p f)"
  unfolding signal_def Let_def by (intro peel_on_ok) simp_all

lemma nbsend_stays: "on_ok (\<lambda>s' f'. current_of s' = current_of s) (send H s c p f True)"
  unfolding send_def Let_def by (intro peel_on_ok) (simp_all add: offered_current)

lemma poll_stays: "on_ok (\<lambda>s' f'. current_of s' = current_of s) (poll H s c p f)"
  unfolding poll_def Let_def by (intro peel_on_ok) simp_all

lemma cnode_stays: "on_ok (\<lambda>s' f'. current_of s' = current_of s) (cnode_invoke H s c p f)"
  unfolding cnode_invoke_def Let_def
  by (intro peel_on_ok peel_on_ok_cap)
     (auto split: if_splits elim!: mint_Inr copy_Inr move_cap_Inr delete_Inr copy_cross_Inr)

lemma retype_object_scheduler: "retype_object H s uid ot = Some (r, s') \<Longrightarrow> ks_scheduler s' = ks_scheduler s"
  by (auto simp: retype_object_def Let_def split: object_type.splits option.splits prod.splits if_splits)

lemma retype_commit_scheduler: "retype_commit s i d u cap = Some s' \<Longrightarrow> ks_scheduler s' = ks_scheduler s"
  by (auto simp: retype_commit_def Let_def split: option.splits if_splits)

lemma retype_stays: "on_ok (\<lambda>s' f'. current_of s' = current_of s) (untyped_retype H s c p f)"
  unfolding untyped_retype_def Let_def
  by (intro peel_on_ok peel_on_ok_cap) (auto dest!: retype_object_scheduler retype_commit_scheduler)

lemma configure_stays: "on_ok (\<lambda>s' f'. current_of s' = current_of s) (configure H s c p f)"
  unfolding configure_def Let_def by (intro peel_on_ok peel_on_ok_cap) simp_all

lemma frame_map_stays: "on_ok (\<lambda>s' f'. current_of s' = current_of s) (frame_map H s c fid f)"
  unfolding frame_map_def Let_def by (intro peel_on_ok) simp_all

lemma frame_unmap_stays: "on_ok (\<lambda>s' f'. current_of s' = current_of s) (frame_unmap H s c fid f)"
  unfolding frame_unmap_def Let_def by (intro peel_on_ok) simp_all

lemma on_ok_reply:
  "on_ok (\<lambda>s' f'. P s') r \<Longrightarrow>
   on_ok (\<lambda>s' f'. P s') (case r of Ok s f \<Rightarrow> Ok s (g f) | Err e s f \<Rightarrow> Err e s f | Panic \<Rightarrow> Panic)"
  by (cases r) auto

lemma frame_stays: "on_ok (\<lambda>s' f'. current_of s' = current_of s) (frame_invoke H s c p f)"
  unfolding frame_invoke_def Let_def
  by (intro peel_on_ok peel_on_ok_cap on_ok_reply) (simp_all add: frame_map_stays frame_unmap_stays)

lemma on_okD: "on_ok Q r \<Longrightarrow> r = Ok s f \<Longrightarrow> Q s f"
  by simp

lemma on_ok_mono: "on_ok P r \<Longrightarrow> (\<And>s f. P s f \<Longrightarrow> Q s f) \<Longrightarrow> on_ok Q r"
  by (cases r) auto

text \<open>
  \<open>yield_now\<close> ends with \<open>reply_success\<close> on the registers of whichever thread runs then; the other
  calls that switch leave those registers as they were restored.
\<close>

definition switched ::
  "bool \<Rightarrow> ('f, 'w::len word, 'h, 'p) hal \<Rightarrow> tcb_id \<Rightarrow> 'f \<Rightarrow> ('w word, 'h) kernel_state \<Rightarrow> 'f \<Rightarrow> bool" where
  "switched yields H c f s' f' \<longleftrightarrow> current_of s' = Some c
     \<or> (\<exists>f0. switch_ok H c f s' f0 \<and> f' = (if yields then reply_success H f0 else f0))"

lemma run_syscall_switch:
  assumes laws: "frame_laws H" and run: "running c s"
  shows "on_ok (switched (n = SysYield) H c f) (run_syscall H s c f n)"
proof -
  have weaken: "on_ok (switch_ok H c f) r \<Longrightarrow> on_ok (switched False H c f) r"
    "on_ok (\<lambda>s' f'. current_of s' = current_of s) r \<Longrightarrow> on_ok (switched False H c f) r"
    for r :: "(('b word, 'c) kernel_state, 'a) outcome"
    using runningD(5) [OF run] by (auto elim!: on_ok_mono simp: switched_def)
  have yield: "on_ok (switched True H c f) (yield_now H s c f)"
    using yield_switch [OF laws run, of f] by (auto elim!: on_ok_mono simp: switched_def)
  show ?thesis
    by (cases n) (simp_all add: run_syscall_def yield weaken(1) [OF send_switch [OF run]]
        weaken(1) [OF recv_switch [OF run]] weaken(1) [OF call_switch [OF run]]
        weaken(1) [OF reply_switch [OF run]] weaken(1) [OF wait_switch [OF run]] weaken(2) [OF signal_stays]
        weaken(2) [OF poll_stays] weaken(2) [OF cnode_stays] weaken(2) [OF retype_stays]
        weaken(2) [OF configure_stays] weaken(2) [OF frame_stays])
qed

lemma yield_number: "syscall_from_usize k = Some n \<Longrightarrow> (n = SysYield) = (k = 12)"
  by (auto simp: syscall_from_usize_def split: if_splits)

text \<open>What the next thread finds in its registers is what was saved for it.\<close>

lemma reply_success_raw:
  "frame_laws H \<Longrightarrow> h_raw_word H (reply_success H f) k = h_raw_word H f k"
  by (simp add: reply_success_def Let_def frame_law_simps)

lemma reply_success_clears:
  "frame_laws H \<Longrightarrow> h_tag H (reply_success H f)
     = (h_tag H f)\<lparr>tag_flags := tag_flags (h_tag H f) AND NOT (h_flag_error H)\<rparr>"
  by (simp add: reply_success_def Let_def frame_law_simps)

lemma dispatch_switch:
  assumes laws: "frame_laws H" "paging_laws H" and inv: "kernel_inv s" and cur: "current_of s = Some c"
    and d: "dispatch H s f = Some (s', f')" and u: "current_of s' = Some u" "u \<noteq> c"
  shows "\<exists>y. get_tcb s' c = Some y \<and> tcb_context y = save_from H f"
    and "\<exists>y. get_tcb s' u = Some y \<and> (\<forall>i<4. h_mr H f' i = ctx_mr (tcb_context y) i)
           \<and> (\<forall>k<RAW_WORDS. h_raw_word H f' k = ctx_raw (tcb_context y) ! k)
           \<and> (\<forall>root. tcb_address_space y = Some root \<longrightarrow> h_active H (ks_hw s') = Some root)
           \<and> h_tag H f' = (let tag = ctx_tag (tcb_context y) in if h_syscall_number H f = 12
                then tag\<lparr>tag_flags := tag_flags tag AND NOT (h_flag_error H)\<rparr> else tag)"
proof -
  have run: "running c s" using inv cur by (simp add: running_def)
  let ?yields = "h_syscall_number H f = 12"
  have "switched ?yields H c f s' f'"
  proof (rule dispatch_cases [OF laws inv, of f])
    fix c' n s1 f1
    assume "running c' s" and n: "syscall_from_usize (h_syscall_number H f) = Some n"
      and ok: "run_syscall H s c' f n = Ok s1 f1" and "dispatch H s f = Some (s1, f1)"
    with d cur runningD(5) have "c' = c" and "s1 = s'" and "f1 = f'" by fastforce+
    with on_okD [OF run_syscall_switch [OF laws(1) run, of n]] ok show ?thesis by (simp add: yield_number [OF n])
  next
    fix c' e s1
    assume "dispatch H s f = Some (s1, reply_error H f e)" and view: "threads_of s1 = threads_of s"
    with d cur arg_cong [OF view, of tv_current] show ?thesis by (simp add: switched_def)
  qed (use cur in simp)
  with u obtain f0 y yc hw where y: "get_tcb s' u = Some y" "f0 = restore_into H (tcb_context y) f"
    "f' = (if ?yields then reply_success H f0 else f0)" and hw: "ks_hw s' = activate_if_paged H y hw" and yc: "get_tcb s' c = Some yc" "tcb_context yc = save_from H f"
    by (auto simp: switched_def switch_ok_def)
  have "kernel_inv s'" using dispatch_inv [OF laws inv, of f] d by simp
  then have "ctx_wf (tcb_context y)" using wf_objects(3) y(1) by (auto simp: kernel_inv_def)
  note R = restore_into_reads(2-4) [OF laws(1) this, where f = f]
  from yc show "\<exists>y. get_tcb s' c = Some y \<and> tcb_context y = save_from H f" by blast
  have "h_active H (ks_hw s') = Some root" if "tcb_address_space y = Some root" for root
    using that laws(2) by (simp add: hw activate_if_paged_def paging_laws_def)
  with y R show "\<exists>y. get_tcb s' u = Some y \<and> (\<forall>i<4. h_mr H f' i = ctx_mr (tcb_context y) i)
           \<and> (\<forall>k<RAW_WORDS. h_raw_word H f' k = ctx_raw (tcb_context y) ! k)
           \<and> (\<forall>root. tcb_address_space y = Some root \<longrightarrow> h_active H (ks_hw s') = Some root)
           \<and> h_tag H f' = (let tag = ctx_tag (tcb_context y) in if ?yields
                then tag\<lparr>tag_flags := tag_flags tag AND NOT (h_flag_error H)\<rparr> else tag)"
    by (auto simp: reply_success_tag(2) [OF laws(1)] reply_success_raw [OF laws(1)] reply_success_clears [OF laws(1)] Let_def)
qed

section \<open>The system calls by number\<close>

lemma syscall_numbers:
  "syscall_from_usize 1 = Some SysSend" "syscall_from_usize 2 = Some SysNBSend" "syscall_from_usize 3 = Some SysRecv"
  "syscall_from_usize 4 = Some SysCall" "syscall_from_usize 5 = Some SysReply" "syscall_from_usize 6 = Some SysSignal"
  "syscall_from_usize 7 = Some SysWait" "syscall_from_usize 8 = Some SysPoll" "syscall_from_usize 9 = Some SysCNodeInvoke"
  "syscall_from_usize 10 = Some SysUntypedRetype" "syscall_from_usize 11 = Some SysTCBConfigure"
  "syscall_from_usize 12 = Some SysYield" "syscall_from_usize 13 = Some SysFrameInvoke"
  by (simp_all add: syscall_from_usize_def)

lemma run_syscall_simps:
  "run_syscall H s c f SysSend = send H s c (h_mr H f 0) f False"
  "run_syscall H s c f SysNBSend = send H s c (h_mr H f 0) f True"
  "run_syscall H s c f SysRecv = recv H s c (h_mr H f 0) f"
  "run_syscall H s c f SysCall = call H s c (h_mr H f 0) f"
  "run_syscall H s c f SysReply = reply H s c f"
  "run_syscall H s c f SysSignal = signal H s c (h_mr H f 0) f"
  "run_syscall H s c f SysWait = wait H s c (h_mr H f 0) f"
  "run_syscall H s c f SysPoll = poll H s c (h_mr H f 0) f"
  "run_syscall H s c f SysCNodeInvoke = cnode_invoke H s c (h_mr H f 0) f"
  "run_syscall H s c f SysUntypedRetype = untyped_retype H s c (h_mr H f 0) f"
  "run_syscall H s c f SysTCBConfigure = configure H s c (h_mr H f 0) f"
  "run_syscall H s c f SysFrameInvoke = frame_invoke H s c (h_mr H f 0) f"
  by (simp_all add: run_syscall_def Let_def)

text \<open>A trap whose system call ended.\<close>

lemma dispatch_Ok:
  "running c s \<Longrightarrow> syscall_from_usize (h_syscall_number H f) = Some n \<Longrightarrow> run_syscall H s c f n = Ok s' f'
   \<Longrightarrow> dispatch H s f = Some (s', f')"
  by (simp add: dispatch_run runningD(5))

lemma dispatch_Err:
  "running c s \<Longrightarrow> syscall_from_usize (h_syscall_number H f) = Some n \<Longrightarrow> run_syscall H s c f n = Err e s' f'
   \<Longrightarrow> dispatch H s f = Some (s', reply_error H f' e)"
  by (simp add: dispatch_run runningD(5))

end
