(* ===== verification/Confine.thy ===== *)
theory Confine
  imports System
begin

text \<open>
  What a handler may change of others. \<open>tame\<close>: an IPC operation keeps the raw registers of
  every thread but the caller, writes only empty capability slots, and only capabilities that
  were sent to be granted. \<open>tcbs_kept\<close> and \<open>slots_kept\<close>: what the administrative operations
  keep.
\<close>

section \<open>What an IPC operation may change of others\<close>

definition sendable :: "tcb_id \<Rightarrow> ('b, 'h) kernel_state \<Rightarrow> capability set" where
  "sendable c s = {k. \<exists>t x e b q d. get_tcb s t = Some x \<and> tcb_state x = BlockedSend e b q (Some k) d}
     \<union> {k. \<exists>p. resolve_transferable_cap s c p = Inr k}"

definition same_raw :: "'b tcb \<Rightarrow> 'b tcb \<Rightarrow> bool" where
  "same_raw x y \<longleftrightarrow> ctx_raw (tcb_context y) = ctx_raw (tcb_context x)
     \<and> ctx_syscall_num (tcb_context y) = ctx_syscall_num (tcb_context x)"

definition tame :: "tcb_id \<Rightarrow> ('b, 'h) kernel_state \<Rightarrow> ('b, 'h) kernel_state \<Rightarrow> bool" where
  "tame c s0 s \<longleftrightarrow>
     (\<forall>t x. t \<noteq> c \<longrightarrow> get_tcb s0 t = Some x \<longrightarrow> (\<exists>y. get_tcb s t = Some y \<and> same_raw x y))
   \<and> (\<forall>i j. slot_cap s i j = slot_cap s0 i j
        \<or> slot_cap s0 i j = Some Null \<and> (\<exists>k\<in>sendable c s0. slot_cap s i j = Some k))
   \<and> (\<forall>t x e b q k d. get_tcb s t = Some x \<longrightarrow> tcb_state x = BlockedSend e b q (Some k) d \<longrightarrow> k \<in> sendable c s0)"

named_theorems tame_rules

lemma tame_refl [tame_rules]: "tame c s s"
  by (auto simp: tame_def sendable_def same_raw_def)

lemma tame_cong:
  assumes "tame c s0 s" and "ks_tcbs s' = ks_tcbs s" and "ks_cnodes s' = ks_cnodes s"
  shows "tame c s0 s'"
proof -
  have "slot_cap s' = slot_cap s" using assms(3) by (simp add: slot_cap_def fun_eq_iff)
  with assms show ?thesis by (simp add: tame_def)
qed

lemma tame_simple [tame_rules]:
  "tame c s0 s \<Longrightarrow> tame c s0 (set_current s u)"
  "tame c s0 s \<Longrightarrow> tame c s0 (push_ready s t)"
  "tame c s0 s \<Longrightarrow> tame c s0 (set_endpoint_queue s e q)"
  "tame c s0 s \<Longrightarrow> tame c s0 (update_notification s n g)"
  "tame c s0 s \<Longrightarrow> tame c s0 (s\<lparr>ks_hw := h\<rparr>)"
  "tame c s0 s \<Longrightarrow> tame c s0 (s\<lparr>ks_scheduler := x\<rparr>)"
  by (erule tame_cong; simp)+

lemma tame_update_tcb:
  assumes tame: "tame c s0 s" and raw: "t = c \<or> (\<forall>x. same_raw x (g x))"
    and st: "\<And>x e b q k d. get_tcb s t = Some x \<Longrightarrow> tcb_state (g x) = BlockedSend e b q (Some k) d \<Longrightarrow> k \<in> sendable c s0"
  shows "tame c s0 (update_tcb s t g)"
proof -
  have slots: "slot_cap (update_tcb s t g) = slot_cap s" by (simp add: slot_cap_def fun_eq_iff)
  have 1: "\<exists>y. get_tcb (update_tcb s t g) u = Some y \<and> same_raw x y" if u: "u \<noteq> c" "get_tcb s0 u = Some x" for u x
  proof -
    from tame u obtain y where y: "get_tcb s u = Some y" "same_raw x y" unfolding tame_def by blast
    with raw u(1) show ?thesis by (cases "t = u") (auto simp: same_raw_def)
  qed
  have 2: "k \<in> sendable c s0" if k: "get_tcb (update_tcb s t g) u = Some y" "tcb_state y = BlockedSend e b q (Some k) d" for u y e b q k d
  proof (cases "t = u")
    case True
    with k obtain x where "get_tcb s t = Some x" "y = g x" by auto
    with st k(2) show ?thesis by simp
  next
    case False
    with k have "get_tcb s u = Some y" by simp
    with k(2) tame show ?thesis unfolding tame_def by blast
  qed
  from tame show ?thesis unfolding tame_def slots using 1 2 by blast
qed

lemma tame_update_same [tame_rules]:
  "tame c s0 s \<Longrightarrow> (\<And>x. same_raw x (g x)) \<Longrightarrow> (\<And>x. tcb_state (g x) = tcb_state x) \<Longrightarrow> tame c s0 (update_tcb s t g)"
  by (rule tame_update_tcb) (auto simp: tame_def)

lemma tame_set_state [tame_rules]:
  "tame c s0 s \<Longrightarrow> (\<And>e b q k d. x = BlockedSend e b q (Some k) d \<Longrightarrow> k \<in> sendable c s0)
     \<Longrightarrow> tame c s0 (set_thread_state s t x)"
  unfolding set_thread_state_def by (rule tame_update_tcb) (auto simp: same_raw_def)

lemma tame_deliver [tame_rules]: "tame c s0 s \<Longrightarrow> tame c s0 (deliver_payload s t b m1 m2 m3 tg)"
  unfolding deliver_payload_def
  by (rule tame_update_same) (simp_all add: same_raw_def ctx_set_mr_def ctx_set_tag_def)

lemma tame_make_ready [tame_rules]: "tame c s0 s \<Longrightarrow> tame c s0 (make_ready s t)"
  by (auto simp: make_ready_def split: option.split intro!: tame_rules)

lemma tame_save_current:
  "tame c s0 s \<Longrightarrow> current_of s = Some c \<Longrightarrow> tame c s0 (save_current H s f)"
proof -
  assume t: "tame c s0 s" and cur: "current_of s = Some c"
  have "tame c s0 (update_tcb s c (\<lambda>x. x\<lparr>tcb_context := save_from H f\<rparr>))"
  proof (rule tame_update_tcb [OF t])
    fix x e b q k d
    assume "get_tcb s c = Some x" and "tcb_state (x\<lparr>tcb_context := save_from H f\<rparr>) = BlockedSend e b q (Some k) d"
    with t show "k \<in> sendable c s0" unfolding tame_def by simp
  qed simp
  with cur show ?thesis by (simp add: save_current_def)
qed

lemma tame_resume [tame_rules]: "tame c s0 s \<Longrightarrow> tame c s0 (fst (resume H s f n))"
  by (auto simp: resume_def Let_def split: option.split intro!: tame_rules)

lemma tame_switch:
  "switch_to H s f n = (s', f') \<Longrightarrow> tame c s0 s \<Longrightarrow> current_of s = Some c \<Longrightarrow> tame c s0 s'"
  using tame_resume [of c s0 "save_current H s f" H f n] tame_save_current [of c s0 s H f] by (simp add: switch_to_def)

lemma tame_block_current:
  assumes b: "block_current H s f = Some (g, s', f')" and t: "tame c s0 s" and cur: "current_of s = Some c"
  shows "tame c s0 s'"
proof (cases "has_ready s")
  case True
  then obtain n q where "(s', f') = resume H (set_current (save_current H s f) None
      \<lparr>ks_scheduler := ks_scheduler (set_current (save_current H s f) None)\<lparr>sch_ready := q\<rparr>\<rparr>) f n"
    using b by (auto simp: block_current_def Let_def split: option.splits prod.splits dest: sym)
  then have "s' = fst (resume H (set_current (save_current H s f) None
      \<lparr>ks_scheduler := ks_scheduler (set_current (save_current H s f) None)\<lparr>sch_ready := q\<rparr>\<rparr>) f n)"
    by (metis fst_conv)
  then show ?thesis using tame_save_current [OF t cur, of H f] by (auto intro!: tame_rules)
qed (use b t in \<open>simp add: block_current_def\<close>)

text \<open>The transfer step writes into an empty slot a capability the sender may send.\<close>

lemma tame_offer:
  assumes off: "offer_cap s t d x = Inr s1" and x: "\<And>k. x = Some k \<Longrightarrow> k \<in> sendable c s"
  shows "tame c s s1"
  using off
proof (cases rule: offer_cap_Inr)
  case none
  then show ?thesis by (simp add: tame_refl)
next
  case (placed cap d' i)
  have slots: "slot_cap s1 i' j' = (if i = i' \<and> d' = j' then Some cap else slot_cap s i' j')" for i' j'
    using placed(4) by (simp add: placed(5) slot_cap_put)
  moreover have "ks_tcbs s1 = ks_tcbs s" by (simp add: placed(5))
  moreover have "cap \<in> sendable c s" using x placed(1) by simp
  ultimately show ?thesis using placed(4) tame_refl [of c s] unfolding tame_def by auto
qed

lemma extra_cap_sendable:
  "extract_extra_cap H s c f tg = Inr (Some cap) \<Longrightarrow> cap \<in> sendable c s"
  by (auto simp: extract_extra_cap_def sendable_def split: if_splits sum.splits)

lemma flight_cap_sendable:
  "get_tcb s t = Some x \<Longrightarrow> tcb_state x = BlockedSend e b k (Some cap) d \<Longrightarrow> cap \<in> sendable c s"
  by (auto simp: sendable_def)

lemma tame_block_on_endpoint:
  assumes cur: "current_of s = Some c"
    and x: "\<And>e b q k d. x = BlockedSend e b q (Some k) d \<Longrightarrow> k \<in> sendable c s"
  shows "on_ok (\<lambda>s' f'. tame c s s') (block_on_endpoint H s f c e side q x)"
  unfolding block_on_endpoint_def Let_def
proof (intro peel_on_ok; (rule on_ok_simps)?)
qed (use cur x in \<open>auto split: option.split bool.split prod.split intro!: tame_rules dest!: tame_block_current [where c = c and ?s0.0 = s]\<close>)

lemma tame_offered:
  "offer_cap s t d x = Inr s1 \<Longrightarrow> (\<And>k. x = Some k \<Longrightarrow> k \<in> sendable c s) \<Longrightarrow> current_of s = Some c
     \<Longrightarrow> tame c s s1 \<and> current_of s1 = Some c"
  by (simp add: tame_offer offered_current)

lemma send_tame:
  assumes "current_of s = Some c"
  shows "on_ok (\<lambda>s' f'. tame c s s') (send H s c p f nb)"
proof (unfold send_def Let_def, (intro peel_on_ok; (rule on_ok_simps)?), goal_cases)
qed (use assms in \<open>auto intro!: tame_rules tame_block_on_endpoint intro: extra_cap_sendable dest!: tame_offered [where c = c]\<close>)

lemma recv_tame:
  assumes "current_of s = Some c"
  shows "on_ok (\<lambda>s' f'. tame c s s') (recv H s c p f)"
proof (unfold recv_def Let_def, (intro peel_on_ok; (rule on_ok_simps)?), goal_cases)
qed (use assms in \<open>auto intro!: tame_rules tame_block_on_endpoint intro: flight_cap_sendable dest!: tame_offered [where c = c] simp: same_raw_def\<close>)

lemma call_tame:
  assumes "current_of s = Some c"
  shows "on_ok (\<lambda>s' f'. tame c s s') (call H s c p f)"
proof (unfold call_def Let_def, (intro peel_on_ok; (rule on_ok_simps)?), goal_cases)
qed (use assms in \<open>auto intro!: tame_rules tame_block_on_endpoint intro: extra_cap_sendable dest!: tame_offered [where c = c]
       tame_switch [where c = c and ?s0.0 = s] simp: same_raw_def\<close>)

lemma reply_tame:
  assumes "current_of s = Some c"
  shows "on_ok (\<lambda>s' f'. tame c s s') (reply H s c f)"
proof (unfold reply_def Let_def, (intro peel_on_ok; (rule on_ok_simps)?), goal_cases)
qed (use assms in \<open>auto intro!: tame_rules intro: extra_cap_sendable dest!: tame_offered [where c = c]
       tame_switch [where c = c and ?s0.0 = s] simp: same_raw_def\<close>)

lemma signal_tame: "on_ok (\<lambda>s' f'. tame c s s') (signal H s c p f)"
  unfolding signal_def Let_def
  by (intro peel_on_ok) (auto intro!: tame_rules simp: same_raw_def ctx_set_mr_def)

lemma poll_tame: "on_ok (\<lambda>s' f'. tame c s s') (poll H s c p f)"
  unfolding poll_def Let_def by (intro peel_on_ok) (auto intro!: tame_rules)

lemma wait_tame:
  assumes "current_of s = Some c"
  shows "on_ok (\<lambda>s' f'. tame c s s') (wait H s c p f)"
proof (unfold wait_def Let_def, (intro peel_on_ok; (rule on_ok_simps)?), goal_cases)
qed (use assms in \<open>auto split: option.split bool.split intro!: tame_rules
       dest!: tame_block_current [where c = c and ?s0.0 = s]\<close>)

lemma yield_tame:
  assumes "current_of s = Some c"
  shows "on_ok (\<lambda>s' f'. tame c s s') (yield_now H s c f)"
  unfolding yield_now_def Let_def
  using assms by (auto split: option.split bool.split intro!: tame_rules
      dest!: tame_block_current [where c = c and ?s0.0 = s])

section \<open>What an administrative operation may change\<close>

definition tcbs_kept :: "('b, 'h) kernel_state \<Rightarrow> ('b, 'h) kernel_state \<Rightarrow> bool" where
  "tcbs_kept s0 s \<longleftrightarrow> (\<forall>t. get_tcb s0 t \<noteq> None \<longrightarrow> get_tcb s t \<noteq> None)
     \<and> (\<forall>t y. get_tcb s t = Some y \<longrightarrow>
          (case get_tcb s0 t of
             None \<Rightarrow> tcb_state y = Inactive
           | Some x \<Rightarrow> same_raw x y \<and> (tcb_state y = tcb_state x \<or> tcb_state y = Ready)))"

lemma tcbs_kept_cong: "ks_tcbs s = ks_tcbs s0 \<Longrightarrow> tcbs_kept s0 s"
  by (simp add: tcbs_kept_def same_raw_def split: option.split)

definition slots_kept :: "('b, 'h) kernel_state \<Rightarrow> ('b, 'h) kernel_state \<Rightarrow> bool" where
  "slots_kept s0 s \<longleftrightarrow> (\<forall>i j k. slot_cap s0 i j = Some k \<longrightarrow> k \<noteq> Null \<longrightarrow> slot_cap s i j = Some k)"

lemma slots_kept_cong: "ks_cnodes s = ks_cnodes s0 \<Longrightarrow> slots_kept s0 s"
  by (simp add: slots_kept_def slot_cap_def)

lemma slots_kept_write: "slot_cap s i j = Some Null \<Longrightarrow> slots_kept s (write_slot s i j cap)"
  by (auto simp: slots_kept_def slot_cap_write)

lemma tame_slots_kept: "tame c s0 s \<Longrightarrow> slots_kept s0 s"
  unfolding tame_def slots_kept_def by (metis option.inject)

lemma cnode_tcbs: "on_ok (\<lambda>s' f'. ks_tcbs s' = ks_tcbs s) (cnode_invoke H s c p f)"
  unfolding cnode_invoke_def Let_def
  by (intro peel_on_ok peel_on_ok_cap)
     (auto split: if_splits elim!: mint_Inr copy_Inr move_cap_Inr delete_Inr copy_cross_Inr)

lemma cnode_slots:
  assumes "tag_label (h_tag H f) \<noteq> LABEL_MOVE" and "tag_label (h_tag H f) \<noteq> LABEL_DELETE"
  shows "on_ok (\<lambda>s' f'. slots_kept s s') (cnode_invoke H s c p f)"
  unfolding cnode_invoke_def Let_def
  by (intro peel_on_ok peel_on_ok_cap)
     (use assms in \<open>auto split: if_splits elim!: mint_Inr copy_Inr copy_cross_Inr intro: slots_kept_write\<close>)

lemma configure_tcbs: "on_ok (\<lambda>s' f'. tcbs_kept s s' \<and> slots_kept s s') (configure H s c p f)"
  unfolding configure_def Let_def
  by (intro peel_on_ok peel_on_ok_cap)
     (auto simp: tcbs_kept_def same_raw_def slots_kept_def slot_cap_def make_ready_def split: option.splits if_splits)

lemma frame_map_kept: "on_ok (\<lambda>s' f'. tcbs_kept s s' \<and> slots_kept s s') (frame_map H s c fid f)"
  unfolding frame_map_def Let_def by (intro peel_on_ok) (simp_all add: tcbs_kept_cong slots_kept_cong)

lemma frame_unmap_kept: "on_ok (\<lambda>s' f'. tcbs_kept s s' \<and> slots_kept s s') (frame_unmap H s c fid f)"
  unfolding frame_unmap_def Let_def by (intro peel_on_ok) (simp_all add: tcbs_kept_cong slots_kept_cong)

lemma frame_kept: "on_ok (\<lambda>s' f'. tcbs_kept s s' \<and> slots_kept s s') (frame_invoke H s c p f)"
  unfolding frame_invoke_def Let_def
  by (intro peel_on_ok peel_on_ok_cap on_ok_reply) (simp_all add: frame_map_kept frame_unmap_kept)

end
