(* ===== verification/Retype.thy ===== *)
theory Retype
  imports Confine
begin

text \<open>
  What a retype does, and the confinement of a whole trap: other threads' registers, occupied
  slots, and the right every transferred capability was sent with.
\<close>

section \<open>What a retype does\<close>

text \<open>
  What is created for each object type: the capability and the object it names, with its initial
  contents. A Frame has the size asked for and the address the Untyped hands out for that size;
  no other type takes memory from the Untyped, and only a VSpace takes a page table.
\<close>

definition frame_created ::
  "untyped \<Rightarrow> frame_size \<Rightarrow> capability \<Rightarrow> ('b, 'h) kernel_state \<Rightarrow> untyped \<Rightarrow> bool" where
  "frame_created u sz cap s' u' \<longleftrightarrow>
     (\<exists>i a v. cap = FrameCap i rights_ALL \<and> untyped_frame_alloc u sz = Some (a, v) \<and> ut_memory u' = ut_memory v
        \<and> pool_get (ks_frames s') (frame_ix i)
            = Some \<lparr>fr_paddr = a, fr_size = sz, fr_mapped_at = replicate MAX_FRAME_MAPPINGS None\<rparr>)"

abbreviation same_memory ::
  "('b, 'h) kernel_state \<Rightarrow> ('b, 'h) kernel_state \<Rightarrow> untyped \<Rightarrow> untyped \<Rightarrow> bool" where
  "same_memory s s' u u' \<equiv> ks_page_tables s' = ks_page_tables s \<and> ut_memory u' = ut_memory u"

fun created ::
  "('f, 'b::zero, 'h, 'p) hal \<Rightarrow> ('b, 'h) kernel_state \<Rightarrow> untyped \<Rightarrow> object_type \<Rightarrow> capability
    \<Rightarrow> ('b, 'h) kernel_state \<Rightarrow> untyped \<Rightarrow> bool" where
  "created H s u OT_CNode cap s' u' \<longleftrightarrow> same_memory s s' u u'
     \<and> (\<exists>i. cap = CNodeCap i \<and> pool_get (ks_cnodes s') (cnode_ix i) = Some cnode_empty)"
| "created H s u OT_Endpoint cap s' u' \<longleftrightarrow> same_memory s s' u u'
     \<and> (\<exists>i. cap = EndpointCap i 0 rights_ALL \<and> pool_get (ks_endpoints s') (endpoint_ix i) = Some endpoint_new)"
| "created H s u OT_Notification cap s' u' \<longleftrightarrow> same_memory s s' u u'
     \<and> (\<exists>i. cap = NotificationCap i 0 rights_ALL
          \<and> pool_get (ks_notifications s') (notification_ix i) = Some notification_new)"
| "created H s u OT_Tcb cap s' u' \<longleftrightarrow> same_memory s s' u u'
     \<and> (\<exists>i. cap = TcbCap i rights_ALL \<and> get_tcb s' i = Some (tcb_new H))"
| "created H s u OT_SchedContext cap s' u' \<longleftrightarrow> same_memory s s' u u'
     \<and> (\<exists>i. cap = SchedContextCap i rights_ALL
          \<and> pool_get (ks_sched_contexts s') (sched_context_ix i) = Some (scheduling_context_new 1))"
| "created H s u OT_VSpace cap s' u' \<longleftrightarrow> ut_memory u' = ut_memory u
     \<and> (\<exists>i root. cap = VSpaceCap i rights_ALL \<and> kpt_alloc H (ks_page_tables s) = Some (root, ks_page_tables s')
          \<and> pool_get (ks_vspaces s') (vspace_ix i) = Some \<lparr>vs_root = root\<rparr>)"
| "created H s u OT_FrameSmall cap s' u' \<longleftrightarrow> ks_page_tables s' = ks_page_tables s \<and> frame_created u Small cap s' u'"
| "created H s u OT_FrameMega cap s' u' \<longleftrightarrow> ks_page_tables s' = ks_page_tables s \<and> frame_created u Mega cap s' u'"
| "created H s u OT_Untyped cap s' u' \<longleftrightarrow> False"

definition only_new_object :: "('b, 'h) kernel_state \<Rightarrow> ('b, 'h) kernel_state \<Rightarrow> object_ref \<Rightarrow> bool" where
  "only_new_object s s' r \<longleftrightarrow> \<not> object_exists s r
     \<and> (\<forall>q. object_exists s' q \<longleftrightarrow> object_exists s q \<or> q = r \<or> (\<exists>t. r = RTcb t \<and> q = RReply t))"

text \<open>
  A successful retype: the new capability in the empty slot named, its object as \<open>created\<close> says
  and the only new one, one unit of the budget spent, every other slot as it was.
\<close>

definition retyped ::
  "('f, 'w::len word, 'h, 'p) hal \<Rightarrow> ('w word, 'h) kernel_state \<Rightarrow> tcb_id \<Rightarrow> cptr \<Rightarrow> 'f
    \<Rightarrow> ('w word, 'h) kernel_state \<Rightarrow> capability \<Rightarrow> bool" where
  "retyped H s c p f s' cap \<longleftrightarrow>
     (\<exists>uid r ot u i u'.
        lookup_cap s c p = Inr (UntypedCap uid r) \<and> contains r rights_WRITE
      \<and> object_type_from_usize (h_mr H f 1) = Some ot
      \<and> pool_get (ks_untypeds s) (untyped_ix uid) = Some u
      \<and> pool_get (ks_untypeds s') (untyped_ix uid) = Some u' \<and> unat (ut_remaining u) = Suc (unat (ut_remaining u'))
      \<and> created H s u ot cap s' u'
      \<and> Option.bind (get_tcb s c) tcb_cspace = Some i
      \<and> slot_cap s i (h_mr H f 2) = Some Null \<and> slot_cap s' i (h_mr H f 2) = Some cap
      \<and> (\<forall>k j k'. (k, j) \<noteq> (i, h_mr H f 2) \<longrightarrow> slot_cap s k j = Some k' \<longrightarrow> slot_cap s' k j = Some k')
      \<and> (\<exists>r. cap_object cap = Some r \<and> only_new_object s s' r))"

lemma alloc_slot:
  assumes "pool_wf N p" and "pool_alloc p v = Some (i, p')" and "N \<le> 65536"
  shows "pool_get p (unat (of_nat i :: u16)) = None" and "pool_get p' (unat (of_nat i :: u16)) = Some v"
    and "(\<exists>y. pool_get p' (unat x) = Some y) \<longleftrightarrow> x = (of_nat i :: u16) \<or> (\<exists>y. pool_get p (unat x) = Some y)"
  using pool_alloc_ids [OF assms] by auto

lemma all_object_ref:
  "(\<forall>q. P q) \<longleftrightarrow> (\<forall>i. P (RCNode i)) \<and> (\<forall>i. P (RUntyped i)) \<and> (\<forall>i. P (REndpoint i)) \<and> (\<forall>i. P (RNotification i))
     \<and> (\<forall>i. P (RTcb i)) \<and> (\<forall>i. P (RSchedContext i)) \<and> (\<forall>i. P (RReply i)) \<and> (\<forall>i. P (RVSpace i)) \<and> (\<forall>i. P (RFrame i))"
  by (metis object_ref.exhaust)

lemma alloc_only_new:
  assumes wf: "state_wf s"
  shows "pool_alloc (ks_cnodes s) cn = Some (i, p1) \<Longrightarrow>
      only_new_object s (s\<lparr>ks_cnodes := p1\<rparr>) (RCNode (CNodeId (of_nat i)))"
    and "pool_alloc (ks_tcbs s) x = Some (i, p2) \<Longrightarrow> only_new_object s (s\<lparr>ks_tcbs := p2\<rparr>) (RTcb (TcbId (of_nat i)))"
    and "pool_alloc (ks_endpoints s) e = Some (i, p3) \<Longrightarrow>
      only_new_object s (s\<lparr>ks_endpoints := p3\<rparr>) (REndpoint (EndpointId (of_nat i)))"
    and "pool_alloc (ks_notifications s) n = Some (i, p4) \<Longrightarrow>
      only_new_object s (s\<lparr>ks_notifications := p4\<rparr>) (RNotification (NotificationId (of_nat i)))"
    and "pool_alloc (ks_sched_contexts s) sc = Some (i, p5) \<Longrightarrow>
      only_new_object s (s\<lparr>ks_sched_contexts := p5\<rparr>) (RSchedContext (SchedContextId (of_nat i)))"
    and "pool_alloc (ks_vspaces s) v = Some (i, p6) \<Longrightarrow>
      only_new_object s (s\<lparr>ks_page_tables := k, ks_vspaces := p6\<rparr>) (RVSpace (VSpaceId (of_nat i)))"
    and "pool_alloc (ks_frames s) fr = Some (i, p7) \<Longrightarrow>
      only_new_object s (s\<lparr>ks_untypeds := pool_modify (ks_untypeds s) j g, ks_frames := p7\<rparr>) (RFrame (FrameId (of_nat i)))"
  using alloc_slot [OF pool_sizes(1) [OF wf]]
    alloc_slot [OF pool_sizes(2) [OF wf]]
    alloc_slot [OF pool_sizes(3) [OF wf]]
    alloc_slot [OF pool_sizes(4) [OF wf]]
    alloc_slot [OF pool_sizes(5) [OF wf]]
    alloc_slot [OF pool_sizes(6) [OF wf]]
    alloc_slot [OF pool_sizes(7) [OF wf]]
  by (auto simp: only_new_object_def all_object_ref id_raw_eq limits)

lemma retype_object_new:
  assumes wf: "state_wf s" and new: "retype_object H s uid ot = Some (Inr cap, s')"
  shows "\<exists>r. cap_object cap = Some r \<and> only_new_object s s' r"
  using new alloc_only_new [OF wf]
  by (auto simp: retype_object_def Let_def split: object_type.splits option.splits prod.splits if_splits)

lemma retype_object_created:
  assumes laws: "paging_laws H" and wf: "state_wf s" and u: "pool_get (ks_untypeds s) (untyped_ix uid) = Some u"
    and new: "retype_object H s uid ot = Some (Inr cap, s')"
  shows "\<exists>u'. pool_get (ks_untypeds s') (untyped_ix uid) = Some u' \<and> ut_remaining u' = ut_remaining u
     \<and> created H s u ot cap s' u'"
proof -
  have "h_page_size H = 4096" "h_megapage_size H = 2097152" using laws by (simp_all add: paging_laws_def)
  with new u alloc_slot(2) [OF pool_sizes(1) [OF wf]] alloc_slot(2) [OF pool_sizes(2) [OF wf]]
      alloc_slot(2) [OF pool_sizes(3) [OF wf]] alloc_slot(2) [OF pool_sizes(4) [OF wf]]
      alloc_slot(2) [OF pool_sizes(5) [OF wf]] alloc_slot(2) [OF pool_sizes(6) [OF wf]]
      alloc_slot(2) [OF pool_sizes(7) [OF wf]] untyped_bump_fields(1)
  show ?thesis
    by (auto simp: retype_object_def Let_def frame_created_def untyped_frame_alloc_def limits
        split: object_type.splits option.splits prod.splits if_splits)
qed

lemma retype_commit_created:
  assumes com: "retype_commit s1 i d uid cap = Some s2" and cr: "created H s u ot cap s1 u1"
    and old: "\<And>k. cap = CNodeCap k \<Longrightarrow> k \<noteq> i" and mem: "ut_memory u2 = ut_memory u1"
  shows "created H s u ot cap s2 u2"
proof -
  have eq: "ks_page_tables s2 = ks_page_tables s1" "ks_endpoints s2 = ks_endpoints s1" "ks_notifications s2 = ks_notifications s1"
    "ks_tcbs s2 = ks_tcbs s1" "ks_sched_contexts s2 = ks_sched_contexts s1" "ks_vspaces s2 = ks_vspaces s1"
    "ks_frames s2 = ks_frames s1" "k \<noteq> i \<Longrightarrow> pool_get (ks_cnodes s2) (cnode_ix k) = pool_get (ks_cnodes s1) (cnode_ix k)" for k
    using com by (auto simp: retype_commit_def Let_def id_raw_eq split: option.splits if_splits)
  from cr old mem show ?thesis by (cases ot) (auto simp: eq frame_created_def)
qed

lemma retype_commit_exists: "retype_commit s i d u cap = Some s' \<Longrightarrow> object_exists s' q = object_exists s q"
  by (cases q) (auto simp: retype_commit_def Let_def split: option.splits if_splits)

lemma only_new_same: "(\<And>q. object_exists s2 q = object_exists s1 q) \<Longrightarrow> only_new_object s s2 = only_new_object s s1"
  by (simp add: only_new_object_def fun_eq_iff)

lemma retype_object_tcbs:
  "retype_object H s uid ot = Some (r, s') \<Longrightarrow>
   ks_tcbs s' = ks_tcbs s \<or> (\<exists>i. pool_alloc (ks_tcbs s) (tcb_new H) = Some (i, ks_tcbs s'))"
  by (auto simp: retype_object_def Let_def split: object_type.splits option.splits prod.splits if_splits)

lemma retype_commit_Some:
  assumes "retype_commit s i d u cap = Some s'"
  shows "ks_tcbs s' = ks_tcbs s" and "\<exists>x. pool_get (ks_untypeds s) (untyped_ix u) = Some x
     \<and> pool_get (ks_untypeds s') (untyped_ix u) = Some (x\<lparr>ut_remaining := ut_remaining x - 1\<rparr>) \<and> ut_remaining x \<noteq> 0"
  using assms by (auto simp: retype_commit_def Let_def split: option.splits if_splits)

lemma tcbs_kept_alloc:
  assumes wf: "state_wf s" and al: "pool_alloc (ks_tcbs s) (tcb_new H) = Some (i, ks_tcbs s')"
  shows "tcbs_kept s s'"
proof -
  have "pool_wf MAX_TCBS (ks_tcbs s)" using wf by (rule pool_sizes)
  from pool.alloc_Some [OF this al] have "pool_get (ks_tcbs s') = (pool_get (ks_tcbs s))(i := Some (tcb_new H))"
    and "pool_get (ks_tcbs s) i = None" by simp_all
  then show ?thesis by (auto simp: tcbs_kept_def same_raw_def tcb_new_def split: option.split)
qed

lemma untyped_retype_leaf:
  assumes laws: "frame_laws H" "paging_laws H" and run: "running c s"
    and cap: "lookup_cap s c p = Inr (UntypedCap uid r)" "contains r rights_WRITE"
    and ot: "object_type_from_usize (h_mr H f 1) = Some ot"
    and u: "pool_get (ks_untypeds s) (untyped_ix uid) = Some u" "ut_remaining u \<noteq> 0"
    and cs: "Option.bind (get_tcb s c) tcb_cspace = Some i" "slot_cap s i (h_mr H f 2) = Some Null"
    and new: "retype_object H s uid ot = Some (Inr cp, s1)" and com: "retype_commit s1 i (h_mr H f 2) uid cp = Some s2"
  shows "retyped H s c p f s2 cp" and "tcbs_kept s s2"
proof -
  have wf: "state_wf s" by (rule runningD(1) [OF run])
  have fresh: "fresh_object s s1 cp"
    by (rule retype_object_cases [OF laws runningD(1,3) [OF run] u(1), of ot]) (use new in auto)
  from retype_object_created [OF laws(2) wf u(1) new] obtain u1 where u1:
    "pool_get (ks_untypeds s1) (untyped_ix uid) = Some u1" "ut_remaining u1 = ut_remaining u" "created H s u ot cp s1 u1"
    by blast
  have nz: "ut_remaining u1 \<noteq> 0" using u u1 by simp
  then have dec: "unat (ut_remaining u1) = Suc (unat (ut_remaining u1 - 1))"
    by (simp add: unat_minus_one unat_gt_0)
  from retype_commit_Some [OF com] u1 have u2:
    "pool_get (ks_untypeds s2) (untyped_ix uid) = Some (u1\<lparr>ut_remaining := ut_remaining u1 - 1\<rparr>)" "ks_tcbs s2 = ks_tcbs s1"
    by auto
  show "retyped H s c p f s2 cp"
  proof (rule fresh_commit [OF fresh cs(2) u1(1) nz])
    fix s3
    assume "retype_commit s1 i (h_mr H f 2) uid cp = Some s3" and auth: "authority_step s s3"
      and slot: "slot_cap s3 i (h_mr H f 2) = Some cp"
      and rest: "\<And>k j. (k, j) \<noteq> (i, h_mr H f 2) \<Longrightarrow> slot_cap s3 k j = slot_cap s1 k j"
    with com have s3: "s3 = s2" by simp
    have keep: "\<And>k j x. slot_cap s k j = Some x \<Longrightarrow> slot_cap s1 k j = Some x"
      using fresh by (auto simp: fresh_object_def)
    obtain rf where rf: "cap_object cp = Some rf" "only_new_object s s1 rf" using retype_object_new [OF wf new] by blast
    with only_new_same [OF retype_commit_exists [OF com]]
    have ex: "\<exists>r. cap_object cp = Some r \<and> only_new_object s s2 r" by auto
    have "object_exists s (RCNode i)" using cs(2) by (auto simp: slot_cap_def bind_eq_Some_conv)
    with rf have "cp = CNodeCap k \<Longrightarrow> k \<noteq> i" for k by (auto simp: only_new_object_def)
    from retype_commit_created [OF com u1(3) this, of "u1\<lparr>ut_remaining := ut_remaining u1 - 1\<rparr>"]
    have made: "created H s u ot cp s2 (u1\<lparr>ut_remaining := ut_remaining u1 - 1\<rparr>)" by simp
    have kept: "\<forall>k j k'. (k, j) \<noteq> (i, h_mr H f 2) \<longrightarrow> slot_cap s k j = Some k' \<longrightarrow> slot_cap s2 k j = Some k'"
      using rest keep s3 by auto
    show ?thesis unfolding retyped_def
      by (rule exI [of _ uid], rule exI [of _ r], rule exI [of _ ot], rule exI [of _ u], rule exI [of _ i],
          rule exI [of _ "u1\<lparr>ut_remaining := ut_remaining u1 - 1\<rparr>"])
         (use cap ot u u1 u2 cs slot s3 ex kept made dec in simp)
  qed
  from retype_object_tcbs [OF new] show "tcbs_kept s s2"
    using u2(2) tcbs_kept_cong [of s2 s] tcbs_kept_alloc [OF wf, of H _ s2] by auto
qed

lemma untyped_retype_effect:
  assumes laws: "frame_laws H" "paging_laws H" and run: "running c s"
  shows "on_ok (\<lambda>s' f'. tcbs_kept s s' \<and> (\<exists>cap. retyped H s c p f s' cap) \<and> f' = reply_success H f)
           (untyped_retype H s c p f)"
proof (unfold untyped_retype_def Let_def, (intro peel_on_ok peel_on_ok_cap; (rule on_ok_simps)?), goal_cases)
  case (1 _ uid r ot u i cn dc y rr s1 cap s2)
  then show ?case
    using untyped_retype_leaf [OF laws run, of p uid r f ot u i cap s1 s2] by (auto simp: slot_cap_def)
qed

lemma retyped_slots: "retyped H s c p f s' cap \<Longrightarrow> slots_kept s s'"
  unfolding slots_kept_def
proof (intro allI impI)
  fix i j k
  assume r: "retyped H s c p f s' cap" and k: "slot_cap s i j = Some k" "k \<noteq> Null"
  from r obtain d where "slot_cap s d (h_mr H f 2) = Some Null"
    and "\<forall>k j k'. (k, j) \<noteq> (d, h_mr H f 2) \<longrightarrow> slot_cap s k j = Some k' \<longrightarrow> slot_cap s' k j = Some k'"
    unfolding retyped_def by blast
  with k show "slot_cap s' i j = Some k" by (cases "(i, j) = (d, h_mr H f 2)") auto
qed

lemma retype_slots:
  assumes "frame_laws H" and "paging_laws H" and "running c s"
  shows "on_ok (\<lambda>s' f'. slots_kept s s') (untyped_retype H s c p f)"
  using untyped_retype_effect [OF assms] by (rule on_ok_mono) (auto intro: retyped_slots)

section \<open>What a trap may change\<close>

fun is_ipc :: "syscall_number \<Rightarrow> bool" where
  "is_ipc SysCNodeInvoke = False"
| "is_ipc SysUntypedRetype = False"
| "is_ipc SysTCBConfigure = False"
| "is_ipc SysFrameInvoke = False"
| "is_ipc _ = True"

lemma run_syscall_tame:
  assumes run: "running c s" and n: "is_ipc n"
  shows "on_ok (\<lambda>s' f'. tame c s s') (run_syscall H s c f n)"
  using n runningD(5) [OF run]
  by (cases n) (simp_all add: run_syscall_def send_tame recv_tame call_tame reply_tame signal_tame
      wait_tame poll_tame yield_tame)

lemma run_syscall_tcbs:
  assumes laws: "frame_laws H" "paging_laws H" and run: "running c s" and n: "\<not> is_ipc n"
  shows "on_ok (\<lambda>s' f'. tcbs_kept s s') (run_syscall H s c f n)"
proof -
  have "on_ok (\<lambda>s' f'. tcbs_kept s s') (cnode_invoke H s c p f)" for p
    using cnode_tcbs by (rule on_ok_mono) (rule tcbs_kept_cong)
  moreover have "on_ok (\<lambda>s' f'. tcbs_kept s s') (untyped_retype H s c p f)" for p
    using untyped_retype_effect [OF laws run] by (rule on_ok_mono) simp
  moreover have "on_ok (\<lambda>s' f'. tcbs_kept s s') (configure H s c p f)" for p
    using configure_tcbs by (rule on_ok_mono) simp
  moreover have "on_ok (\<lambda>s' f'. tcbs_kept s s') (frame_invoke H s c p f)" for p
    using frame_kept by (rule on_ok_mono) simp
  ultimately show ?thesis using n by (cases n) (simp_all add: run_syscall_def)
qed

lemma tcbs_kept_same_raw:
  "tcbs_kept s0 s \<Longrightarrow> get_tcb s0 t = Some x \<Longrightarrow> \<exists>y. get_tcb s t = Some y \<and> same_raw x y"
  by (cases "get_tcb s t") (auto simp: tcbs_kept_def split: option.splits)

text \<open>An error keeps every thread and every slot, also when memory was already taken.\<close>

definition on_err :: "('s \<Rightarrow> bool) \<Rightarrow> ('s, 'f) outcome \<Rightarrow> bool" where
  "on_err Q r \<longleftrightarrow> (case r of Err e s f \<Rightarrow> Q s | _ \<Rightarrow> True)"

lemma on_err_simps [simp]: "on_err Q (Ok s f)" "on_err Q (Err e s f) = Q s" "on_err Q Panic"
  by (simp_all add: on_err_def)

lemmas peel_on_err = peel [where P = "on_err Q" for Q] peel_capability [where P = "on_err Q" for Q]

definition same_caps :: "('b, 'h) kernel_state \<Rightarrow> ('b, 'h) kernel_state \<Rightarrow> bool" where
  "same_caps s s' \<longleftrightarrow> ks_tcbs s' = ks_tcbs s \<and> ks_cnodes s' = ks_cnodes s"

lemma retype_object_Inl:
  "retype_object H s uid ot = Some (Inl e, s') \<Longrightarrow> same_caps s s'"
  by (auto simp: same_caps_def retype_object_def Let_def split: object_type.splits option.splits prod.splits if_splits)

lemma retype_err: "on_err (same_caps s) (untyped_retype H s c p f)"
  unfolding untyped_retype_def Let_def
  by (intro peel_on_err) (auto dest: retype_object_Inl, auto simp: same_caps_def)

lemma on_err_reply:
  "on_err Q r \<Longrightarrow> on_err Q (case r of Ok s f \<Rightarrow> Ok s (g f) | Err e s f \<Rightarrow> Err e s f | Panic \<Rightarrow> Panic)"
  by (cases r) auto

lemma on_errD: "on_err Q r \<Longrightarrow> r = Err e s f \<Longrightarrow> Q s"
  by simp

lemma frame_err: "on_err (same_caps s) (frame_invoke H s c p f)"
proof -
  have "on_err (same_caps s) (frame_map H s c fid f)" for fid
    unfolding frame_map_def Let_def by (intro peel_on_err) (simp_all add: same_caps_def)
  moreover have "on_err (same_caps s) (frame_unmap H s c fid f)" for fid
    unfolding frame_unmap_def Let_def by (intro peel_on_err) (simp_all add: same_caps_def)
  ultimately show ?thesis
    unfolding frame_invoke_def Let_def by (intro peel_on_err on_err_reply) (simp_all, simp_all add: same_caps_def)
qed

lemma run_syscall_err:
  assumes "frame_laws H" and "running c s" and "run_syscall H s c f n = Err e s1 f1"
  shows "same_caps s s1"
proof (cases "n = SysUntypedRetype \<or> n = SysFrameInvoke")
  case True
  with assms(3) on_errD [OF retype_err] on_errD [OF frame_err] show ?thesis
    by (auto simp: run_syscall_def)
next
  case False
  with run_syscall_atomic [OF assms(1,2), of n f] assms(3) show ?thesis by (simp add: same_caps_def)
qed

text \<open>
  The two ways a trap fails with \<open>e\<close>: no system call has the number in the registers, or the
  call it names returns an error.
\<close>

definition trap_fails ::
  "('f, 'w::len word, 'h, 'p) hal \<Rightarrow> ('w word, 'h) kernel_state \<Rightarrow> tcb_id \<Rightarrow> 'f \<Rightarrow> syscall_error
    \<Rightarrow> ('w word, 'h) kernel_state \<Rightarrow> bool" where
  "trap_fails H s c f e s' \<longleftrightarrow>
     (case syscall_from_usize (h_syscall_number H f) of
        None \<Rightarrow> e = IllegalOperation \<and> s' = s
      | Some n \<Rightarrow> (\<exists>f1. run_syscall H s c f n = Err e s' f1))"

lemma trap_fails_reported:
  assumes laws: "frame_laws H" "paging_laws H" and run: "running c s" and fails: "trap_fails H s c f e s'"
  shows "dispatch H s f = Some (s', reply_error H f e)" and "threads_of s' = threads_of s" and "same_caps s s'"
proof -
  have cur: "current_of s = Some c" using run by (simp add: running_def)
  have "dispatch H s f = Some (s', reply_error H f e) \<and> threads_of s' = threads_of s \<and> same_caps s s'"
  proof (cases "syscall_from_usize (h_syscall_number H f)")
    case None
    with fails cur show ?thesis by (simp add: trap_fails_def dispatch_def same_caps_def)
  next
    case (Some n)
    with fails obtain f1 where err: "run_syscall H s c f n = Err e s' f1" by (auto simp: trap_fails_def)
    with run_syscall_Err(1,2) [OF laws run err] run_syscall_err [OF laws(1) run err] show ?thesis
      by (simp add: dispatch_run [OF cur Some])
  qed
  then show "dispatch H s f = Some (s', reply_error H f e)" and "threads_of s' = threads_of s" and "same_caps s s'"
    by simp_all
qed

text \<open>At the trap: an error, or one of the two kinds of call.\<close>

lemma dispatch_kinds:
  assumes laws: "frame_laws H" "paging_laws H" and inv: "kernel_inv s" and cur: "current_of s = Some c"
    and d: "dispatch H s f = Some (s', f')"
  obtains (same) "same_caps s s'"
  | (ipc) n where "syscall_from_usize (h_syscall_number H f) = Some n" "is_ipc n" "tame c s s'"
  | (admin) n where "syscall_from_usize (h_syscall_number H f) = Some n" "\<not> is_ipc n" "tcbs_kept s s'"
      "run_syscall H s c f n = Ok s' f'"
proof -
  have run: "running c s" using inv cur by (simp add: running_def)
  show ?thesis
  proof (cases "syscall_from_usize (h_syscall_number H f)")
    case None
    with d cur show ?thesis by (intro same) (simp add: dispatch_def same_caps_def)
  next
    case (Some n)
    show ?thesis
    proof (cases "run_syscall H s c f n")
      case (Ok s1 f1)
      with d dispatch_run [OF cur Some] have eq: "s1 = s'" "f1 = f'" by simp_all
      show ?thesis
      proof (cases "is_ipc n")
        case True
        from on_okD [OF run_syscall_tame [OF run True] Ok] eq ipc [OF Some True] show ?thesis by simp
      next
        case False
        from on_okD [OF run_syscall_tcbs [OF laws run False] Ok] Ok eq admin [OF Some False] show ?thesis by simp
      qed
    next
      case (Err e s1 f1)
      with d dispatch_run [OF cur Some] have "s1 = s'" by simp
      with run_syscall_err [OF laws(1) run Err] same show ?thesis by simp
    next
      case Panic
      with d dispatch_run [OF cur Some] show ?thesis by simp
    qed
  qed
qed

lemma dispatch_same_raw:
  assumes "frame_laws H" and "paging_laws H" and "kernel_inv s" and "current_of s = Some c"
    and "dispatch H s f = Some (s', f')" and t: "t \<noteq> c" "get_tcb s t = Some x"
  shows "\<exists>y. get_tcb s' t = Some y \<and> same_raw x y"
proof (rule dispatch_kinds [OF assms(1-5)])
  assume "same_caps s s'"
  with t show ?thesis by (auto simp: same_caps_def same_raw_def)
next
  assume "tame c s s'"
  with t show ?thesis unfolding tame_def by blast
qed (use t tcbs_kept_same_raw in blast)

lemma dispatch_slots:
  assumes laws: "frame_laws H" "paging_laws H" and inv: "kernel_inv s" and cur: "current_of s = Some c"
    and d: "dispatch H s f = Some (s', f')"
    and label: "h_syscall_number H f = 9 \<Longrightarrow> tag_label (h_tag H f) \<noteq> LABEL_MOVE \<and> tag_label (h_tag H f) \<noteq> LABEL_DELETE"
  shows "slots_kept s s'"
proof (rule dispatch_kinds [OF laws inv cur d])
  assume "same_caps s s'" then show ?thesis by (simp add: same_caps_def slots_kept_cong)
next
  assume "tame c s s'" then show ?thesis by (rule tame_slots_kept)
next
  fix n
  assume n: "syscall_from_usize (h_syscall_number H f) = Some n" "\<not> is_ipc n" and ok: "run_syscall H s c f n = Ok s' f'"
  have run: "running c s" using inv cur by (simp add: running_def)
  have nine: "n = SysCNodeInvoke \<Longrightarrow> h_syscall_number H f = 9"
    using n by (simp add: syscall_from_usize_def split: if_splits)
  show ?thesis
    using n ok on_okD [OF cnode_slots, of H f s c _ s' f'] nine label on_okD [OF retype_slots [OF laws run], of _ f s' f']
      on_okD [OF configure_tcbs, of H s c _ f s' f'] on_okD [OF frame_kept, of H s c _ f s' f']
    by (cases n) (auto simp: run_syscall_def)
qed

text \<open>Every capability in flight was sent with the right to grant it.\<close>

definition granted :: "('b, 'h) kernel_state \<Rightarrow> bool" where
  "granted s \<longleftrightarrow> (\<forall>t x e b q k d. get_tcb s t = Some x \<longrightarrow> tcb_state x = BlockedSend e b q (Some k) d
     \<longrightarrow> contains (cap_rights k) rights_GRANT)"

lemma resolve_transferable_Inr:
  "resolve_transferable_cap s c p = Inr k \<longleftrightarrow> lookup_cap s c p = Inr k \<and> contains (cap_rights k) rights_GRANT"
  by (auto simp: resolve_transferable_cap_def split: sum.split)

lemma sendable_granted: "granted s \<Longrightarrow> k \<in> sendable c s \<Longrightarrow> contains (cap_rights k) rights_GRANT"
  by (auto simp: granted_def sendable_def resolve_transferable_Inr)

lemma granted_kept:
  assumes kept: "tcbs_kept s s'" and g: "granted s"
  shows "granted s'"
  unfolding granted_def
proof (intro allI impI)
  fix t y e b q k d
  assume y: "get_tcb s' t = Some y" "tcb_state y = BlockedSend e b q (Some k) d"
  with kept obtain x where "get_tcb s t = Some x" "tcb_state x = tcb_state y"
    by (cases "get_tcb s t") (fastforce simp: tcbs_kept_def)+
  with g y(2) show "contains (cap_rights k) rights_GRANT" unfolding granted_def by metis
qed

lemma dispatch_granted:
  assumes "frame_laws H" and "paging_laws H" and "kernel_inv s" and "current_of s = Some c"
    and "dispatch H s f = Some (s', f')" and g: "granted s"
  shows "granted s'"
proof (rule dispatch_kinds [OF assms(1-5)])
  assume "same_caps s s'" with g show ?thesis by (simp add: granted_def same_caps_def)
next
  assume "tame c s s'"
  then show ?thesis using sendable_granted [OF g] unfolding tame_def granted_def by blast
qed (use granted_kept g in blast)

lemma dispatch_transfer:
  assumes laws: "frame_laws H" "paging_laws H" and inv: "kernel_inv s" and cur: "current_of s = Some c"
    and d: "dispatch H s f = Some (s', f')" and g: "granted s"
    and n: "syscall_from_usize (h_syscall_number H f) = Some n" "is_ipc n"
    and new: "slot_cap s' i j \<noteq> slot_cap s i j"
  shows "\<exists>k. slot_cap s' i j = Some k \<and> contains (cap_rights k) rights_GRANT \<and> slot_cap s i j = Some Null"
proof (rule dispatch_kinds [OF laws inv cur d])
  assume "same_caps s s'"
  with new show ?thesis by (simp add: same_caps_def slot_cap_def)
next
  assume "tame c s s'"
  with new have "slot_cap s i j = Some Null \<and> (\<exists>k\<in>sendable c s. slot_cap s' i j = Some k)"
    unfolding tame_def by blast
  with sendable_granted [OF g] show ?thesis by blast
qed (use n in simp)

end
