(* ===== verification/Behaviour.thy ===== *)
theory Behaviour
  imports Retype
begin

text \<open>
  The IPC operations when the two sides meet, and when the caller blocks: which message arrives
  where, who runs, who is ready, and which registers were saved. Each lemma covers the plain
  message and the one with a capability (\<open>offer_cap\<close> with or without one).
\<close>

section \<open>Reading a message\<close>

definition has_message :: "'b tcb \<Rightarrow> u64 \<Rightarrow> usize \<times> usize \<times> usize \<Rightarrow> 'b message_tag \<Rightarrow> bool" where
  "has_message y b m tg \<longleftrightarrow> ctx_mr (tcb_context y) 0 = b \<and> ctx_mr (tcb_context y) 1 = fst m
     \<and> ctx_mr (tcb_context y) 2 = fst (snd m) \<and> ctx_mr (tcb_context y) 3 = snd (snd m)
     \<and> ctx_tag (tcb_context y) = tg"

definition shows_message :: "('f, 'b, 'h, 'p) hal \<Rightarrow> 'f \<Rightarrow> u64 \<Rightarrow> usize \<times> usize \<times> usize \<Rightarrow> bool" where
  "shows_message H f b m \<longleftrightarrow> h_mr H f 0 = b \<and> h_mr H f 1 = fst m \<and> h_mr H f 2 = fst (snd m)
     \<and> h_mr H f 3 = snd (snd m)"

lemma delivered_message:
  fixes s :: "('w::len word, 'h) kernel_state"
  assumes "get_tcb s t = Some x" and "ctx_wf (tcb_context x)"
  shows "\<exists>y. get_tcb (deliver_payload s t b m1 m2 m3 tg) t = Some y \<and> has_message y b (m1, m2, m3) tg
     \<and> tcb_state y = tcb_state x \<and> tcb_reply_to y = tcb_reply_to x"
  using assms(1) by (simp add: deliver_payload_def has_message_def ctx.deliver_all [OF assms(2) _ refl]
      del: One_nat_def)

lemma restored_message:
  assumes "frame_laws H" and "ctx_wf (tcb_context y)" and "has_message y b m tg"
  shows "shows_message H (restore_into H (tcb_context y) f) b m"
    and "h_tag H (restore_into H (tcb_context y) f) = tg"
  using assms(3) by (simp_all add: shows_message_def has_message_def restore_into_reads(2,3) [OF assms(1,2)])

text \<open>A message without capabilities, and one with one.\<close>

definition plain :: "('f, 'w::len word, 'h, 'p) hal \<Rightarrow> 'f \<Rightarrow> bool" where
  "plain H f \<longleftrightarrow> tag_length (h_tag H f) = 0 \<and> tag_extra_caps (h_tag H f) = 0"

definition carries :: "('f, 'w::len word, 'h, 'p) hal \<Rightarrow> 'f \<Rightarrow> bool" where
  "carries H f \<longleftrightarrow> tag_length (h_tag H f) = 0 \<and> tag_extra_caps (h_tag H f) = 1"

lemma plain_tag:
  assumes "plain H f"
  shows "require_fast_path_only (h_tag H f) = Inr ()" and "require_call_tag (h_tag H f) = Inr ()"
    and "extract_extra_cap H s c f (h_tag H f) = Inr None" and "call_reply_dest_slot H f (h_tag H f) = None"
    and "payload_words H f False = (h_mr H f 1, h_mr H f 2, h_mr H f 3)"
  using assms by (simp_all add: plain_def require_fast_path_only_def require_call_tag_def extract_extra_cap_def
      call_reply_dest_slot_def payload_words_def)

lemma carries_tag:
  assumes "carries H f" and "lookup_cap s c (h_mr H f 1) = Inr k" and "contains (cap_rights k) rights_GRANT"
  shows "require_fast_path_only (h_tag H f) = Inr ()" and "extract_extra_cap H s c f (h_tag H f) = Inr (Some k)"
    and "payload_words H f True = (0, h_mr H f 2, h_mr H f 3)"
  using assms by (simp_all add: carries_def require_fast_path_only_def extract_extra_cap_def
      resolve_transferable_cap_def payload_words_def)

lemma offer_none [simp]: "offer_cap s t d None = Inr s"
  by (simp add: offer_cap_def)

section \<open>Who waits on an endpoint\<close>

lemma endpoint_receiver:
  assumes run: "running c s" and wl: "wait_list s (PRecv e) = t # ts"
  obtains ep q q' x d where "pool_get (ks_endpoints s) (endpoint_ix e) = Some ep" and "ep_queue ep = QRecv q"
    and "aq_front q = Some t" and "aq_pop_front q = (Some t, q')" and "aq_list q' = ts"
    and "get_tcb s t = Some x" and "tcb_state x = BlockedRecv e d" and "t \<noteq> c"
proof -
  note R = runningD [OF run]
  obtain ep q where ep: "pool_get (ks_endpoints s) (endpoint_ix e) = Some ep" "ep_queue ep = QRecv q"
    using wl by (cases "pool_get (ks_endpoints s) (endpoint_ix e)") (auto elim: recv_list.elims)
  have q: "queue_wf q" "aq_list q \<noteq> []" using wf_objects(1) [OF R(1) ep(1)] ep(2) by simp_all
  obtain t' q' where pop: "aq_pop_front q = (Some t', q')" "aq_front q = Some t'" by (rule pop_nonempty [OF q])
  from pop_head(1) [OF q(1) pop(1)] wl ep have eq: "t' = t" "aq_list q' = ts" by auto
  from waiter_exists [OF run ep pop(1)] that ep pop eq show ?thesis by metis
qed

lemma endpoint_sender:
  assumes run: "running c s" and wl: "wait_list s (PSend e) = t # ts"
  obtains ep q q' x b k cap d where "pool_get (ks_endpoints s) (endpoint_ix e) = Some ep" and "ep_queue ep = QSend q"
    and "aq_front q = Some t" and "aq_pop_front q = (Some t, q')" and "aq_list q' = ts"
    and "get_tcb s t = Some x" and "tcb_state x = BlockedSend e b k cap d" and "t \<noteq> c"
proof -
  note R = runningD [OF run]
  obtain ep q where ep: "pool_get (ks_endpoints s) (endpoint_ix e) = Some ep" "ep_queue ep = QSend q"
    using wl by (cases "pool_get (ks_endpoints s) (endpoint_ix e)") (auto elim: send_list.elims)
  have q: "queue_wf q" "aq_list q \<noteq> []" using wf_objects(1) [OF R(1) ep(1)] ep(2) by simp_all
  obtain t' q' where pop: "aq_pop_front q = (Some t', q')" "aq_front q = Some t'" by (rule pop_nonempty [OF q])
  from pop_head(1) [OF q(1) pop(1)] wl ep have eq: "t' = t" "aq_list q' = ts" by auto
  from head_states(2) [OF R(3)] wl obtain b k cap d where "tv_state (threads_of s) t = Some (BlockedSend e b k cap d)"
    by (metis threads_of_simps(3))
  then obtain x where x: "get_tcb s t = Some x" "tcb_state x = BlockedSend e b k cap d" by auto
  with R(6) have "t \<noteq> c" by auto
  with that ep pop eq x show ?thesis by metis
qed

lemma endpoint_alive:
  assumes run: "running c s" and cap: "lookup_cap s c p = Inr (EndpointCap e b r)"
  obtains ep where "pool_get (ks_endpoints s) (endpoint_ix e) = Some ep"
  using runningD(4) [OF run] lookup_cap_mem [OF cap] by (fastforce simp: no_dangling_def)

lemma no_receiver:
  assumes "running c s" and "pool_get (ks_endpoints s) (endpoint_ix e) = Some ep" and "wait_list s (PRecv e) = []"
  shows "ep_queue ep \<noteq> QRecv q"
  using wf_objects(1) [OF runningD(1) [OF assms(1)] assms(2)] assms(2,3) by auto

lemma no_sender:
  assumes "running c s" and "pool_get (ks_endpoints s) (endpoint_ix e) = Some ep" and "wait_list s (PSend e) = []"
  shows "ep_queue ep \<noteq> QSend q"
  using wf_objects(1) [OF runningD(1) [OF assms(1)] assms(2)] assms(2,3) by auto

section \<open>\<open>Send\<close> to a waiting receiver\<close>

lemma shift_queues:
  assumes "threads_of s' = shift (threads_of s) t Ready" and "queued_once (threads_of s)"
    and "wait_list s p = t # ts" and "p \<noteq> PReady"
  shows "wait_list s' = (wait_list s)(p := ts, PReady := wait_list s PReady @ [t])"
    and "current_of s' = current_of s"
proof -
  from shift_head_view(1) [OF assms(2), of p t ts Ready PReady] assms(3,4)
  have "threads_of s' = (threads_of s)\<lparr>tv_state := (tv_state (threads_of s))(t \<mapsto> Ready),
      tv_queue := (wait_list s)(p := ts, PReady := wait_list s PReady @ [t])\<rparr>"
    by (simp add: assms(1))
  note v = arg_cong [OF this]
  from v [of tv_queue] v [of tv_current]
  show "wait_list s' = (wait_list s)(p := ts, PReady := wait_list s PReady @ [t])"
    and "current_of s' = current_of s" by simp_all
qed

lemma tcb_make_ready_self:
  "get_tcb s t = Some x \<Longrightarrow> \<exists>y. get_tcb (make_ready s t) t = Some y \<and> tcb_state y = Ready \<and> tcb_context y = tcb_context x
     \<and> tcb_reply_to y = tcb_reply_to x"
  by (auto simp: make_ready_def split: option.split)

lemma deliver_wake:
  fixes s :: "('w::len word, 'h) kernel_state"
  assumes run: "running c s" and ep: "pool_get (ks_endpoints s) (endpoint_ix e) = Some ep" "ep_queue ep = QRecv q"
    and pop: "aq_pop_front q = (Some t, q')" and off: "offer_cap s t d x = Inr s1"
    and s2: "s2 = make_ready (delivered s1 e q' t b m tg) t"
  shows "threads_of s2 = shift (threads_of s) t Ready"
    and "\<exists>y. get_tcb s2 t = Some y \<and> tcb_state y = Ready \<and> has_message y b m tg"
proof -
  note R = runningD [OF run] and D = delivered_view [OF run ep pop off]
  have "queue_wf (sch_ready (ks_scheduler (delivered s1 e q' t b m tg)))" using wf_objects(7) [OF D(2)] .
  from wake_view [OF R(1,3) D(1) _ D(3) this] show "threads_of s2 = shift (threads_of s) t Ready" by (simp add: s2)
  obtain xt where xt: "get_tcb s t = Some xt" using waiter_exists [OF run ep pop] by blast
  have wf: "ctx_wf (tcb_context xt)" using wf_objects(3) [OF R(1) xt] .
  let ?s = "set_endpoint_queue s1 e (normalize (QRecv q'))"
  have "get_tcb ?s t = Some xt" using xt offer_cap_effect(1) [OF off] by simp
  from delivered_message [OF this wf, of b "fst m" "fst (snd m)" "snd (snd m)" tg]
  obtain y where y: "get_tcb (delivered s1 e q' t b m tg) t = Some y" "has_message y b m tg"
    by (auto simp: delivered_def)
  from tcb_make_ready_self [OF y(1)] y(2) show "\<exists>y. get_tcb s2 t = Some y \<and> tcb_state y = Ready \<and> has_message y b m tg"
    by (auto simp: s2 has_message_def)
qed

lemma cnodes_kept [simp]:
  "ks_cnodes (make_ready s u) = ks_cnodes s"
  "ks_cnodes (deliver_payload s t b m1 m2 m3 tg) = ks_cnodes s"
  by (simp_all add: make_ready_def deliver_payload_def split: option.split)

lemma slots_delivered [simp]: "slot_cap (make_ready (delivered s e q t b m tg) u) = slot_cap s"
  by (simp add: delivered_def slot_cap_def fun_eq_iff)

text \<open>One statement for every \<open>Send\<close> that meets a receiver, with or without a capability.\<close>

lemma send_meets:
  assumes run: "running c s" and cap: "lookup_cap s c p = Inr (EndpointCap e b r)" "contains r rights_WRITE"
    and tag: "require_fast_path_only (h_tag H f) = Inr ()"
    and extra: "extract_extra_cap H s c f (h_tag H f) = Inr x"
    and wl: "wait_list s (PRecv e) = t # ts"
    and off: "offer_cap s t (blocked_receiver_dest_slot s t) x = Inr s1"
  shows "\<exists>s' y. send H s c p f nb = Ok s' (reply_success H f)
     \<and> threads_of s' = shift (threads_of s) t Ready \<and> slot_cap s' = slot_cap s1
     \<and> get_tcb s' t = Some y \<and> tcb_state y = Ready \<and> has_message y b (payload_words H f (x \<noteq> None)) (h_tag H f)"
proof (rule endpoint_receiver [OF run wl])
  fix ep q q' xt d
  assume ep: "pool_get (ks_endpoints s) (endpoint_ix e) = Some ep" "ep_queue ep = QRecv q"
    and front: "aq_front q = Some t" and pop: "aq_pop_front q = (Some t, q')"
  obtain m1 m2 m3 where m: "payload_words H f (x \<noteq> None) = (m1, m2, m3)" by (rule prod_cases3)
  let ?s' = "make_ready (delivered s1 e q' t b (m1, m2, m3) (h_tag H f)) t"
  have "send H s c p f nb = Ok ?s' (reply_success H f)"
    using cap tag extra ep front pop off m
    by (simp add: send_def resolve_endpoint_def Let_def delivered_def)
  with deliver_wake [OF run ep pop off refl, of b "(m1, m2, m3)" "h_tag H f"] m show ?thesis
    by (auto intro!: exI [of _ ?s'])
qed

section \<open>\<open>Call\<close> to a waiting server, \<open>Reply\<close> to the caller\<close>

lemma switch_to_gets:
  assumes "current_of s = Some c" and "get_tcb s c = Some xc" and "get_tcb s t = Some xt" and "t \<noteq> c"
    and "switch_to H s f t = (s', f')"
  shows "current_of s' = Some t" and "f' = restore_into H (tcb_context xt) f"
    and "get_tcb s' t = Some (xt\<lparr>tcb_state := Running\<rparr>)"
    and "get_tcb s' c = Some (xc\<lparr>tcb_context := save_from H f\<rparr>)"
    and "wait_list s' = wait_list s" and "slot_cap s' = slot_cap s"
proof -
  let ?s = "save_current H s f"
  have r: "resume H ?s f t = (s', f')" using assms(5) by (simp add: switch_to_def)
  have t: "get_tcb ?s t = Some xt" and c: "get_tcb ?s c = Some (xc\<lparr>tcb_context := save_from H f\<rparr>)"
    using assms(1-4) by (simp_all add: get_tcb_save_current)
  show "current_of s' = Some t" using current_of_resume [of H ?s f t] r by simp
  show "f' = restore_into H (tcb_context xt) f" using snd_resume [OF t, of H f] r by simp
  show "get_tcb s' t = Some (xt\<lparr>tcb_state := Running\<rparr>)" "get_tcb s' c = Some (xc\<lparr>tcb_context := save_from H f\<rparr>)"
    using get_tcb_resume [of H ?s f t] r t c assms(4) by auto
  have "threads_of s' = (threads_of s)\<lparr>tv_state := (tv_state (threads_of s))(t \<mapsto> Running), tv_current := Some t\<rparr>"
    using threads_of_switch_to [of s t H f] assms(3,5) by simp
  from arg_cong [OF this, of tv_queue] show "wait_list s' = wait_list s" by simp
  have "ks_cnodes s' = ks_cnodes s"
    using r t by (auto simp: resume_def Let_def split: option.splits)
  then show "slot_cap s' = slot_cap s" by (simp add: slot_cap_def fun_eq_iff)
qed

definition calling :: "('b, 'h) kernel_state \<Rightarrow> tcb_id \<Rightarrow> tcb_id \<Rightarrow> cptr option \<Rightarrow> bool" where
  "calling s c t d \<longleftrightarrow> current_of s = Some t
     \<and> (\<exists>y. get_tcb s c = Some y \<and> tcb_state y = BlockedReply d)
     \<and> (\<exists>y. get_tcb s t = Some y \<and> tcb_state y = Running \<and> tcb_reply_to y = Some c)"

lemma call_meets:
  assumes laws: "frame_laws H" and run: "running c s"
    and cap: "lookup_cap s c p = Inr (EndpointCap e b r)" "contains r rights_WRITE"
    and tag: "require_call_tag (h_tag H f) = Inr ()"
    and extra: "extract_extra_cap H s c f (h_tag H f) = Inr x"
    and wl: "wait_list s (PRecv e) = t # ts"
    and off: "offer_cap s t (blocked_receiver_dest_slot s t) x = Inr s1"
    and d: "d = call_reply_dest_slot H f (h_tag H f)"
  shows "\<exists>s' f'. call H s c p f = Ok s' f' \<and> calling s' c t d
     \<and> (\<exists>y. get_tcb s' c = Some y \<and> tcb_context y = save_from H f)
     \<and> wait_list s' = (wait_list s)(PRecv e := ts) \<and> slot_cap s' = slot_cap s1
     \<and> shows_message H f' b (payload_words H f (x \<noteq> None \<or> d \<noteq> None)) \<and> h_tag H f' = h_tag H f"
proof (rule endpoint_receiver [OF run wl])
  note R = runningD [OF run]
  fix ep q q' xt dd
  assume ep: "pool_get (ks_endpoints s) (endpoint_ix e) = Some ep" "ep_queue ep = QRecv q"
    and front: "aq_front q = Some t" and pop: "aq_pop_front q = (Some t, q')" and rest: "aq_list q' = ts"
    and xt: "get_tcb s t = Some xt" and ne: "t \<noteq> c"
  obtain m1 m2 m3 where m: "payload_words H f (x \<noteq> None \<or> d \<noteq> None) = (m1, m2, m3)" by (rule prod_cases3)
  note D = delivered_view [OF run ep pop off]
  let ?s2 = "delivered s1 e q' t b (m1, m2, m3) (h_tag H f)"
  have wf: "ctx_wf (tcb_context xt)" using wf_objects(3) [OF R(1) xt] .
  obtain xc where xc: "get_tcb s c = Some xc" using R(6) by blast
  have "get_tcb (set_endpoint_queue s1 e (normalize (QRecv q'))) t = Some xt" using xt offer_cap_effect(1) [OF off] by simp
  from delivered_message [OF this wf, of b m1 m2 m3 "h_tag H f"] obtain y
    where y: "get_tcb ?s2 t = Some y" "has_message y b (m1, m2, m3) (h_tag H f)" by (auto simp: delivered_def)
  let ?s3 = "update_tcb ?s2 t (\<lambda>tcb. tcb\<lparr>tcb_reply_to := Some c\<rparr>)"
  let ?s4 = "set_thread_state ?s3 c (BlockedReply d)"
  obtain s' f' where sw: "switch_to H ?s4 f t = (s', f')" by (cases "switch_to H ?s4 f t")
  have call: "call H s c p f = Ok s' f'"
    using cap tag extra ep front pop off m sw d
    by (simp add: call_def resolve_endpoint_def Let_def delivered_def)
  have c4: "current_of ?s4 = Some c" using arg_cong [OF D(3), of tv_current b "(m1, m2, m3)" "h_tag H f"] R(5) by simp
  have xc4: "get_tcb ?s4 c = Some (xc\<lparr>tcb_state := BlockedReply d\<rparr>)"
    using xc ne offer_cap_effect(1) [OF off] by (simp add: delivered_def deliver_payload_def)
  have xt4: "get_tcb ?s4 t = Some (y\<lparr>tcb_reply_to := Some c\<rparr>)" using y ne by simp
  note S = switch_to_gets [OF c4 xc4 xt4 ne sw]
  have ml: "has_message (y\<lparr>tcb_reply_to := Some c\<rparr>) b (m1, m2, m3) (h_tag H f)" using y(2) by (simp add: has_message_def)
  have wfy: "ctx_wf (tcb_context (y\<lparr>tcb_reply_to := Some c\<rparr>))" using wf_objects(3) [OF D(2) y(1)] by simp
  have "wait_list ?s4 = wait_list ?s2" by (rule wait_list_cong) simp_all
  also have "\<dots> = (wait_list s)(PRecv e := ts)"
    using arg_cong [OF D(3), of tv_queue b "(m1, m2, m3)" "h_tag H f"] rest by simp
  finally have "wait_list s' = (wait_list s)(PRecv e := ts)" using S(5) by simp
  moreover have "slot_cap ?s4 = slot_cap s1" by (simp add: slot_cap_def fun_eq_iff delivered_def deliver_payload_def)
  ultimately show ?thesis using call S restored_message [OF laws wfy ml, of f] m
    by (intro exI [of _ s'] exI [of _ f']) (simp add: calling_def)
qed

lemma reply_meets:
  assumes laws: "frame_laws H" and run: "running c s"
    and tag: "require_fast_path_only (h_tag H f) = Inr ()"
    and extra: "extract_extra_cap H s c f (h_tag H f) = Inr x"
    and c: "get_tcb s c = Some tc" "tcb_reply_to tc = Some t"
    and off: "offer_cap s t (blocked_caller_reply_dest_slot s t) x = Inr s1"
  shows "\<exists>s' f'. reply H s c f = Ok s' f' \<and> current_of s' = Some t
     \<and> (\<exists>y. get_tcb s' t = Some y \<and> tcb_state y = Running)
     \<and> (\<exists>y. get_tcb s' c = Some y \<and> tcb_state y = Ready \<and> tcb_reply_to y = None \<and> tcb_context y = save_from H f)
     \<and> wait_list s' = (wait_list s)(PReady := wait_list s PReady @ [c]) \<and> slot_cap s' = slot_cap s1
     \<and> shows_message H f' 0 (payload_words H f (x \<noteq> None)) \<and> h_tag H f' = h_tag H f"
proof -
  note R = runningD [OF run] and T = reply_target [OF run c] and O = offer_cap_effect [OF off]
  obtain m1 m2 m3 where m: "payload_words H f (x \<noteq> None) = (m1, m2, m3)" by (rule prod_cases3)
  obtain xt where xt: "get_tcb s t = Some xt" using T(1) by blast
  let ?s1 = "update_tcb s1 c (\<lambda>tcb. tcb\<lparr>tcb_reply_to := None\<rparr>)"
  let ?s2 = "deliver_payload ?s1 t 0 m1 m2 m3 (h_tag H f)"
  have xt1: "get_tcb ?s1 t = Some xt" using xt T(2) by (simp add: O)
  have wf: "ctx_wf (tcb_context xt)" using wf_objects(3) [OF R(1) xt] .
  obtain y where y: "get_tcb ?s2 t = Some y" "has_message y 0 (m1, m2, m3) (h_tag H f)"
    using delivered_message [OF xt1 wf, of 0 m1 m2 m3 "h_tag H f"] by blast
  have running: "tcb_state tc = Running" using R(6) c by simp
  have tc2: "get_tcb ?s2 c = Some (tc\<lparr>tcb_reply_to := None\<rparr>)" using c T(2) by (simp add: deliver_payload_def O)
  have wf2: "state_wf ?s2" using O(9) R(1) by (simp add: wf_rules)
  have view2: "threads_of ?s2 = (threads_of s)\<lparr>tv_reply := (tv_reply (threads_of s))(c := None)\<rparr>"
    using c by (simp add: deliver_payload_def observe O)
  have list2: "wait_list ?s2 = wait_list s" using arg_cong [OF view2, of tv_queue] by simp
  have room: "length (wait_list ?s2 PReady) < MAX_TCBS"
    using ready_room [OF R(1,3) c(1)] running list2 by simp
  let ?s3 = "make_ready ?s2 c"
  have s3: "?s3 = push_ready (set_thread_state ?s2 c Ready) c" using running by (intro make_ready_state [OF tc2]) simp
  have list3: "wait_list ?s3 = (wait_list s)(PReady := wait_list s PReady @ [c])"
    using arg_cong [OF threads_of_make_ready [OF tc2 _ wf_objects(7) [OF wf2] room], of tv_queue] running list2 by simp
  obtain s' f' where sw: "switch_to H ?s3 f t = (s', f')" by (cases "switch_to H ?s3 f t")
  have rep: "reply H s c f = Ok s' f'"
    using tag extra c off m sw xt1 by (simp add: reply_def Let_def)
  have "current_of ?s3 = Some c" using R(5) by (simp add: O)
  moreover have "get_tcb ?s3 c = Some (tc\<lparr>tcb_reply_to := None, tcb_state := Ready\<rparr>)" using tc2 by (simp add: s3 del: deliver_fields)
  moreover have "get_tcb ?s3 t = Some y" using y T(2) by (simp add: s3 del: deliver_fields)
  ultimately have S: "current_of s' = Some t" "f' = restore_into H (tcb_context y) f"
    "get_tcb s' t = Some (y\<lparr>tcb_state := Running\<rparr>)" "wait_list s' = wait_list ?s3" "slot_cap s' = slot_cap ?s3"
    "get_tcb s' c = Some (tc\<lparr>tcb_reply_to := None, tcb_state := Ready, tcb_context := save_from H f\<rparr>)"
    using switch_to_gets [OF _ _ _ T(2) sw] by auto
  have wfy: "ctx_wf (tcb_context y)" using wf_objects(3) [OF wf2 y(1)] .
  have "slot_cap ?s3 = slot_cap s1" by (simp add: slot_cap_def fun_eq_iff)
  then show ?thesis
    using rep S list3 restored_message [OF laws wfy y(2), of f] m
    by (intro exI [of _ s'] exI [of _ f']) simp
qed

section \<open>\<open>Recv\<close> from a waiting sender\<close>

text \<open>The registers of a receive: badge, the sender's payload, its tag with the error bit cleared.\<close>

lemma recv_frame_reads:
  assumes laws: "frame_laws H"
    and f': "f' = reply_success H (h_set_tag H (h_set_mr H (h_set_mr H (h_set_mr H (h_set_mr H f 0 b) 1 m1) 2 m2) 3 m3) tg)"
  shows "shows_message H f' b (m1, m2, m3)" and "h_tag H f' = tg\<lparr>tag_flags := tag_flags tg AND NOT (h_flag_error H)\<rparr>"
  by (simp_all add: f' shows_message_def reply_success_tag(2) [OF laws] frame_law_simps [OF laws])
     (simp add: reply_success_def Let_def frame_law_simps [OF laws])

lemma recv_meets:
  assumes laws: "frame_laws H" and run: "running c s"
    and cap: "lookup_cap s c p = Inr (EndpointCap e b0 r)" "contains r rights_READ"
    and tag: "require_fast_path_only (h_tag H f) = Inr ()"
    and wl: "wait_list s (PSend e) = t # ts"
    and t: "get_tcb s t = Some x" "tcb_state x = BlockedSend e b k xc d"
    and off: "offer_cap s c (if tag_extra_caps (h_tag H f) = 1 then Some (h_mr H f 1) else None) xc = Inr s1"
  shows "\<exists>s' f'. recv H s c p f = Ok s' f' \<and> current_of s' = Some c
     \<and> shows_message H f' b (if xc \<noteq> None then 0 else ctx_mr (tcb_context x) 1, ctx_mr (tcb_context x) 2, ctx_mr (tcb_context x) 3)
     \<and> h_tag H f' = (ctx_tag (tcb_context x))\<lparr>tag_flags := tag_flags (ctx_tag (tcb_context x)) AND NOT (h_flag_error H)\<rparr>
     \<and> slot_cap s' = slot_cap s1
     \<and> threads_of s' = (if k then (shift (threads_of s) t (BlockedReply d))\<lparr>tv_reply := (tv_reply (threads_of s))(c \<mapsto> t)\<rparr>
                        else shift (threads_of s) t Ready)"
proof (rule endpoint_sender [OF run wl])
  note R = runningD [OF run] and O = offer_cap_effect [OF off]
  fix ep q q' x' b' k' cap' d'
  assume ep: "pool_get (ks_endpoints s) (endpoint_ix e) = Some ep" "ep_queue ep = QSend q"
    and front: "aq_front q = Some t" and pop: "aq_pop_front q = (Some t, q')" and rest: "aq_list q' = ts"
    and ne: "t \<noteq> c"
  let ?s2 = "set_endpoint_queue s1 e (normalize (QSend q'))" and ?v = "threads_of s"
  have q: "queue_wf q" using wf_objects(1) [OF R(1) ep(1)] ep(2) by simp
  note P = pop_head [OF q pop]
  have other: "wait_list s (PRecv e) = []" using ep by simp
  have wf2: "state_wf ?s2" using O(9) R(1) normalize_lists(5) [OF P(2)] by (simp add: wf_rules)
  have view2: "threads_of ?s2 = ?v\<lparr>tv_queue := (wait_list s)(PSend e := ts)\<rparr>"
    using ep other rest by (simp add: observe O normalize_lists [OF P(2)] fun_upd_idem)
  define s' where "s' = (if k then set_thread_state (update_tcb ?s2 c (\<lambda>tcb. tcb\<lparr>tcb_reply_to := Some t\<rparr>)) t (BlockedReply d)
      else make_ready ?s2 t)"
  define f' where "f' = reply_success H (h_set_tag H (h_set_mr H (h_set_mr H (h_set_mr H (h_set_mr H f 0 b) 1
      (if xc \<noteq> None then 0 else ctx_mr (tcb_context x) 1)) 2 (ctx_mr (tcb_context x) 2)) 3 (ctx_mr (tcb_context x) 3))
      (ctx_tag (tcb_context x)))"
  have recv: "recv H s c p f = Ok s' f'"
    using cap tag ep front pop t off
    by (simp add: recv_def resolve_endpoint_def Let_def s'_def f'_def)
  have view: "threads_of s' = (if k then (shift ?v t (BlockedReply d))\<lparr>tv_reply := (tv_reply ?v)(c \<mapsto> t)\<rparr>
                        else shift ?v t Ready)"
  proof (cases k)
    case True
    obtain tc where "get_tcb s c = Some tc" using R(6) by blast
    with True t wl shift_head_view(2) [OF R(3), of "PSend e" t ts "BlockedReply d"] show ?thesis
      by (simp add: s'_def observe view2 O)
  next
    case False
    with wake_view [OF R(1,3) wl _ view2] wf_objects(7) [OF wf2] show ?thesis by (simp add: s'_def)
  qed
  have slots: "slot_cap s' = slot_cap s1"
    by (simp add: s'_def slot_cap_def fun_eq_iff)
  have "tv_current (threads_of s') = Some c" unfolding view using R(5) by simp
  then have cur: "current_of s' = Some c" by simp
  from recv cur view slots recv_frame_reads [OF laws f'_def] show ?thesis
    by (intro exI [of _ s'] exI [of _ f']) simp
qed

section \<open>Blocking\<close>

text \<open>A thread that blocks is last in its queue with its registers saved; the head of the ready queue runs.\<close>

definition gave_way ::
  "('f, 'b, 'h, 'p) hal \<Rightarrow> ('b, 'h) kernel_state \<Rightarrow> tcb_id \<Rightarrow> 'f \<Rightarrow> thread_state \<Rightarrow> tcb_id \<Rightarrow> ('b, 'h) kernel_state \<Rightarrow> bool" where
  "gave_way H s c f x u s' \<longleftrightarrow>
     threads_of s' = (shift (shift (threads_of s) c x) u Running)\<lparr>tv_current := Some u\<rparr>
   \<and> (\<exists>y. get_tcb s' c = Some y \<and> tcb_context y = save_from H f)"

lemma block_meets:
  assumes laws: "frame_laws H" and run: "running c s"
    and ep: "pool_get (ks_endpoints s) (endpoint_ix e) = Some ep"
    and p: "p = PSend e \<and> side = QSend \<or> p = PRecv e \<and> side = QRecv"
    and q: "ep_queue ep = QEmpty \<and> q = aq_new MAX_TCBS \<or> ep_queue ep = side q"
    and x: "place_of x = Some p" "\<And>e b k c d. x = BlockedSend e b k (Some c) d \<Longrightarrow> c \<in> caps_of s"
    and rd: "wait_list s PReady = u # us"
  shows "\<exists>s' f'. block_on_endpoint H s f c e side q x = Ok s' f' \<and> gave_way H s c f x u s'"
proof -
  have qs: "queue_wf q" "aq_list q = wait_list s p" "wait_list s (opposite p) = []"
    using p q wf_objects(1) [OF runningD(1) [OF run] ep] endpoint_wait_lists [OF ep]
    by (auto simp: queue_wf_new aq.elems_empty simp del: wait_list.simps)
  show ?thesis
  proof (rule block_on_endpoint_effect [OF laws run _ p qs x rd, where f = f])
    fix s' f'
    assume ok: "block_on_endpoint H s f c e side q x = Ok s' f'"
      and v: "threads_of s' = (shift (shift (threads_of s) c x) u Running)\<lparr>tv_current := Some u\<rparr>"
    have uc: "u \<noteq> c"
      using rd head_states(1) [OF runningD(3) [OF run]] runningD(6) [OF run] by fastforce
    have "current_of s' = Some u" using arg_cong [OF v, of tv_current] by simp
    with uc on_okD [OF block_on_endpoint_switch [OF run] ok]
    have "\<exists>y. get_tcb s' c = Some y \<and> tcb_context y = save_from H f"
      by (auto simp: switch_ok_def)
    with ok v show ?thesis by (auto simp: gave_way_def)
  qed (use ep in auto)
qed

text \<open>What that looks like: the new owner, the queues and the thread that blocked.\<close>

lemma gave_way_observed:
  assumes run: "running c s" and gave: "gave_way H s c f x u s'" and p: "place_of x = Some p" "p \<noteq> PReady"
    and rd: "wait_list s PReady = u # us"
  shows "current_of s' = Some u \<and> wait_list s' = (wait_list s)(p := wait_list s p @ [c], PReady := us)
    \<and> (\<exists>y. get_tcb s' c = Some y \<and> tcb_state y = x \<and> tcb_context y = save_from H f)"
proof -
  note R = runningD [OF run]
  have idle: "Option.bind (tv_state (threads_of s) c) place_of = None" using R(6) by auto
  have q: "tv_queue (threads_of s) PReady @ (if p = PReady then [c] else []) = u # us" using rd p(2) by simp
  have uc: "u \<noteq> c" using rd head_states(1) [OF R(3)] R(6) by fastforce
  from gave have v: "threads_of s' = (shift (shift (threads_of s) c x) u Running)\<lparr>tv_current := Some u\<rparr>"
    and y: "\<exists>y. get_tcb s' c = Some y \<and> tcb_context y = save_from H f" by (simp_all add: gave_way_def)
  from v have w: "threads_of s' = (threads_of s)\<lparr>tv_state := (tv_state (threads_of s))(c \<mapsto> x, u \<mapsto> Running),
      tv_queue := (tv_queue (threads_of s))(p := tv_queue (threads_of s) p @ [c], PReady := us), tv_current := Some u\<rparr>"
    by (simp only: handoff_view [OF R(3) idle p(1) q])
  have "map_option tcb_state (get_tcb s' c) = Some x"
    using arg_cong [OF w, of "\<lambda>v. tv_state v c"] uc by simp
  moreover have "current_of s' = Some u" using arg_cong [OF w, of tv_current] by simp
  moreover have "wait_list s' = (wait_list s)(p := wait_list s p @ [c], PReady := us)"
    using arg_cong [OF w, of tv_queue] by (simp del: wait_list.simps)
  ultimately show ?thesis using y by auto
qed

end
