(* ===== verification/Notify.thy ===== *)
theory Notify
  imports Behaviour
begin

text \<open>
  Notifications: a signal with and without a waiter, \<open>Wait\<close> and \<open>Poll\<close>, and the bits a
  notification holds after a run of signals.
\<close>

section \<open>Notifications\<close>

lemma notification_alive:
  assumes run: "running c s" and cap: "lookup_cap s c p = Inr (NotificationCap n b r)"
  obtains x where "pool_get (ks_notifications s) (notification_ix n) = Some x"
  using runningD(4) [OF run] lookup_cap_mem [OF cap] by (fastforce simp: no_dangling_def)

lemma signal_raises:
  assumes run: "running c s" and cap: "lookup_cap s c p = Inr (NotificationCap n b r)" "contains r rights_WRITE"
    and wl: "wait_list s (PWait n) = []"
  obtains s' where "signal H s c p f = Ok s' (reply_success H f)"
    and "threads_of s' = (threads_of s)\<lparr>tv_signals := (tv_signals (threads_of s))(n := tv_signals (threads_of s) n OR b)\<rparr>"
    and "ks_tcbs s' = ks_tcbs s" and "ks_cnodes s' = ks_cnodes s"
proof (rule notification_alive [OF run cap(1)])
  note R = runningD [OF run]
  fix x assume nt: "pool_get (ks_notifications s) (notification_ix n) = Some x"
  have q: "queue_wf (ntfn_waiters x)" using wf_objects(2) [OF R(1) nt] .
  have "aq_list (ntfn_waiters x) = []" using wl nt by simp
  then obtain q' where pop: "aq_pop_front (ntfn_waiters x) = (None, q')"
    by (cases "aq_pop_front (ntfn_waiters x)") (auto simp: aq_pop_front_def aq_list_empty_iff)
  let ?s = "update_notification s n (\<lambda>n. n\<lparr>ntfn_signals := ntfn_signals n OR b\<rparr>)"
  have "signal H s c p f = Ok ?s (reply_success H f)"
    using cap nt pop by (simp add: signal_def resolve_notification_def)
  moreover have "threads_of ?s = (threads_of s)\<lparr>tv_signals := (tv_signals (threads_of s))(n := tv_signals (threads_of s) n OR b)\<rparr>"
    using nt by (intro thread_view.equality) (auto simp: observe)
  moreover have "ks_tcbs ?s = ks_tcbs s" "ks_cnodes ?s = ks_cnodes s" by simp_all
  ultimately show ?thesis using that by blast
qed

lemma waited_no_signals:
  assumes run: "running c s" and wl: "wait_list s (PWait n) = t # ts"
  shows "tv_signals (threads_of s) n = 0"
proof -
  have "signals_ok (threads_of s)" using runningD(2) [OF run] by (simp add: threads_ok_def)
  then have "tv_signals (threads_of s) n = 0 \<or> wait_list s (PWait n) = []"
    by (simp add: signals_ok_def del: wait_list.simps)
  with wl show ?thesis by simp
qed

lemma signal_wakes:
  fixes s :: "('w::len word, 'h) kernel_state"
  assumes run: "running c s" and cap: "lookup_cap s c p = Inr (NotificationCap n b r)" "contains r rights_WRITE"
    and wl: "wait_list s (PWait n) = t # ts"
  shows "\<exists>s' y. signal H s c p f = Ok s' (reply_success H f) \<and> threads_of s' = shift (threads_of s) t Ready
     \<and> get_tcb s' t = Some y \<and> tcb_state y = Ready \<and> ctx_mr (tcb_context y) 0 = b"
proof (rule notification_alive [OF run cap(1)])
  note R = runningD [OF run]
  fix x assume nt: "pool_get (ks_notifications s) (notification_ix n) = Some x"
  have q: "queue_wf (ntfn_waiters x)" "aq_list (ntfn_waiters x) = t # ts" using wf_objects(2) [OF R(1) nt] wl nt by simp_all
  obtain t' q' where pop: "aq_pop_front (ntfn_waiters x) = (Some t', q')" using pop_nonempty [OF q(1)] q(2) by force
  from pop_head [OF q(1) pop] q(2) have t': "t' = t" and rest: "aq_list q' = ts" and q': "queue_wf q'" by auto
  have sig: "tv_signals (threads_of s) n = 0" by (rule waited_no_signals [OF run wl])
  then have zero: "ntfn_signals x = 0" using nt by simp
  let ?s1 = "update_notification s n (\<lambda>n. n\<lparr>ntfn_waiters := q', ntfn_signals := 0\<rparr>)"
  let ?s2 = "update_tcb ?s1 t (\<lambda>tcb. tcb\<lparr>tcb_context := ctx_set_mr (tcb_context tcb) 0 b\<rparr>)"
  have sigw: "signal H s c p f = Ok (make_ready ?s2 t) (reply_success H f)"
    using cap nt pop t' zero by (simp add: signal_def resolve_notification_def Let_def)
  have view2: "threads_of ?s2 = (threads_of s)\<lparr>tv_queue := (wait_list s)(PWait n := ts)\<rparr>"
    using nt rest sig by (simp add: observe fun_upd_idem del: signals_get)
  have wf2: "state_wf ?s2" using R(1) q' by (simp add: wf_rules)
  have view: "threads_of (make_ready ?s2 t) = shift (threads_of s) t Ready"
    using wake_view [OF R(1,3) wl _ view2] wf_objects(7) [OF wf2] by simp
  obtain xt where xt: "get_tcb s t = Some xt"
    using queued_head [OF R(3), of "PWait n" t ts] wl by auto
  have "get_tcb ?s2 t = Some (xt\<lparr>tcb_context := ctx_set_mr (tcb_context xt) 0 b\<rparr>)" using xt by simp
  from tcb_make_ready_self [OF this] obtain y where y: "get_tcb (make_ready ?s2 t) t = Some y" "tcb_state y = Ready"
    "tcb_context y = ctx_set_mr (tcb_context xt) 0 b" by auto
  have "ctx_mr (tcb_context y) 0 = b"
    using wf_objects(3) [OF R(1) xt] by (simp add: y(3) ctx.mr_set_mr)
  with sigw view y show ?thesis by blast
qed

lemma poll_takes:
  assumes laws: "frame_laws H" and run: "running c s"
    and cap: "lookup_cap s c p = Inr (NotificationCap n b r)" "contains r rights_READ"
  shows "\<exists>s' f'. poll H s c p f = Ok s' f' \<and> h_mr H f' 0 = tv_signals (threads_of s) n
     \<and> threads_of s' = (threads_of s)\<lparr>tv_signals := (tv_signals (threads_of s))(n := 0)\<rparr>"
proof (rule notification_alive [OF run cap(1)])
  fix x assume nt: "pool_get (ks_notifications s) (notification_ix n) = Some x"
  let ?s = "if ntfn_signals x \<noteq> 0 then update_notification s n (\<lambda>n. n\<lparr>ntfn_signals := 0\<rparr>) else s"
  have "poll H s c p f = Ok ?s (reply_success H (h_set_mr H f 0 (ntfn_signals x)))"
    using cap nt by (simp add: poll_def resolve_notification_def Let_def)
  moreover have "threads_of ?s = (threads_of s)\<lparr>tv_signals := (tv_signals (threads_of s))(n := 0)\<rparr>"
    using nt by (auto intro!: thread_view.equality simp: observe)
  moreover have "h_mr H (reply_success H (h_set_mr H f 0 (ntfn_signals x))) 0 = tv_signals (threads_of s) n"
    using nt by (simp add: reply_success_tag(2) [OF laws] frame_law_simps [OF laws])
  ultimately show ?thesis by blast
qed

lemma poll_same_caps:
  assumes "poll H s c p f = Ok s' f'"
  shows "ks_tcbs s' = ks_tcbs s" and "ks_cnodes s' = ks_cnodes s"
proof -
  have "on_ok (\<lambda>s' f'. ks_tcbs s' = ks_tcbs s \<and> ks_cnodes s' = ks_cnodes s) (poll H s c p f)"
    unfolding poll_def Let_def by (intro peel_on_ok) simp_all
  from on_okD [OF this assms] show "ks_tcbs s' = ks_tcbs s" and "ks_cnodes s' = ks_cnodes s" by simp_all
qed

lemma wait_takes:
  assumes laws: "frame_laws H" and run: "running c s"
    and cap: "lookup_cap s c p = Inr (NotificationCap n b r)" "contains r rights_READ"
    and sig: "tv_signals (threads_of s) n \<noteq> 0"
  shows "\<exists>s' f'. wait H s c p f = Ok s' f' \<and> h_mr H f' 0 = tv_signals (threads_of s) n
     \<and> threads_of s' = (threads_of s)\<lparr>tv_signals := (tv_signals (threads_of s))(n := 0)\<rparr>"
proof (rule notification_alive [OF run cap(1)])
  fix x assume nt: "pool_get (ks_notifications s) (notification_ix n) = Some x"
  let ?s = "update_notification s n (\<lambda>n. n\<lparr>ntfn_signals := 0\<rparr>)"
  have "wait H s c p f = Ok ?s (reply_success H (h_set_mr H f 0 (ntfn_signals x)))"
    using cap nt sig by (simp add: wait_def resolve_notification_def Let_def)
  moreover have "threads_of ?s = (threads_of s)\<lparr>tv_signals := (tv_signals (threads_of s))(n := 0)\<rparr>"
    using nt by (auto intro!: thread_view.equality simp: observe)
  moreover have "h_mr H (reply_success H (h_set_mr H f 0 (ntfn_signals x))) 0 = tv_signals (threads_of s) n"
    using nt by (simp add: reply_success_tag(2) [OF laws] frame_law_simps [OF laws])
  ultimately show ?thesis by blast
qed

lemma wait_waits:
  assumes laws: "frame_laws H" and run: "running c s"
    and cap: "lookup_cap s c p = Inr (NotificationCap n b r)" "contains r rights_READ"
    and sig: "tv_signals (threads_of s) n = 0"
  shows "wait_list s PReady = [] \<Longrightarrow> wait H s c p f = Err Timeout s f"
    and "wait_list s PReady = u # us \<Longrightarrow> \<exists>s' f'. wait H s c p f = Ok s' f' \<and> gave_way H s c f (BlockedWait n) u s'"
proof -
  note R = runningD [OF run]
  obtain x where nt: "pool_get (ks_notifications s) (notification_ix n) = Some x" by (rule notification_alive [OF run cap(1)])
  then have z: "ntfn_signals x = 0" using sig by simp
  show "wait H s c p f = Err Timeout s f" if "wait_list s PReady = []"
    using cap nt z that has_ready_iff [OF R(7)] by (simp add: wait_def resolve_notification_def)
  assume rd: "wait_list s PReady = u # us"
  obtain q' s' f' where E: "aq_push_back (ntfn_waiters x) c = (True, q')"
    "block_current H (set_thread_state (update_notification s n (\<lambda>y. y\<lparr>ntfn_waiters := q'\<rparr>)) c (BlockedWait n)) f
       = Some (True, s', f')"
    and v: "threads_of s' = (shift (shift (threads_of s) c (BlockedWait n)) u Running)\<lparr>tv_current := Some u\<rparr>"
    by (rule wait_block_effect [OF laws run nt rd, where f = f])
  have ok: "wait H s c p f = Ok s' f'"
    using cap nt z rd E has_ready_iff [OF R(7)] by (simp add: wait_def resolve_notification_def)
  have "u \<noteq> c" using rd head_states(1) [OF R(3)] R(6) by fastforce
  moreover have "current_of s' = Some u" using arg_cong [OF v, of tv_current] by simp
  ultimately have "\<exists>y. get_tcb s' c = Some y \<and> tcb_context y = save_from H f"
    using on_okD [OF wait_switch [OF run] ok] by (auto simp: switch_ok_def)
  with ok v show "\<exists>s' f'. wait H s c p f = Ok s' f' \<and> gave_way H s c f (BlockedWait n) u s'"
    by (auto simp: gave_way_def)
qed

section \<open>Signals over a run\<close>

lemma syscall_signal: "syscall_from_usize 6 = Some SysSignal"
  by (simp add: syscall_from_usize_def)

lemma lookup_cap_cong:
  "ks_tcbs s' = ks_tcbs s \<Longrightarrow> ks_cnodes s' = ks_cnodes s \<Longrightarrow> lookup_cap s' t p = lookup_cap s t p"
  by (simp add: lookup_cap_def cong: option.case_cong)

text \<open>Blocking changes what no thread finds in its CSpace.\<close>

lemma lookup_cap_same:
  "(\<And>x. tcb_cspace (g x) = tcb_cspace x) \<Longrightarrow> lookup_cap (update_tcb s t g) u p = lookup_cap s u p"
  "lookup_cap (set_current s c) u p = lookup_cap s u p"
  "lookup_cap (s\<lparr>ks_scheduler := sch\<rparr>) u p = lookup_cap s u p"
  "lookup_cap (s\<lparr>ks_hw := hw\<rparr>) u p = lookup_cap s u p"
  "lookup_cap (set_endpoint_queue s e q) u p = lookup_cap s u p"
  by (auto simp: lookup_cap_def update_tcb_def set_current_def set_endpoint_queue_def split: option.split)

lemma lookup_cap_resume: "lookup_cap (fst (resume H s f n)) u p = lookup_cap s u p"
  by (simp add: resume_def lookup_cap_same set_thread_state_def Let_def split: option.split)

lemma lookup_cap_save: "lookup_cap (save_current H s f) u p = lookup_cap s u p"
  by (simp add: save_current_def lookup_cap_same split: option.split)

lemma lookup_cap_block:
  assumes "block_current H s f = Some (g, s', f')"
  shows "lookup_cap s' u p = lookup_cap s u p"
proof (cases "has_ready s")
  case True
  with assms obtain n q where "resume H (set_current (save_current H s f) None
      \<lparr>ks_scheduler := ks_scheduler (set_current (save_current H s f) None)\<lparr>sch_ready := q\<rparr>\<rparr>) f n = (s', f')"
    by (auto simp: block_current_def Let_def split: option.splits prod.splits)
  from arg_cong [OF this, of "\<lambda>r. lookup_cap (fst r) u p"] show ?thesis
    by (simp add: lookup_cap_resume lookup_cap_same lookup_cap_save)
qed (use assms in \<open>simp add: block_current_def\<close>)

lemma block_on_endpoint_lookup:
  "block_on_endpoint H s f c e side q x = Ok s' f' \<Longrightarrow> lookup_cap s' u p = lookup_cap s u p"
  by (auto simp: block_on_endpoint_def lookup_cap_same set_thread_state_def Let_def dest!: lookup_cap_block
      split: if_splits option.splits prod.splits bool.splits)

text \<open>The registers of a \<open>Signal\<close> on \<open>n\<close> through a capability with badge \<open>b\<close>.\<close>

definition signals_with ::
  "('f, 'b, 'h, 'p) hal \<Rightarrow> ('b, 'h) kernel_state \<Rightarrow> tcb_id \<Rightarrow> notification_id \<Rightarrow> 'f \<Rightarrow> u64 \<Rightarrow> bool" where
  "signals_with H s c n f b \<longleftrightarrow> h_syscall_number H f = 6
     \<and> (case lookup_cap s c (h_mr H f 0) of
          Inr (NotificationCap m b' r) \<Rightarrow> m = n \<and> b' = b \<and> contains r rights_WRITE
        | _ \<Rightarrow> False)"

lemma signals_accumulate:
  assumes laws: "frame_laws H" "paging_laws H" and run: "running c s" and wl: "wait_list s (PWait n) = []"
    and sig: "list_all2 (signals_with H s c n) fs bs"
  shows "\<exists>s'. run_traps H s fs = Some s' \<and> current_of s' = Some c
     \<and> tv_signals (threads_of s') n = fold (OR) bs (tv_signals (threads_of s) n)"
  using sig run wl
proof (induction fs arbitrary: bs s)
  case Nil
  then show ?case by (simp add: runningD(5))
next
  case (Cons f fs bs0)
  then obtain b bs where bs0: "bs0 = b # bs" and b: "signals_with H s c n f b" "list_all2 (signals_with H s c n) fs bs"
    by (auto simp: list_all2_Cons1)
  note run = Cons.prems(2) and wl = Cons.prems(3)
  obtain r where num: "h_syscall_number H f = 6"
    and cap: "lookup_cap s c (h_mr H f 0) = Inr (NotificationCap n b r)" "contains r rights_WRITE"
    using b(1) by (auto simp: signals_with_def split: sum.splits capability.splits)
  note R = runningD [OF run]
  obtain s1 where s1: "signal H s c (h_mr H f 0) f = Ok s1 (reply_success H f)"
    and v: "threads_of s1 = (threads_of s)\<lparr>tv_signals := (tv_signals (threads_of s))(n := tv_signals (threads_of s) n OR b)\<rparr>"
    and same: "ks_tcbs s1 = ks_tcbs s" "ks_cnodes s1 = ks_cnodes s"
    by (rule signal_raises [OF run cap wl])
  have d: "dispatch H s f = Some (s1, reply_success H f)"
    using s1 num R(5) by (simp add: dispatch_def syscall_signal run_syscall_def)
  have "kernel_inv s1" using dispatch_inv [OF laws, of s f] d run by (auto simp: running_def)
  moreover have "current_of s1 = Some c" using arg_cong [OF v, of tv_current] R(5) by simp
  ultimately have run1: "running c s1" by (simp add: running_def)
  have wl1: "wait_list s1 (PWait n) = []" using arg_cong [OF v, of tv_queue] wl by simp
  have "signals_with H s1 c n = signals_with H s c n"
    by (simp add: signals_with_def fun_eq_iff lookup_cap_cong [OF same])
  then have "list_all2 (signals_with H s1 c n) fs bs" using b(2) by simp
  from Cons.IH [OF this run1 wl1] d show ?case
    using arg_cong [OF v, of tv_signals] by (simp add: bs0 or.commute)
qed

end
