(* ===== verification/Memory.thy ===== *)
theory Memory
  imports Notify
begin

text \<open>
  Memory: what \<open>Map\<close> and \<open>Unmap\<close> do to translations and to a Frame's record of mappings, the
  physical memory a retyped Frame names, and what a failed retype keeps.
\<close>

section \<open>Capabilities by slot\<close>

lemma lookup_cap_iff:
  "lookup_cap s t p = Inr k \<longleftrightarrow> k \<noteq> Null \<and> (\<exists>x i. get_tcb s t = Some x \<and> tcb_cspace x = Some i \<and> slot_cap s i p = Some k)"
  by (auto simp: lookup_cap_def slot_cap_def bind_eq_Some_conv split: option.splits)

lemma dispatch_move:
  assumes run: "running c s" and num: "h_syscall_number H f = 9" "tag_label (h_tag H f) = LABEL_MOVE"
    and node: "lookup_cap s c (h_mr H f 0) = Inr (CNodeCap i)"
    and src: "slot_cap s i (h_mr H f 1) = Some k" "k \<noteq> Null" and dest: "slot_cap s i (h_mr H f 2) = Some Null"
  shows "dispatch H s f
     = Some (write_slot (write_slot s i (h_mr H f 2) k) i (h_mr H f 1) Null, reply_success H f)" (is "_ = Some (?s, _)")
proof -
  have "move_cap s i (h_mr H f 1) (h_mr H f 2) = Inr ?s"
    using src dest by (auto simp: move_cap_def slot_cap_def bind_eq_Some_conv)
  then have "cnode_invoke H s c (h_mr H f 0) f = Ok ?s (reply_success H f)"
    using node num(2) by (simp add: cnode_invoke_def Let_def cnode_labels)
  then show ?thesis
    by (intro dispatch_Ok [OF run, where n = SysCNodeInvoke]) (simp_all add: num syscall_numbers run_syscall_simps)
qed

section \<open>Mapping and translation\<close>

lemma aligned_mask: "(x :: usize) mod 2 ^ k = 0 \<Longrightarrow> x AND (2 ^ k - 1) = 0"
  by (simp flip: take_bit_eq_mod mask_eq_exp_minus_1 take_bit_eq_mask)

lemma walk_translates:
  assumes laws: "paging_laws H" and "va mod frame_size_bytes H sz = 0" and "h_translate H hw root va = None"
    and "(hw', n) = walk H sz hw root va pa fl sp" and sp: "length sp = 2"
  shows "h_translate H hw' root va = Some pa" and "n \<le> max_new_tables sz"
proof -
  have "va AND (2 ^ frame_size_log sz - 1) = 0"
    using assms(2) frame_size_bytes_log [OF laws, of sz] by (intro aligned_mask) simp
  moreover have "hw' = fst (walk H sz hw root va pa fl sp)" using assms(4) by (metis fst_conv)
  ultimately show "h_translate H hw' root va = Some pa"
    using laws sp assms(3) by (cases sz) (simp_all add: paging_laws_def walk_def)
  show "n \<le> max_new_tables sz" using walk_bound [OF laws sp sym [OF assms(4)]] .
qed

lemma find_position_unique:
  assumes "i < length xs" and "P (xs ! i)" and "\<And>j. j < length xs \<Longrightarrow> j \<noteq> i \<Longrightarrow> \<not> P (xs ! j)"
  shows "find_position P 0 xs = Some i"
proof (cases "find_position P 0 xs")
  case None
  with assms(1,2) show ?thesis by (auto simp: find_position_None)
next
  case (Some k)
  from find_position_Some [OF this] have "k < length xs" and "P (xs ! k)" by simp_all
  with assms(3) have "k = i" by blast
  with Some show ?thesis by simp
qed

lemma resolve_vspace_cong:
  "ks_tcbs s' = ks_tcbs s \<Longrightarrow> ks_cnodes s' = ks_cnodes s \<Longrightarrow> resolve_vspace s' t p = resolve_vspace s t p"
  using lookup_cap_cong [of s' s t p] by (simp add: resolve_vspace_def)

text \<open>\<open>Unmap\<close>: the first mapping of the named VSpace goes, and nothing else.\<close>

lemma frame_unmap_found:
  assumes vid: "resolve_vspace s c (h_mr H f 1) = Inr vid"
    and fr: "pool_get (ks_frames s) (frame_ix fid) = Some fr"
    and v: "pool_get (ks_vspaces s) (vspace_ix vid) = Some v"
    and i: "find_position (maps_vspace vid) 0 (fr_mapped_at fr) = Some i" and va: "fr_mapped_at fr ! i = Some (vid, va)"
  shows "frame_unmap H s c fid f
     = Ok (s\<lparr>ks_hw := h_unmap H (ks_hw s) (vs_root v) va,
             ks_frames := pool_modify (ks_frames s) (frame_ix fid)
               (\<lambda>f. f\<lparr>fr_mapped_at := (fr_mapped_at f)[i := None]\<rparr>)\<rparr>) f"
  using assms by (simp add: frame_unmap_def)

lemma frame_unmap_absent:
  assumes "resolve_vspace s c (h_mr H f 1) = Inr vid"
    and "pool_get (ks_frames s) (frame_ix fid) = Some fr"
    and "\<forall>m\<in>set (fr_mapped_at fr). \<not> maps_vspace vid m"
  shows "frame_unmap H s c fid f = Ok s f"
proof -
  have "find_position (maps_vspace vid) 0 (fr_mapped_at fr) = None"
    using assms(3) by (simp add: find_position_None)
  with assms(1,2) show ?thesis by (simp add: frame_unmap_def)
qed

lemma mappedE:
  assumes m: "mapped H s c fid f s1"
    and vid: "resolve_vspace s c (h_mr H f 1) = Inr vid" and fr: "pool_get (ks_frames s) (frame_ix fid) = Some fr"
  obtains v i k hw n sp where "pool_get (ks_vspaces s) (vspace_ix vid) = Some v"
    and "i < length (fr_mapped_at fr)" and "fr_mapped_at fr ! i = None"
    and "h_mr H f 2 mod frame_size_bytes H (fr_size fr) = 0"
    and "h_translate H (ks_hw s) (vs_root v) (h_mr H f 2) = None"
    and "(hw, n) = walk H (fr_size fr) (ks_hw s) (vs_root v) (h_mr H f 2) (fr_paddr fr) (to_pte_flags H (h_mr H f 3)) sp" and "length sp = 2"
    and "n \<le> max_new_tables (fr_size fr)" and "kpt_used k = kpt_used (ks_page_tables s) + n"
    and "s1 = s\<lparr>ks_hw := hw, ks_page_tables := k,
              ks_frames := pool_modify (ks_frames s) (frame_ix fid)
                (\<lambda>f'. f'\<lparr>fr_mapped_at := (fr_mapped_at f')[i := Some (vid, h_mr H f 2)]\<rparr>)\<rparr>"
  using m unfolding mapped_def
proof (elim exE conjE)
  fix vid' v fr' i k hw n sp
  assume "resolve_vspace s c (h_mr H f 1) = Inr vid'" and "pool_get (ks_frames s) (frame_ix fid) = Some fr'"
  with vid fr have "vid' = vid" and "fr' = fr" by simp_all
  moreover assume "pool_get (ks_vspaces s) (vspace_ix vid') = Some v" "i < length (fr_mapped_at fr')"
    "fr_mapped_at fr' ! i = None" "h_mr H f 2 mod frame_size_bytes H (fr_size fr') = 0"
    "h_translate H (ks_hw s) (vs_root v) (h_mr H f 2) = None"
    "(hw, n) = walk H (fr_size fr') (ks_hw s) (vs_root v) (h_mr H f 2) (fr_paddr fr') (to_pte_flags H (h_mr H f 3)) sp" "length sp = 2"
    "n \<le> max_new_tables (fr_size fr')" "kpt_used k = kpt_used (ks_page_tables s) + n"
    "s1 = s\<lparr>ks_hw := hw, ks_page_tables := k,
              ks_frames := pool_modify (ks_frames s) (frame_ix fid)
                (\<lambda>f'. f'\<lparr>fr_mapped_at := (fr_mapped_at f')[i := Some (vid', h_mr H f 2)]\<rparr>)\<rparr>"
  ultimately show thesis by (intro that [of v i hw n sp k]) simp_all
qed

text \<open>Mapping and then unmapping in the same VSpace gives the frame's record back.\<close>

lemma map_unmap:
  assumes laws: "paging_laws H" and m: "mapped H s c fid f s1"
    and vid: "resolve_vspace s c (h_mr H f 1) = Inr vid" and fr: "pool_get (ks_frames s) (frame_ix fid) = Some fr"
    and new: "\<forall>m\<in>set (fr_mapped_at fr). \<not> maps_vspace vid m" and g: "h_mr H g 1 = h_mr H f 1"
  shows "\<exists>s2 v. frame_unmap H s1 c fid g = Ok s2 g \<and> pool_get (ks_vspaces s) (vspace_ix vid) = Some v
     \<and> h_translate H (ks_hw s1) (vs_root v) (h_mr H f 2) = Some (fr_paddr fr)
     \<and> h_translate H (ks_hw s2) (vs_root v) (h_mr H f 2) = None
     \<and> (\<forall>k. pool_get (ks_frames s2) k = pool_get (ks_frames s) k)"
proof -
  obtain v i k hw n sp where v: "pool_get (ks_vspaces s) (vspace_ix vid) = Some v"
    and i: "i < length (fr_mapped_at fr)" "fr_mapped_at fr ! i = None"
    and al: "h_mr H f 2 mod frame_size_bytes H (fr_size fr) = 0"
    and un: "h_translate H (ks_hw s) (vs_root v) (h_mr H f 2) = None"
    and w: "(hw, n) = walk H (fr_size fr) (ks_hw s) (vs_root v) (h_mr H f 2) (fr_paddr fr) (to_pte_flags H (h_mr H f 3)) sp" "length sp = 2"
    and s1: "s1 = s\<lparr>ks_hw := hw, ks_page_tables := k,
              ks_frames := pool_modify (ks_frames s) (frame_ix fid)
                (\<lambda>f'. f'\<lparr>fr_mapped_at := (fr_mapped_at f')[i := Some (vid, h_mr H f 2)]\<rparr>)\<rparr>"
    by (rule mappedE [OF m vid fr])
  let ?fr = "fr\<lparr>fr_mapped_at := (fr_mapped_at fr)[i := Some (vid, h_mr H f 2)]\<rparr>"
  have vid1: "resolve_vspace s1 c (h_mr H g 1) = Inr vid"
    using vid g resolve_vspace_cong [of s1 s c] by (simp add: s1)
  have fr1: "pool_get (ks_frames s1) (frame_ix fid) = Some ?fr" and v1: "pool_get (ks_vspaces s1) (vspace_ix vid) = Some v"
    using fr v by (simp_all add: s1)
  have "\<not> maps_vspace vid (fr_mapped_at fr ! j)" if "j < length (fr_mapped_at fr)" for j
    using new that by auto
  with i have "find_position (maps_vspace vid) 0 (fr_mapped_at ?fr) = Some i"
    by (intro find_position_unique) (auto simp: maps_vspace_Some nth_list_update)
  from frame_unmap_found [OF vid1 fr1 v1 this] i
  have un1: "frame_unmap H s1 c fid g = Ok (s1\<lparr>ks_hw := h_unmap H (ks_hw s1) (vs_root v) (h_mr H f 2),
             ks_frames := pool_modify (ks_frames s1) (frame_ix fid)
               (\<lambda>f. f\<lparr>fr_mapped_at := (fr_mapped_at f)[i := None]\<rparr>)\<rparr>) g" (is "_ = Ok ?s2 g") by simp
  have "h_translate H (ks_hw s1) (vs_root v) (h_mr H f 2) = Some (fr_paddr fr)"
    using walk_translates(1) [OF laws al un w] by (simp add: s1)
  moreover have "h_translate H (ks_hw ?s2) (vs_root v) (h_mr H f 2) = None"
    using laws by (simp add: paging_laws_def)
  moreover have "(fr_mapped_at fr)[i := None] = fr_mapped_at fr" using i by (metis list_update_id)
  then have "pool_get (ks_frames ?s2) j = pool_get (ks_frames s) j" for j
    using fr by (cases "j = frame_ix fid") (auto simp: s1)
  ultimately show ?thesis using un1 v by blast
qed

section \<open>Memory a failed call keeps\<close>

lemma vspace_retype_leaks:
  assumes laws: "paging_laws H" and k: "kpt_wf (ks_page_tables s)" "kpt_used (ks_page_tables s) < 32"
    and full: "pool_alloc (ks_vspaces s) = (\<lambda>_. None)"
    and cap: "lookup_cap s c p = Inr (UntypedCap uid r)" "contains r rights_WRITE"
    and mr: "h_mr H f 1 = 6"
    and u: "pool_get (ks_untypeds s) (untyped_ix uid) = Some u" "ut_remaining u \<noteq> 0"
    and dest: "Option.bind (get_tcb s c) tcb_cspace = Some i" "slot_cap s i (h_mr H f 2) = Some Null"
  shows "\<exists>s'. untyped_retype H s c p f = Err NotEnoughMemory s' f
     \<and> kpt_used (ks_page_tables s') = Suc (kpt_used (ks_page_tables s)) \<and> s' = s\<lparr>ks_page_tables := ks_page_tables s'\<rparr>"
proof -
  from kpt_alloc_None [OF laws k(1)] k(2) obtain root k' where al: "kpt_alloc H (ks_page_tables s) = Some (root, k')"
    by fastforce
  have ot: "object_type_from_usize (h_mr H f 1) = Some OT_VSpace" using mr by (simp add: object_type_from_usize_def)
  have "retype_object H s uid OT_VSpace = Some (Inl NotEnoughMemory, s\<lparr>ks_page_tables := k'\<rparr>)"
    using al full by (simp add: retype_object_def)
  then have "untyped_retype H s c p f = Err NotEnoughMemory (s\<lparr>ks_page_tables := k'\<rparr>) f"
    using cap ot u dest by (auto simp del: One_nat_def simp: untyped_retype_def slot_cap_def bind_eq_Some_conv)
  with kpt_alloc_Some(6) [OF laws k(1) al] show ?thesis by auto
qed

section \<open>Physical memory of Frames\<close>

lemma frame_bump:
  assumes laws: "paging_laws H" and wf: "ut_wf u"
  shows "untyped_bump u (frame_size_bytes H sz) (frame_size_bytes H sz)
     = Some (case untyped_frame_alloc u sz of Some (a, u') \<Rightarrow> (Some a, u') | None \<Rightarrow> (None, u))"
proof -
  have "untyped_bump u (2 ^ frame_size_log sz) (2 ^ frame_size_log sz) \<noteq> None"
    using wf frame_size_log_le by (rule untyped_bump_no_panic)
  then obtain r u' where b: "untyped_bump u (2 ^ frame_size_log sz) (2 ^ frame_size_log sz) = Some (r, u')" by auto
  with untyped_bump_fields(2) [OF b] show ?thesis
    by (cases r) (simp_all add: frame_size_bytes_log [OF laws] untyped_frame_alloc_def)
qed

lemma retype_frame_memory:
  assumes laws: "paging_laws H" and wf: "state_wf s"
    and u: "pool_get (ks_untypeds s) (untyped_ix uid) = Some u"
    and sz: "ot = OT_FrameSmall \<and> sz = Small \<or> ot = OT_FrameMega \<and> sz = Mega"
    and ok: "retype_object H s uid ot = Some (Inr cap, s')"
  shows "\<exists>fid a u'. cap = FrameCap fid rights_ALL \<and> untyped_frame_alloc u sz = Some (a, u')
     \<and> pool_get (ks_untypeds s') (untyped_ix uid) = Some u'
     \<and> pool_get (ks_frames s') (frame_ix fid)
         = Some \<lparr>fr_paddr = a, fr_size = sz, fr_mapped_at = replicate MAX_FRAME_MAPPINGS None\<rparr>"
proof -
  have uw: "ut_wf u" using wf_objects(4) [OF wf u] .
  have fw: "pool_wf MAX_FRAMES (ks_frames s)" using wf by (rule pool_sizes)
  note B = frame_bump [OF laws uw, of sz]
  show ?thesis
  proof (cases "untyped_frame_alloc u sz")
    case None
    with B u ok sz show ?thesis by (auto simp: retype_object_def Let_def)
  next
    case (Some p)
    obtain a u' where p: "p = (a, u')" by (cases p)
    let ?fr = "\<lparr>fr_paddr = a, fr_size = sz, fr_mapped_at = replicate MAX_FRAME_MAPPINGS None\<rparr>"
    from B Some p u ok sz obtain idx q where al: "pool_alloc (ks_frames s) ?fr = Some (idx, q)"
      and cap: "cap = FrameCap (FrameId (of_nat idx)) rights_ALL"
      and s': "s' = s\<lparr>ks_untypeds := pool_modify (ks_untypeds s) (untyped_ix uid) (\<lambda>_. u'), ks_frames := q\<rparr>"
      by (auto simp: retype_object_def Let_def split: option.splits prod.splits)
    have "pool_get q (frame_ix (FrameId (of_nat idx))) = Some ?fr"
      using pool_alloc_ids(3) [OF fw al, of "of_nat idx"] by (simp add: MAX_FRAMES_def)
    with Some p cap s' u show ?thesis by auto
  qed
qed

end
