(* ===== verification/FrameMemory.thy ===== *)
theory FrameMemory
  imports Memory
begin

text \<open>
  Physical memory over whole traps: no two Frames overlap, no Frame reaches into memory an
  Untyped can still hand out, and no two Untypeds share free memory. Only a retype to a Frame
  touches any of this, and it takes the Frame's bytes from the free memory of one Untyped.
\<close>

section \<open>Spans\<close>

definition frame_span :: "('b, 'h) kernel_state \<Rightarrow> frame_id \<Rightarrow> (nat \<times> nat) option" where
  "frame_span s i = map_option (\<lambda>f. (unat (fr_paddr f), unat (fr_paddr f) + 2 ^ frame_size_log (fr_size f)))
     (pool_get (ks_frames s) (frame_ix i))"

definition free_span :: "('b, 'h) kernel_state \<Rightarrow> untyped_id \<Rightarrow> (nat \<times> nat) option" where
  "free_span s i = map_option (\<lambda>u. (ut_cursor u, ut_limit u)) (pool_get (ks_untypeds s) (untyped_ix i))"

definition apart :: "nat \<times> nat \<Rightarrow> nat \<times> nat \<Rightarrow> bool" where
  "apart a b \<longleftrightarrow> snd a \<le> fst b \<or> snd b \<le> fst a"

definition memory_ok :: "('b, 'h) kernel_state \<Rightarrow> bool" where
  "memory_ok s \<longleftrightarrow>
     (\<forall>i j a b. i \<noteq> j \<longrightarrow> frame_span s i = Some a \<longrightarrow> frame_span s j = Some b \<longrightarrow> apart a b)
   \<and> (\<forall>i u a b. frame_span s i = Some a \<longrightarrow> free_span s u = Some b \<longrightarrow> apart a b)
   \<and> (\<forall>u v a b. u \<noteq> v \<longrightarrow> free_span s u = Some a \<longrightarrow> free_span s v = Some b \<longrightarrow> apart a b)"

text \<open>
  A step of memory: nothing, or one Untyped's cursor moves up; the bytes it leaves behind may
  become one new Frame.
\<close>

definition memory_step :: "('b, 'h) kernel_state \<Rightarrow> ('b, 'h) kernel_state \<Rightarrow> bool" where
  "memory_step s s' \<longleftrightarrow>
     (frame_span s' = frame_span s \<and> free_span s' = free_span s)
   \<or> (\<exists>u lo lo' hi. free_span s u = Some (lo, hi) \<and> lo \<le> lo' \<and> lo' \<le> hi
        \<and> free_span s' = (free_span s)(u \<mapsto> (lo', hi))
        \<and> (frame_span s' = frame_span s
           \<or> (\<exists>i a. frame_span s i = None \<and> lo \<le> a \<and> frame_span s' = (frame_span s)(i \<mapsto> (a, lo')))))"

lemma memory_step_ok:
  assumes ok: "memory_ok s" and step: "memory_step s s'"
  shows "memory_ok s'"
  using step unfolding memory_step_def
proof
  assume "frame_span s' = frame_span s \<and> free_span s' = free_span s"
  with ok show ?thesis by (simp add: memory_ok_def)
next
  note ff = ok [unfolded memory_ok_def, THEN conjunct1] and fu = ok [unfolded memory_ok_def, THEN conjunct2, THEN conjunct1]
    and uu = ok [unfolded memory_ok_def, THEN conjunct2, THEN conjunct2]
  assume "\<exists>u lo lo' hi. free_span s u = Some (lo, hi) \<and> lo \<le> lo' \<and> lo' \<le> hi
        \<and> free_span s' = (free_span s)(u \<mapsto> (lo', hi))
        \<and> (frame_span s' = frame_span s
           \<or> (\<exists>i a. frame_span s i = None \<and> lo \<le> a \<and> frame_span s' = (frame_span s)(i \<mapsto> (a, lo'))))"
  then obtain u lo lo' hi where u: "free_span s u = Some (lo, hi)" "lo \<le> lo'" "lo' \<le> hi"
    and free: "free_span s' = (free_span s)(u \<mapsto> (lo', hi))"
    and frames: "frame_span s' = frame_span s
      \<or> (\<exists>i a. frame_span s i = None \<and> lo \<le> a \<and> frame_span s' = (frame_span s)(i \<mapsto> (a, lo')))" by blast
  have shrink: "apart a (lo', hi)" if "apart a (lo, hi)" for a using that u(2) by (auto simp: apart_def)
  have shrink': "apart (lo', hi) a" if "apart (lo, hi) a" for a using that u(2) by (auto simp: apart_def)
  have inside: "apart (b, lo') a" "apart a (b, lo')" if "apart a (lo, hi)" "lo \<le> b" for a b
    using that u(3) by (auto simp: apart_def)
  have uu': "\<forall>v w a b. v \<noteq> w \<longrightarrow> free_span s' v = Some a \<longrightarrow> free_span s' w = Some b \<longrightarrow> apart a b"
    unfolding free using uu u(1) shrink shrink' by auto
  from frames show ?thesis
  proof
    assume same: "frame_span s' = frame_span s"
    then have "\<forall>i v a b. frame_span s' i = Some a \<longrightarrow> free_span s' v = Some b \<longrightarrow> apart a b"
      unfolding free using fu u(1) shrink by auto
    with same ff uu' show ?thesis by (simp add: memory_ok_def)
  next
    assume "\<exists>i a. frame_span s i = None \<and> lo \<le> a \<and> frame_span s' = (frame_span s)(i \<mapsto> (a, lo'))"
    then obtain k b where k: "lo \<le> b" and new: "frame_span s' = (frame_span s)(k \<mapsto> (b, lo'))" by blast
    have "\<forall>i j x y. i \<noteq> j \<longrightarrow> frame_span s' i = Some x \<longrightarrow> frame_span s' j = Some y \<longrightarrow> apart x y"
      unfolding new using ff fu u(1) inside k by auto
    moreover have "apart (b, lo') y" if "free_span s' v = Some y" for v y
    proof (cases "v = u")
      case True
      with that have "y = (lo', hi)" by (simp add: free)
      then show ?thesis by (simp add: apart_def)
    next
      case False
      with that have "free_span s v = Some y" by (simp add: free)
      with uu u(1) False have "apart y (lo, hi)" by blast
      then show ?thesis using k by (rule inside)
    qed
    then have "\<forall>i v x y. frame_span s' i = Some x \<longrightarrow> free_span s' v = Some y \<longrightarrow> apart x y"
      unfolding new using fu u(1) shrink by (auto simp: free)
    ultimately show ?thesis using uu' by (simp add: memory_ok_def)
  qed
qed

section \<open>Operations that leave memory alone\<close>

text \<open>The objects in the pools other than the Untypeds.\<close>

definition objects :: "('b, 'h) kernel_state \<Rightarrow> nat" where
  "objects s = pool_len (ks_cnodes s) + pool_len (ks_tcbs s) + pool_len (ks_endpoints s)
     + pool_len (ks_notifications s) + pool_len (ks_sched_contexts s) + pool_len (ks_vspaces s)
     + pool_len (ks_frames s)"

lemma pool_len_modify [simp]: "pool_len (pool_modify p i f) = pool_len p"
  by (simp add: pool_modify_def split: option.split)

definition memory_same :: "('b, 'h) kernel_state \<Rightarrow> ('b, 'h) kernel_state \<Rightarrow> bool" where
  "memory_same s s' \<longleftrightarrow> ks_untypeds s' = ks_untypeds s \<and> ks_frames s' = ks_frames s \<and> objects s' = objects s"

lemma memory_same_refl [simp]: "memory_same s s"
  by (simp add: memory_same_def)

lemma memory_same_step: "memory_same s s' \<Longrightarrow> memory_step s s'"
  by (simp add: memory_same_def memory_step_def frame_span_def free_span_def fun_eq_iff)

lemma memory_same_primitives [simp]:
  "memory_same s0 (update_tcb s t g) = memory_same s0 s"
  "memory_same s0 (set_current s x) = memory_same s0 s"
  "memory_same s0 (push_ready s t) = memory_same s0 s"
  "memory_same s0 (set_endpoint_queue s e q) = memory_same s0 s"
  "memory_same s0 (update_notification s n h) = memory_same s0 s"
  "memory_same s0 (write_slot s i j cap) = memory_same s0 s"
  "memory_same s0 (s\<lparr>ks_hw := hw\<rparr>) = memory_same s0 s"
  "memory_same s0 (s\<lparr>ks_scheduler := sc\<rparr>) = memory_same s0 s"
  "memory_same s0 (s\<lparr>ks_cnodes := pool_modify (ks_cnodes s) k g'\<rparr>) = memory_same s0 s"
  by (simp_all add: memory_same_def objects_def update_tcb_def set_current_def push_ready_def set_endpoint_queue_def
      update_notification_def write_slot_def)

lemma memory_same_composed [simp]:
  "memory_same s0 (set_thread_state s t x) = memory_same s0 s"
  "memory_same s0 (deliver_payload s t b m1 m2 m3 tg) = memory_same s0 s"
  "memory_same s0 (save_current H s f) = memory_same s0 s"
  "memory_same s0 (make_ready s t) = memory_same s0 s"
  by (simp_all add: set_thread_state_def deliver_payload_def save_current_def make_ready_def split: option.split)

lemma memory_same_resume [simp]: "memory_same s0 (fst (resume H s f n)) = memory_same s0 s"
  by (simp add: resume_def Let_def split: option.split)

lemma memory_same_switch: "switch_to H s f n = (s', f') \<Longrightarrow> memory_same s0 s' = memory_same s0 s"
  using memory_same_resume [of s0 H "save_current H s f" f n] by (simp add: switch_to_def)

lemma memory_same_block: "block_current H s f = Some (g, s', f') \<Longrightarrow> memory_same s0 s' = memory_same s0 s"
proof (cases "has_ready s")
  case True
  assume "block_current H s f = Some (g, s', f')"
  then obtain n q where "resume H (set_current (save_current H s f) None
      \<lparr>ks_scheduler := ks_scheduler (set_current (save_current H s f) None)\<lparr>sch_ready := q\<rparr>\<rparr>) f n = (s', f')"
    using True by (auto simp: block_current_def Let_def split: option.splits prod.splits)
  from arg_cong [OF this, of fst] show ?thesis by (metis fst_conv memory_same_composed(3) memory_same_primitives(2,8) memory_same_resume)
qed (simp add: block_current_def)

lemma memory_same_offer: "offer_cap s t d x = Inr s1 \<Longrightarrow> memory_same s0 s1 = memory_same s0 s"
  by (erule offer_cap_Inr) simp_all

text \<open>Both ways a handler returns.\<close>

definition on_return :: "('s \<Rightarrow> bool) \<Rightarrow> ('s, 'f) outcome \<Rightarrow> bool" where
  "on_return Q r \<longleftrightarrow> (case r of Ok s f \<Rightarrow> Q s | Err e s f \<Rightarrow> Q s | Panic \<Rightarrow> True)"

lemma on_return_simps [simp]: "on_return Q (Ok s f) = Q s" "on_return Q (Err e s f) = Q s" "on_return Q Panic"
  by (simp_all add: on_return_def)

lemma on_return_mono: "on_return P r \<Longrightarrow> (\<And>s. P s \<Longrightarrow> Q s) \<Longrightarrow> on_return Q r"
  by (cases r) auto

lemmas peel_on_return = peel [where P = "on_return Q" for Q] peel_capability [where P = "on_return Q" for Q]

lemma on_return_reply:
  "on_return Q r \<Longrightarrow> on_return Q (case r of Ok s f \<Rightarrow> Ok s (g f) | Err e s f \<Rightarrow> Err e s f | Panic \<Rightarrow> Panic)"
  by (cases r) auto

lemma block_on_endpoint_memory: "on_return (memory_same s) (block_on_endpoint H s f c e side q x)"
  unfolding block_on_endpoint_def Let_def
  by (intro peel_on_return) (auto split: option.split bool.split simp: memory_same_block)

lemma ipc_memory:
  "on_return (memory_same s) (send H s c p f nb)"
  "on_return (memory_same s) (recv H s c p f)"
  "on_return (memory_same s) (call H s c p f)"
  "on_return (memory_same s) (reply H s c f)"
  unfolding send_def recv_def call_def reply_def Let_def
  by (intro peel_on_return;
      auto simp: block_on_endpoint_memory memory_same_offer memory_same_switch)+

lemma other_memory:
  "on_return (memory_same s) (signal H s c p f)"
  "on_return (memory_same s) (poll H s c p f)"
  "on_return (memory_same s) (cnode_invoke H s c p f)"
  "on_return (memory_same s) (configure H s c p f)"
  unfolding signal_def poll_def cnode_invoke_def configure_def Let_def
  by (intro peel_on_return;
      auto split: if_splits elim!: mint_Inr copy_Inr move_cap_Inr delete_Inr copy_cross_Inr)+

lemma blocking_memory:
  "on_return (memory_same s) (wait H s c p f)"
  "on_return (memory_same s) (yield_now H s c f)"
  unfolding wait_def yield_now_def Let_def
  by (intro peel_on_return; auto split: option.split bool.split simp: memory_same_block)+

section \<open>Frames and retypes\<close>

lemma mapping_memory: "on_return (memory_step s) (frame_invoke H s c p f)"
proof -
  have keep: "memory_step s (s\<lparr>ks_hw := hw, ks_page_tables := k, ks_frames :=
      pool_modify (ks_frames s) i (\<lambda>f. f\<lparr>fr_mapped_at := (fr_mapped_at f)[j := m]\<rparr>)\<rparr>)"
    "memory_step s (s\<lparr>ks_hw := hw, ks_frames :=
      pool_modify (ks_frames s) i (\<lambda>f. f\<lparr>fr_mapped_at := (fr_mapped_at f)[j := m]\<rparr>)\<rparr>)"
    "memory_step s (s\<lparr>ks_page_tables := k\<rparr>)" "memory_step s s" for hw k i j m
    by (auto simp: memory_step_def frame_span_def free_span_def fun_eq_iff option.map_comp comp_def split: option.split)
  have "on_return (memory_step s) (frame_map H s c fid f)" for fid
    unfolding frame_map_def Let_def by (intro peel_on_return) (simp_all add: keep)
  moreover have "on_return (memory_step s) (frame_unmap H s c fid f)" for fid
    unfolding frame_unmap_def Let_def by (intro peel_on_return) (simp_all add: keep)
  ultimately show ?thesis
    unfolding frame_invoke_def Let_def by (intro peel_on_return on_return_reply) (simp_all add: keep)
qed

lemma retype_object_memory:
  assumes laws: "paging_laws H" and wf: "state_wf s" and u: "pool_get (ks_untypeds s) (untyped_ix uid) = Some u"
    and new: "retype_object H s uid ot = Some (r, s')"
  shows "memory_step s s'"
proof (cases "ot = OT_FrameSmall \<or> ot = OT_FrameMega")
  case False
  with new have "ks_untypeds s' = ks_untypeds s \<and> ks_frames s' = ks_frames s"
    by (auto simp: retype_object_def Let_def split: object_type.splits option.splits prod.splits)
  then show ?thesis by (simp add: memory_step_def frame_span_def free_span_def fun_eq_iff)
next
  case True
  define sz where "sz = (if ot = OT_FrameSmall then Small else Mega)"
  have uw: "ut_wf u" using wf_objects(4) [OF wf u] .
  note B = frame_bump [OF laws uw, of sz]
  show ?thesis
  proof (cases "untyped_frame_alloc u sz")
    case None
    with B u new True have "s' = s" by (auto simp: retype_object_def Let_def sz_def)
    then show ?thesis by (simp add: memory_same_step)
  next
    case (Some q)
    obtain a u' where q: "q = (a, u')" by (cases q)
    note C = ut.alloc_chunk [OF uw Some [unfolded q]]
    let ?s1 = "s\<lparr>ks_untypeds := pool_modify (ks_untypeds s) (untyped_ix uid) (\<lambda>_. u')\<rparr>"
    let ?fr = "\<lparr>fr_paddr = a, fr_size = sz, fr_mapped_at = replicate MAX_FRAME_MAPPINGS None\<rparr>"
    have cases: "s' = ?s1 \<or> (\<exists>idx p. pool_alloc (ks_frames s) ?fr = Some (idx, p) \<and> s' = ?s1\<lparr>ks_frames := p\<rparr>)"
      using B Some q u new True
      by (auto simp: retype_object_def Let_def sz_def split: option.splits prod.splits if_splits)
    have old: "free_span s uid = Some (ut_cursor u, ut_limit u)" using u by (simp add: free_span_def)
    have free1: "free_span ?s1 = (free_span s)(uid \<mapsto> (ut_cursor u', ut_limit u))"
      using u C by (auto simp: free_span_def fun_eq_iff)
    from cases show ?thesis
    proof
      assume "s' = ?s1"
      moreover have "frame_span ?s1 = frame_span s" by (simp add: frame_span_def fun_eq_iff)
      ultimately show ?thesis
        unfolding memory_step_def using old free1 C
        by (intro disjI2 exI [of _ uid] exI [of _ "ut_cursor u"] exI [of _ "ut_cursor u'"] exI [of _ "ut_limit u"]) auto
    next
      assume "\<exists>idx p. pool_alloc (ks_frames s) ?fr = Some (idx, p) \<and> s' = ?s1\<lparr>ks_frames := p\<rparr>"
      then obtain idx p where al: "pool_alloc (ks_frames s) ?fr = Some (idx, p)" and s': "s' = ?s1\<lparr>ks_frames := p\<rparr>" by blast
      have fw: "pool_wf MAX_FRAMES (ks_frames s)" using wf by (rule pool_sizes)
      let ?k = "FrameId (of_nat idx)"
      from pool_alloc_ids [OF fw al] have idx: "idx < 65536" and get: "pool_get p = (pool_get (ks_frames s))(idx := Some ?fr)"
        and none: "pool_get (ks_frames s) idx = None"
        using pool.alloc_Some [OF fw al] by (auto simp: MAX_FRAMES_def)
      have ix: "frame_ix i = idx \<longleftrightarrow> i = ?k" for i using idx by (cases i) (auto simp: unat_u16_iff)
      have "frame_span s' = (frame_span s)(?k \<mapsto> (unat a, ut_cursor u'))" and "frame_span s ?k = None"
        using C none ix unat_index [OF idx] by (auto simp: s' frame_span_def fun_eq_iff get sz_def)
      moreover have "free_span s' = free_span ?s1" by (simp add: s' free_span_def fun_eq_iff)
      ultimately show ?thesis
        unfolding memory_step_def using old free1 C
        by (intro disjI2 exI [of _ uid] exI [of _ "ut_cursor u"] exI [of _ "ut_cursor u'"] exI [of _ "ut_limit u"]) auto
    qed
  qed
qed

lemma memory_step_commit:
  assumes step: "memory_step s s1" and com: "retype_commit s1 i d u cap = Some s2"
  shows "memory_step s s2"
proof -
  have "frame_span s2 = frame_span s1"
    using com by (auto simp: retype_commit_def Let_def frame_span_def fun_eq_iff split: option.splits if_splits)
  moreover have "free_span s2 = free_span s1"
    using com by (auto simp: retype_commit_def Let_def free_span_def ut_cursor_def ut_limit_def fun_eq_iff option.map_comp comp_def
        split: option.splits if_splits)
  ultimately show ?thesis using step by (simp add: memory_step_def)
qed

lemma retype_memory:
  assumes "paging_laws H" and "state_wf s"
  shows "on_return (memory_step s) (untyped_retype H s c p f)"
  unfolding untyped_retype_def Let_def
  by (intro peel_on_return)
     (auto simp: memory_same_step intro: retype_object_memory [OF assms] memory_step_commit)

section \<open>Whole traps\<close>

lemma run_syscall_memory:
  assumes laws: "paging_laws H" and wf: "state_wf s"
  shows "on_return (memory_step s) (run_syscall H s c f n)"
proof -
  have same: "on_return (memory_same s) r \<Longrightarrow> on_return (memory_step s) r" for r :: "(('b word, 'c) kernel_state, 'a) outcome"
    by (erule on_return_mono) (rule memory_same_step)
  show ?thesis
    by (cases n) (simp_all add: run_syscall_def same ipc_memory other_memory blocking_memory mapping_memory retype_memory [OF laws wf])
qed

lemma dispatch_memory:
  assumes laws: "paging_laws H" and inv: "kernel_inv s" and d: "dispatch H s f = Some (s', f')"
  shows "memory_step s s'"
proof -
  have wf: "state_wf s" using inv by (simp add: kernel_inv_def)
  show ?thesis
  proof (cases "current_of s")
    case None
    with d show ?thesis by (simp add: dispatch_def memory_same_step)
  next
    case (Some c)
    show ?thesis
    proof (cases "syscall_from_usize (h_syscall_number H f)")
      case None
      with d Some show ?thesis by (simp add: dispatch_def memory_same_step)
    next
      case n: (Some n)
      from run_syscall_memory [OF laws wf, of c f n] d show ?thesis
        by (cases "run_syscall H s c f n") (auto simp: dispatch_run [OF Some n])
    qed
  qed
qed

lemma run_traps_memory:
  assumes laws: "frame_laws H" "paging_laws H" and "kernel_inv s" and "memory_ok s" and "run_traps H s fs = Some s'"
  shows "memory_ok s'"
  using assms(3-)
proof (induction fs arbitrary: s)
  case (Cons f fs)
  obtain s1 f1 where d: "dispatch H s f = Some (s1, f1)" "kernel_inv s1"
    using dispatch_inv [OF laws Cons.prems(1), of f] by blast
  from memory_step_ok [OF Cons.prems(2) dispatch_memory [OF laws(2) Cons.prems(1) d(1)]]
  show ?case using Cons.IH [OF d(2)] Cons.prems(3) d(1) by simp
qed simp

end
