(* ===== verification/Budget.thy ===== *)
theory Budget
  imports FrameMemory
begin

text \<open>
  What an \<open>Untyped\<close>'s budget buys. Every object in a pool other than the Untypeds was there at
  the start or paid for with one unit of a budget, and nothing is ever refunded: the number of
  objects and the budgets left add up to the same sum over any run.
\<close>

section \<open>Counting objects and budgets\<close>

definition slot_budget :: "untyped option \<Rightarrow> nat" where
  "slot_budget slot = (case slot of None \<Rightarrow> 0 | Some u \<Rightarrow> unat (ut_remaining u))"

definition pool_budget :: "untyped pool \<Rightarrow> nat" where
  "pool_budget p = sum_list (map slot_budget (pool_slots p))"

abbreviation budget_left :: "('b, 'h) kernel_state \<Rightarrow> nat" where
  "budget_left s \<equiv> pool_budget (ks_untypeds s)"

definition paid_step :: "('b, 'h) kernel_state \<Rightarrow> ('b, 'h) kernel_state \<Rightarrow> bool" where
  "paid_step s s' \<longleftrightarrow> objects s' + budget_left s' = objects s + budget_left s \<and> objects s \<le> objects s'"

lemma paid_step_refl [simp]: "paid_step s s"
  by (simp add: paid_step_def)

lemma paid_step_trans: "paid_step s s1 \<Longrightarrow> paid_step s1 s2 \<Longrightarrow> paid_step s s2"
  by (simp add: paid_step_def)

lemma pool_len_alloc: "pool_alloc p v = Some (i, p') \<Longrightarrow> pool_len p' = Suc (pool_len p)"
  by (auto simp: pool_alloc_def split: if_splits option.splits)

lemma sum_list_update_add:
  "i < length xs \<Longrightarrow> sum_list (map g (xs[i := x])) + g (xs ! i) = sum_list (map g xs) + (g x :: nat)"
proof (induction xs arbitrary: i)
  case (Cons a xs)
  from Cons.IH [of "i - 1"] Cons.prems show ?case by (cases i) auto
qed simp

lemma pool_budget_modify:
  assumes "pool_get p i = Some u"
  shows "pool_budget (pool_modify p i f) + unat (ut_remaining u) = pool_budget p + unat (ut_remaining (f u))"
proof -
  have "i < length (pool_slots p)" and "pool_slots p ! i = Some u"
    using assms by (auto simp: pool_get_def split: if_splits)
  with sum_list_update_add [of i "pool_slots p" slot_budget "Some (f u)"] assms show ?thesis
    by (simp add: pool_budget_def pool_modify_def slot_budget_def)
qed

section \<open>Operations that create nothing\<close>

lemma memory_same_paid: "memory_same s s' \<Longrightarrow> paid_step s s'"
  by (simp add: memory_same_def paid_step_def)

lemma frame_paid: "on_return (paid_step s) (frame_invoke H s c p f)"
proof -
  have keep: "paid_step s (s\<lparr>ks_hw := hw, ks_page_tables := k, ks_frames := pool_modify (ks_frames s) i g\<rparr>)"
    "paid_step s (s\<lparr>ks_hw := hw, ks_frames := pool_modify (ks_frames s) i g\<rparr>)"
    "paid_step s (s\<lparr>ks_page_tables := k\<rparr>)" for hw k i g
    by (simp_all add: paid_step_def objects_def)
  have "on_return (paid_step s) (frame_map H s c fid f)" for fid
    unfolding frame_map_def Let_def by (intro peel_on_return) (simp_all add: keep)
  moreover have "on_return (paid_step s) (frame_unmap H s c fid f)" for fid
    unfolding frame_unmap_def Let_def by (intro peel_on_return) (simp_all add: keep)
  ultimately show ?thesis
    unfolding frame_invoke_def Let_def by (intro peel_on_return on_return_reply) simp_all
qed

section \<open>Retypes\<close>

lemma untyped_bump_remaining: "untyped_bump u b a = Some (x, u') \<Longrightarrow> ut_remaining u' = ut_remaining u"
  by (auto simp: untyped_bump_def Let_def split: option.splits if_splits)

text \<open>An object is allocated when the retype succeeds, and none when it fails; no budget moves yet.\<close>

lemma retype_object_census:
  assumes "retype_object H s uid ot = Some (r, s')"
  shows "budget_left s' = budget_left s" and "objects s' = objects s + (case r of Inl e \<Rightarrow> 0 | Inr c \<Rightarrow> 1)"
proof -
  have same: "pool_budget (pool_modify p i (\<lambda>_. u')) = pool_budget p"
    if "pool_get p i = Some u" "untyped_bump u b a = Some (x, u')" for p i u u' x b a
    using pool_budget_modify [OF that(1), of "\<lambda>_. u'"] untyped_bump_remaining [OF that(2)] by simp
  show "budget_left s' = budget_left s"
    using assms by (auto simp: retype_object_def Let_def same split: object_type.splits option.splits prod.splits)
  show "objects s' = objects s + (case r of Inl e \<Rightarrow> 0 | Inr c \<Rightarrow> 1)"
    using assms by (auto simp: retype_object_def Let_def objects_def dest!: pool_len_alloc
        split: object_type.splits option.splits prod.splits)
qed

lemma retype_commit_census:
  assumes "retype_commit s i d uid cap = Some s'"
  shows "Suc (budget_left s') = budget_left s" and "objects s' = objects s"
proof -
  from assms obtain u where u: "pool_get (ks_untypeds s) (untyped_ix uid) = Some u" "ut_remaining u \<noteq> 0"
    and s': "s' = s\<lparr>ks_cnodes := pool_modify (ks_cnodes s) (cnode_ix i) (\<lambda>c. cnode_put c d cap),
       ks_untypeds := pool_modify (ks_untypeds s) (untyped_ix uid) (\<lambda>u. u\<lparr>ut_remaining := ut_remaining u - 1\<rparr>)\<rparr>"
    by (auto simp: retype_commit_def Let_def split: option.splits if_splits)
  show "objects s' = objects s" by (simp add: s' objects_def)
  have "0 < unat (ut_remaining u)" using u(2) by (simp add: unat_gt_0)
  with pool_budget_modify [OF u(1), of "\<lambda>u. u\<lparr>ut_remaining := ut_remaining u - 1\<rparr>"] u(2)
  show "Suc (budget_left s') = budget_left s" by (simp add: s' unat_minus_one)
qed

lemma retype_paid: "on_return (paid_step s) (untyped_retype H s c p f)"
proof -
  have fails: "paid_step s s'" if "retype_object H s uid ot = Some (Inl e, s')" for uid ot e s'
    using retype_object_census [OF that] by (simp add: paid_step_def)
  have works: "paid_step s s2"
    if "retype_object H s uid ot = Some (Inr cap, s1)" "retype_commit s1 i d uid cap = Some s2" for uid ot cap s1 i d s2
    using retype_object_census [OF that(1)] retype_commit_census [OF that(2)] by (simp add: paid_step_def)
  show ?thesis
    unfolding untyped_retype_def Let_def by (intro peel_on_return) (auto intro: fails works)
qed

section \<open>Whole traps\<close>

lemma run_syscall_paid: "on_return (paid_step s) (run_syscall H s c f n)"
proof -
  have same: "on_return (memory_same s) r \<Longrightarrow> on_return (paid_step s) r" for r
    by (erule on_return_mono) (rule memory_same_paid)
  show ?thesis
    by (cases n) (simp_all add: run_syscall_def same ipc_memory other_memory blocking_memory frame_paid retype_paid)
qed

lemma dispatch_paid: "dispatch H s f = Some (s', f') \<Longrightarrow> paid_step s s'"
proof (cases "current_of s")
  case None
  assume "dispatch H s f = Some (s', f')"
  with None show ?thesis by (simp add: dispatch_def)
next
  case (Some c)
  assume d: "dispatch H s f = Some (s', f')"
  show ?thesis
  proof (cases "syscall_from_usize (h_syscall_number H f)")
    case None
    with d Some show ?thesis by (simp add: dispatch_def)
  next
    case n: (Some n)
    from run_syscall_paid [of s H c f n] d show ?thesis
      by (cases "run_syscall H s c f n") (auto simp: dispatch_run [OF Some n])
  qed
qed

lemma run_traps_paid: "run_traps H s fs = Some s' \<Longrightarrow> paid_step s s'"
proof (induction fs arbitrary: s)
  case (Cons f fs)
  then show ?case by (auto split: option.splits prod.splits intro: paid_step_trans dispatch_paid)
qed simp

end
