(* ===== verification/Paging.thy ===== *)
theory Paging
  imports Budget Memory
begin

text \<open>
  Who may change translations. The page tables are the HAL's state \<open>ks_hw\<close>; the kernel changes
  it by activating the address space of the thread it switches to, and by \<open>FrameInvoke\<close>, whose
  caller must hold the Frame and the VSpace with the right to write.
\<close>

section \<open>The changes the kernel may make\<close>

definition activated ::
  "('f, 'b, 'h, 'p) hal \<Rightarrow> ('b, 'h) kernel_state \<Rightarrow> ('b, 'h) kernel_state \<Rightarrow> bool" where
  "activated H s s' \<longleftrightarrow> (\<exists>u x root. current_of s' = Some u \<and> get_tcb s' u = Some x
     \<and> tcb_address_space x = Some root \<and> ks_hw s' = h_activate H (ks_hw s) root)"

definition holds_mapping ::
  "('b, 'h) kernel_state \<Rightarrow> tcb_id \<Rightarrow> frame_id \<Rightarrow> vspace_id \<Rightarrow> bool" where
  "holds_mapping s c fid vid \<longleftrightarrow>
     (\<exists>p r. lookup_cap s c p = Inr (FrameCap fid r) \<and> contains r rights_WRITE)
   \<and> (\<exists>q r. lookup_cap s c q = Inr (VSpaceCap vid r) \<and> contains r rights_WRITE)"

definition maps_page ::
  "('f, 'b, 'h, 'p) hal \<Rightarrow> ('b, 'h) kernel_state \<Rightarrow> frame \<Rightarrow> vspace \<Rightarrow> usize \<Rightarrow> 'h \<Rightarrow> bool" where
  "maps_page H s fr v va hw \<longleftrightarrow>
     h_translate H (ks_hw s) (vs_root v) va = None \<and> frame_size_bytes H (fr_size fr) dvd va
   \<and> (\<exists>pages k flags n. take_spares H (max_new_tables (fr_size fr)) (ks_page_tables s) = (Inr pages, k)
        \<and> walk H (fr_size fr) (ks_hw s) (vs_root v) va (fr_paddr fr) flags
             (pages @ replicate (2 - length pages) 0) = (hw, n))"

definition remapped ::
  "('f, 'b, 'h, 'p) hal \<Rightarrow> ('b, 'h) kernel_state \<Rightarrow> tcb_id \<Rightarrow> ('b, 'h) kernel_state \<Rightarrow> bool" where
  "remapped H s c s' \<longleftrightarrow>
     (\<exists>fid vid fr v va. holds_mapping s c fid vid
        \<and> pool_get (ks_frames s) (frame_ix fid) = Some fr \<and> pool_get (ks_vspaces s) (vspace_ix vid) = Some v
        \<and> (maps_page H s fr v va (ks_hw s')
           \<or> Some (vid, va) \<in> set (fr_mapped_at fr) \<and> ks_hw s' = h_unmap H (ks_hw s) (vs_root v) va))"

definition hw_step ::
  "('f, 'b, 'h, 'p) hal \<Rightarrow> ('b, 'h) kernel_state \<Rightarrow> tcb_id \<Rightarrow> ('b, 'h) kernel_state \<Rightarrow> bool" where
  "hw_step H s c s' \<longleftrightarrow> ks_hw s' = ks_hw s \<or> activated H s s' \<or> remapped H s c s'"

lemma hw_step_same: "ks_hw s' = ks_hw s \<Longrightarrow> hw_step H s c s'"
  by (simp add: hw_step_def)

section \<open>Switching\<close>

lemma hw_fields [simp]:
  "ks_hw (save_current H s f) = ks_hw s"
  "ks_hw (make_ready s t) = ks_hw s"
  "ks_hw (set_thread_state s t x) = ks_hw s"
  "ks_hw (deliver_payload s t b m1 m2 m3 tg) = ks_hw s"
  by (simp_all add: save_current_def make_ready_def composite_defs split: option.split)

lemma resume_hw:
  assumes "ks_hw s1 = ks_hw s"
  shows "hw_step H s c (fst (resume H s1 f n))"
proof (cases "get_tcb s1 n")
  case None
  with assms show ?thesis by (simp add: resume_def hw_step_def)
next
  case (Some x)
  then have "get_tcb (fst (resume H s1 f n)) n = Some (x\<lparr>tcb_state := Running\<rparr>)"
    and "current_of (fst (resume H s1 f n)) = Some n"
    and "ks_hw (fst (resume H s1 f n)) = activate_if_paged H x (ks_hw s1)"
    by (simp_all add: resume_def Let_def set_current_def set_thread_state_def update_tcb_def)
  with assms show ?thesis
    by (cases "tcb_address_space x") (auto simp: hw_step_def activated_def activate_if_paged_def)
qed

lemma switch_hw: "switch_to H s1 f n = (s', f') \<Longrightarrow> ks_hw s1 = ks_hw s \<Longrightarrow> hw_step H s c s'"
  using resume_hw [of "save_current H s1 f" s H c f n] by (simp add: switch_to_def)

lemma block_hw:
  assumes "block_current H s1 f = Some (g, s', f')" and hw: "ks_hw s1 = ks_hw s"
  shows "hw_step H s c s'"
proof (cases "has_ready s1")
  case True
  then obtain s2 n where "resume H s2 f n = (s', f')" and "ks_hw s2 = ks_hw s1"
    using assms(1) by (auto simp: block_current_def Let_def split: option.splits prod.splits)
  with resume_hw [of s2 s H c f n] hw show ?thesis by simp
qed (use assms in \<open>simp add: block_current_def hw_step_def\<close>)

lemma offer_hw: "offer_cap s t d x = Inr s1 \<Longrightarrow> ks_hw s1 = ks_hw s"
  by (erule offer_cap_Inr) simp_all

section \<open>The handlers\<close>

lemma block_on_endpoint_hw: "on_return (hw_step H s c') (block_on_endpoint H s f c e side q x)"
  unfolding block_on_endpoint_def Let_def
  by (intro peel_on_return) (auto split: option.split bool.split simp: hw_step_same block_hw)

lemma ipc_hw:
  "on_return (hw_step H s c) (send H s c p f nb)"
  "on_return (hw_step H s c) (recv H s c p f)"
  "on_return (hw_step H s c) (call H s c p f)"
  "on_return (hw_step H s c) (reply H s c f)"
  unfolding send_def recv_def call_def reply_def Let_def
  by (intro peel_on_return;
      auto simp: block_on_endpoint_hw offer_hw hw_step_same switch_hw)+

lemma other_hw:
  "on_return (hw_step H s c) (signal H s c p f)"
  "on_return (hw_step H s c) (poll H s c p f)"
  "on_return (hw_step H s c) (cnode_invoke H s c p f)"
  "on_return (hw_step H s c) (configure H s c p f)"
  unfolding signal_def poll_def cnode_invoke_def configure_def Let_def
  by (intro peel_on_return;
      auto split: if_splits simp: hw_step_same elim!: mint_Inr copy_Inr move_cap_Inr delete_Inr copy_cross_Inr)+

lemma blocking_hw:
  "on_return (hw_step H s c) (wait H s c p f)"
  "on_return (hw_step H s c) (yield_now H s c f)"
  unfolding wait_def yield_now_def Let_def
  by (intro peel_on_return; auto split: option.split bool.split simp: hw_step_same block_hw)+

lemma retype_object_hw: "retype_object H s uid ot = Some (r, s') \<Longrightarrow> ks_hw s' = ks_hw s"
  by (auto simp: retype_object_def Let_def split: object_type.splits option.splits prod.splits)

lemma retype_commit_hw: "retype_commit s i d u cap = Some s' \<Longrightarrow> ks_hw s' = ks_hw s"
  by (auto simp: retype_commit_def Let_def split: option.splits if_splits)

lemma retype_hw: "on_return (hw_step H s c) (untyped_retype H s c p f)"
  unfolding untyped_retype_def Let_def
  by (intro peel_on_return) (auto simp: hw_step_same retype_object_hw retype_commit_hw)

text \<open>\<open>FrameInvoke\<close>: both capabilities were looked up in the caller's own CSpace.\<close>

lemma resolve_vspace_held:
  "resolve_vspace s c q = Inr vid \<Longrightarrow> \<exists>r. lookup_cap s c q = Inr (VSpaceCap vid r) \<and> contains r rights_WRITE"
  by (auto simp: resolve_vspace_def split: sum.splits capability.splits if_splits)

lemma mapping_hw:
  assumes p: "lookup_cap s c p = Inr (FrameCap fid r)" "contains r rights_WRITE"
    and q: "resolve_vspace s c q = Inr vid"
    and fr: "pool_get (ks_frames s) (frame_ix fid) = Some fr" and v: "pool_get (ks_vspaces s) (vspace_ix vid) = Some v"
  shows "maps_page H s fr v va (ks_hw s') \<Longrightarrow> hw_step H s c s'"
    and "Some (vid, va) \<in> set (fr_mapped_at fr) \<Longrightarrow> ks_hw s' = h_unmap H (ks_hw s) (vs_root v) va \<Longrightarrow> hw_step H s c s'"
proof -
  have "holds_mapping s c fid vid" using p resolve_vspace_held [OF q] by (auto simp: holds_mapping_def)
  with fr v show "maps_page H s fr v va (ks_hw s') \<Longrightarrow> hw_step H s c s'"
    and "Some (vid, va) \<in> set (fr_mapped_at fr) \<Longrightarrow> ks_hw s' = h_unmap H (ks_hw s) (vs_root v) va \<Longrightarrow> hw_step H s c s'"
    unfolding hw_step_def remapped_def by blast+
qed

lemma frame_map_hw:
  assumes p: "lookup_cap s c p = Inr (FrameCap fid r)" "contains r rights_WRITE"
  shows "on_return (hw_step H s c) (frame_map H s c fid f)"
  unfolding frame_map_def Let_def
proof (intro peel_on_return; (simp add: hw_step_same; fail)?, goal_cases)
  case (1 vid fr i v x k0 pages hw n k)
  from 1(9) have "walk H (fr_size fr) (ks_hw s) (vs_root v) (h_mr H f 2) (fr_paddr fr)
      (to_pte_flags H (h_mr H f 3)) (pages @ replicate (2 - length pages) 0) = (hw, n)" by (simp add: walk_def)
  with 1 have "maps_page H s fr v (h_mr H f 2) hw" by (auto simp: maps_page_def mod_eq_0_iff_dvd)
  with 1 show ?case by (auto intro!: mapping_hw(1) [OF p, of "h_mr H f 1" vid fr v H "h_mr H f 2"])
qed

lemma frame_unmap_hw:
  assumes p: "lookup_cap s c p = Inr (FrameCap fid r)" "contains r rights_WRITE"
  shows "on_return (hw_step H s c) (frame_unmap H s c fid f)"
  unfolding frame_unmap_def Let_def
proof (intro peel_on_return; (simp add: hw_step_same; fail)?, goal_cases)
  case (1 vid fr i m v0 va v)
  then have "Some (vid, va) \<in> set (fr_mapped_at fr)"
    using find_position_Some [of "maps_vspace vid" 0 "fr_mapped_at fr" i] nth_mem [of i "fr_mapped_at fr"]
    by (auto simp: maps_vspace_Some)
  with 1 show ?case by (auto intro!: mapping_hw(2) [OF p, of "h_mr H f 1" vid fr v])
qed

lemma frame_hw: "on_return (hw_step H s c) (frame_invoke H s c p f)"
  unfolding frame_invoke_def Let_def
  by (intro peel_on_return on_return_reply) (auto simp: hw_step_same frame_map_hw frame_unmap_hw)

section \<open>Whole traps\<close>

lemma run_syscall_hw: "on_return (hw_step H s c) (run_syscall H s c f n)"
  by (cases n) (simp_all add: run_syscall_def ipc_hw other_hw blocking_hw frame_hw retype_hw)

lemma dispatch_hw:
  assumes cur: "current_of s = Some c" and d: "dispatch H s f = Some (s', f')"
  shows "hw_step H s c s'"
proof (cases "syscall_from_usize (h_syscall_number H f)")
  case None
  with d cur show ?thesis by (simp add: dispatch_def hw_step_same)
next
  case n: (Some n)
  from run_syscall_hw [of H s c f n] d show ?thesis
    by (cases "run_syscall H s c f n") (auto simp: dispatch_run [OF cur n])
qed

end
