(* ===== verification/Typing.thy ===== *)
theory Typing
  imports Paging
begin

text \<open>
  The references of the state outside the capabilities: the scheduling context and the root page
  table of a thread, and the address spaces a Frame records. Ids are bare 16-bit indices, so
  nothing but the discipline of the handlers keeps them pointing at objects of the right pool.
\<close>

section \<open>Links\<close>

definition vspace_roots :: "('b, 'h) kernel_state \<Rightarrow> usize set" where
  "vspace_roots s = {vs_root v | v i. pool_get (ks_vspaces s) i = Some v}"

definition tcb_links_ok :: "('b, 'h) kernel_state \<Rightarrow> 'b tcb \<Rightarrow> bool" where
  "tcb_links_ok s x \<longleftrightarrow>
     (\<forall>sc. tcb_sched_context x = Some sc \<longrightarrow> object_exists s (RSchedContext sc))
   \<and> (\<forall>root. tcb_address_space x = Some root \<longrightarrow> root \<in> vspace_roots s)"

definition frame_links_ok :: "('b, 'h) kernel_state \<Rightarrow> frame \<Rightarrow> bool" where
  "frame_links_ok s fr \<longleftrightarrow> (\<forall>vid va. Some (vid, va) \<in> set (fr_mapped_at fr) \<longrightarrow> object_exists s (RVSpace vid))"

definition links_ok :: "('b, 'h) kernel_state \<Rightarrow> bool" where
  "links_ok s \<longleftrightarrow> (\<forall>t x. get_tcb s t = Some x \<longrightarrow> tcb_links_ok s x)
     \<and> (\<forall>i fr. pool_get (ks_frames s) i = Some fr \<longrightarrow> frame_links_ok s fr)"

lemma links_ok_cong:
  assumes "ks_frames s' = ks_frames s" and "ks_vspaces s' = ks_vspaces s" and "ks_sched_contexts s' = ks_sched_contexts s"
    and "\<And>t. map_option (\<lambda>x. (tcb_sched_context x, tcb_address_space x)) (get_tcb s' t)
           = map_option (\<lambda>x. (tcb_sched_context x, tcb_address_space x)) (get_tcb s t)"
  shows "links_ok s' = links_ok s"
proof -
  have frames: "frame_links_ok s' = frame_links_ok s"
    using assms(2) by (simp add: frame_links_ok_def fun_eq_iff)
  have tcbs: "(\<forall>x. get_tcb s' t = Some x \<longrightarrow> tcb_links_ok s' x) = (\<forall>x. get_tcb s t = Some x \<longrightarrow> tcb_links_ok s x)" for t
    using assms(2,3) assms(4) [of t]
    by (cases "get_tcb s t"; cases "get_tcb s' t") (auto simp: tcb_links_ok_def vspace_roots_def)
  show ?thesis unfolding links_ok_def frames assms(1) using tcbs by blast
qed

lemma links_ok_new: "links_ok (kernel_state_new base hw)"
  by (simp add: links_ok_def kernel_state_new_def pool_get_new)

section \<open>Operations that set no link\<close>

lemma links_ok_update_tcb:
  "(\<And>x. tcb_sched_context (f x) = tcb_sched_context x) \<Longrightarrow> (\<And>x. tcb_address_space (f x) = tcb_address_space x)
    \<Longrightarrow> links_ok (update_tcb s t f) = links_ok s"
  by (rule links_ok_cong) (simp_all add: option.map_comp comp_def)

lemma links_ok_primitives [simp]:
  "links_ok (set_current s y) = links_ok s"
  "links_ok (push_ready s t) = links_ok s"
  "links_ok (set_endpoint_queue s e q) = links_ok s"
  "links_ok (update_notification s n h) = links_ok s"
  "links_ok (write_slot s i j cap) = links_ok s"
  "links_ok (s\<lparr>ks_hw := hw\<rparr>) = links_ok s"
  "links_ok (s\<lparr>ks_scheduler := sc\<rparr>) = links_ok s"
  "links_ok (s\<lparr>ks_cnodes := p\<rparr>) = links_ok s"
  "links_ok (s\<lparr>ks_endpoints := ep\<rparr>) = links_ok s"
  "links_ok (s\<lparr>ks_notifications := np\<rparr>) = links_ok s"
  "links_ok (s\<lparr>ks_untypeds := q'\<rparr>) = links_ok s"
  "links_ok (s\<lparr>ks_page_tables := k\<rparr>) = links_ok s"
  by (rule links_ok_cong;
      simp add: set_current_def push_ready_def set_endpoint_queue_def update_notification_def write_slot_def)+

lemma links_ok_composed [simp]:
  "links_ok (set_thread_state s t y) = links_ok s"
  "links_ok (deliver_payload s t b m1 m2 m3 tg) = links_ok s"
  "links_ok (save_current H s f) = links_ok s"
  "links_ok (make_ready s t) = links_ok s"
  by (simp_all add: set_thread_state_def deliver_payload_def save_current_def make_ready_def links_ok_update_tcb
      split: option.split)

lemma links_ok_resume [simp]: "links_ok (fst (resume H s f n)) = links_ok s"
  by (simp add: resume_def Let_def links_ok_update_tcb split: option.split)

lemma links_ok_switch: "switch_to H s f n = (s', f') \<Longrightarrow> links_ok s' = links_ok s"
  using links_ok_resume [of H "save_current H s f" f n] by (simp add: switch_to_def)

lemma links_ok_block: "block_current H s f = Some (g, s', f') \<Longrightarrow> links_ok s' = links_ok s"
proof (cases "has_ready s")
  case True
  assume "block_current H s f = Some (g, s', f')"
  then obtain n s1 where "resume H s1 f n = (s', f')" and "links_ok s1 = links_ok s"
    using True by (auto simp: block_current_def Let_def split: option.splits prod.splits)
  then show ?thesis using links_ok_resume [of H s1 f n] by simp
qed (simp add: block_current_def)

lemma links_ok_offer: "offer_cap s t d x = Inr s1 \<Longrightarrow> links_ok s1 = links_ok s"
  by (erule offer_cap_Inr) (simp_all add: links_ok_update_tcb)

lemma block_on_endpoint_links: "links_ok s \<Longrightarrow> on_return links_ok (block_on_endpoint H s f c e side q x)"
  unfolding block_on_endpoint_def Let_def
  by (intro peel_on_return) (auto split: option.split bool.split simp: links_ok_block)

lemma ipc_links:
  assumes "links_ok s"
  shows "on_return links_ok (send H s c p f nb)" and "on_return links_ok (recv H s c p f)"
    and "on_return links_ok (call H s c p f)" and "on_return links_ok (reply H s c f)"
  unfolding send_def recv_def call_def reply_def Let_def
  by (insert assms; intro peel_on_return;
      auto simp: block_on_endpoint_links links_ok_offer links_ok_switch links_ok_update_tcb)+

lemma other_links:
  assumes "links_ok s"
  shows "on_return links_ok (signal H s c p f)" and "on_return links_ok (poll H s c p f)"
    and "on_return links_ok (cnode_invoke H s c p f)"
    and "on_return links_ok (wait H s c p f)" and "on_return links_ok (yield_now H s c f)"
  unfolding signal_def poll_def cnode_invoke_def wait_def yield_now_def Let_def
  by (insert assms; intro peel_on_return;
      auto split: if_splits option.split bool.split simp: links_ok_block links_ok_update_tcb
        elim!: mint_Inr copy_Inr move_cap_Inr delete_Inr copy_cross_Inr)+

section \<open>Configuring a thread\<close>

lemma lookup_exists:
  "no_dangling s \<Longrightarrow> lookup_cap s c p = Inr k \<Longrightarrow> cap_object k = Some r \<Longrightarrow> object_exists s r"
  using lookup_cap_mem [of s c p k] by (auto simp: no_dangling_def)

lemma resolve_address_space_root:
  "resolve_address_space s c q = Inr (Some root) \<Longrightarrow> root \<in> vspace_roots s"
  by (auto simp: resolve_address_space_def vspace_roots_def ok_or_def
      split: if_splits sum.splits capability.splits option.splits)

lemma update_tcb_links:
  assumes ok: "links_ok s" and new: "\<And>x. get_tcb s t = Some x \<Longrightarrow> tcb_links_ok s (f x)"
  shows "links_ok (update_tcb s t f)"
proof -
  have "tcb_links_ok (update_tcb s t f) = tcb_links_ok s" and "frame_links_ok (update_tcb s t f) = frame_links_ok s"
    by (simp_all add: fun_eq_iff tcb_links_ok_def frame_links_ok_def vspace_roots_def)
  with ok new show ?thesis by (auto simp: links_ok_def)
qed

lemma configure_links:
  assumes "links_ok s" and nd: "no_dangling s"
  shows "on_return links_ok (configure H s c p f)"
proof -
  have new: "tcb_links_ok s (x\<lparr>tcb_cspace := k, tcb_sched_context := Some sc, tcb_address_space := a\<rparr>)"
    if "lookup_cap s c q = Inr (SchedContextCap sc r)" "resolve_address_space s c q' = Inr a" for x k sc a q q' r
    using lookup_exists [OF nd that(1)] resolve_address_space_root [of s c q'] that(2)
    by (auto simp: tcb_links_ok_def)
  show ?thesis
    unfolding configure_def Let_def
    by (insert assms(1); intro peel_on_return) (auto intro!: update_tcb_links new)
qed

section \<open>Mapping Frames\<close>

lemma mapping_links:
  assumes ok: "links_ok s" and m: "\<And>vid va. m = Some (vid, va) \<Longrightarrow> object_exists s (RVSpace vid)"
  shows "links_ok (s\<lparr>ks_hw := hw, ks_page_tables := k, ks_frames :=
      pool_modify (ks_frames s) i (\<lambda>f. f\<lparr>fr_mapped_at := (fr_mapped_at f)[j := m]\<rparr>)\<rparr>)" (is "links_ok ?s'")
proof -
  have "tcb_links_ok ?s' = tcb_links_ok s" and frames: "frame_links_ok ?s' = frame_links_ok s"
    by (simp_all add: fun_eq_iff tcb_links_ok_def frame_links_ok_def vspace_roots_def)
  moreover have "frame_links_ok s (fr\<lparr>fr_mapped_at := (fr_mapped_at fr)[j := m]\<rparr>)" if "frame_links_ok s fr" for fr
    using that m set_update_subset_insert [of "fr_mapped_at fr" j m]
    by (fastforce simp: frame_links_ok_def simp del: object_exists.simps)
  ultimately show ?thesis using ok by (auto simp: links_ok_def)
qed

lemma frame_links:
  assumes ok: "links_ok s"
  shows "on_return links_ok (frame_invoke H s c p f)"
proof -
  have map: "on_return links_ok (frame_map H s c fid f)" for fid
    unfolding frame_map_def Let_def by (insert ok; intro peel_on_return) (auto intro!: mapping_links)
  have "links_ok (s\<lparr>ks_hw := hw, ks_frames :=
      pool_modify (ks_frames s) i (\<lambda>f. f\<lparr>fr_mapped_at := (fr_mapped_at f)[j := None]\<rparr>)\<rparr>)" for hw i j
    using mapping_links [OF ok, where m = None and hw = hw and k = "ks_page_tables s" and i = i and j = j] by simp
  with ok have "on_return links_ok (frame_unmap H s c fid f)" for fid
    unfolding frame_unmap_def Let_def by (intro peel_on_return) simp_all
  with ok map show ?thesis
    unfolding frame_invoke_def Let_def by (intro peel_on_return on_return_reply) simp_all
qed

section \<open>Retypes\<close>

lemma links_ok_more:
  assumes "links_ok s" and "ks_tcbs s' = ks_tcbs s" and "ks_frames s' = ks_frames s"
    and "\<And>i. pool_get (ks_sched_contexts s) i \<noteq> None \<Longrightarrow> pool_get (ks_sched_contexts s') i \<noteq> None"
    and "\<And>i v. pool_get (ks_vspaces s) i = Some v \<Longrightarrow> pool_get (ks_vspaces s') i = Some v"
  shows "links_ok s'"
proof -
  have "tcb_links_ok s' x" if "tcb_links_ok s x" for x
    using that assms(4,5) unfolding tcb_links_ok_def vspace_roots_def by (auto; blast)
  moreover have "frame_links_ok s' fr" if "frame_links_ok s fr" for fr
    using that assms(5) unfolding frame_links_ok_def by simp blast
  ultimately show ?thesis using assms(1-3) by (simp add: links_ok_def)
qed

lemma retype_object_links:
  assumes ok: "links_ok s" and wf: "state_wf s" and new: "retype_object H s uid ot = Some (r, s')"
  shows "links_ok s'"
proof -
  have tcb: "links_ok (s\<lparr>ks_tcbs := p\<rparr>)" if al: "pool_alloc (ks_tcbs s) (tcb_new H) = Some (k, p)" for k p
  proof -
    have "tcb_links_ok (s\<lparr>ks_tcbs := p\<rparr>) = tcb_links_ok s" and "frame_links_ok (s\<lparr>ks_tcbs := p\<rparr>) = frame_links_ok s"
      by (simp_all add: fun_eq_iff tcb_links_ok_def frame_links_ok_def vspace_roots_def)
    moreover have "tcb_links_ok s (tcb_new H)" by (simp add: tcb_links_ok_def tcb_new_def)
    ultimately show ?thesis using ok pool.alloc_Some [OF pool_sizes(2) [OF wf] al] by (simp add: links_ok_def)
  qed
  have frame: "links_ok (s\<lparr>ks_untypeds := u, ks_frames := p\<rparr>)"
    if al: "pool_alloc (ks_frames s) \<lparr>fr_paddr = a, fr_size = sz, fr_mapped_at = replicate n None\<rparr> = Some (k, p)" for u a sz n k p
  proof -
    let ?s' = "s\<lparr>ks_untypeds := u, ks_frames := p\<rparr>"
    have "tcb_links_ok ?s' = tcb_links_ok s" and "frame_links_ok ?s' = frame_links_ok s"
      by (simp_all add: fun_eq_iff tcb_links_ok_def frame_links_ok_def vspace_roots_def)
    then show ?thesis using ok pool.alloc_Some [OF pool_sizes(7) [OF wf] al] by (simp add: links_ok_def frame_links_ok_def)
  qed
  have sched: "links_ok (s\<lparr>ks_sched_contexts := p\<rparr>)" if al: "pool_alloc (ks_sched_contexts s) v = Some (k, p)" for v k p
    using ok by (rule links_ok_more) (auto dest: pool.alloc_stable [OF pool_sizes(5) [OF wf] al])
  have space: "links_ok (s\<lparr>ks_page_tables := t, ks_vspaces := p\<rparr>)" if al: "pool_alloc (ks_vspaces s) v = Some (k, p)" for t v k p
    using ok by (rule links_ok_more) (auto dest: pool.alloc_stable [OF pool_sizes(6) [OF wf] al])
  from new ok show ?thesis
    by (auto simp: retype_object_def Let_def tcb frame sched space split: object_type.splits option.splits prod.splits)
qed

lemma retype_commit_links: "retype_commit s i d u cap = Some s' \<Longrightarrow> links_ok s' = links_ok s"
  by (auto simp: retype_commit_def Let_def split: option.splits if_splits)

lemma retype_links:
  assumes "links_ok s" and "state_wf s"
  shows "on_return links_ok (untyped_retype H s c p f)"
  unfolding untyped_retype_def Let_def
  by (insert assms; intro peel_on_return) (auto simp: retype_commit_links intro: retype_object_links [OF assms])

section \<open>Whole traps\<close>

lemma run_syscall_links:
  assumes "links_ok s" and "kernel_inv s"
  shows "on_return links_ok (run_syscall H s c f n)"
  using assms
  by (cases n) (simp_all add: run_syscall_def kernel_inv_def ipc_links other_links configure_links frame_links retype_links)

lemma dispatch_links:
  assumes ok: "links_ok s" and inv: "kernel_inv s" and d: "dispatch H s f = Some (s', f')"
  shows "links_ok s'"
proof (cases "current_of s")
  case None
  with d ok show ?thesis by (simp add: dispatch_def)
next
  case (Some c)
  show ?thesis
  proof (cases "syscall_from_usize (h_syscall_number H f)")
    case None
    with d Some ok show ?thesis by (simp add: dispatch_def)
  next
    case n: (Some n)
    from run_syscall_links [OF ok inv, of H c f n] d show ?thesis
      by (cases "run_syscall H s c f n") (auto simp: dispatch_run [OF Some n])
  qed
qed

lemma run_traps_links:
  assumes laws: "frame_laws H" "paging_laws H" and "kernel_inv s" and "links_ok s" and "run_traps H s fs = Some s'"
  shows "kernel_inv s' \<and> links_ok s'"
  using assms(3-5)
proof (induction fs arbitrary: s)
  case (Cons f fs)
  then obtain s1 f1 where d: "dispatch H s f = Some (s1, f1)" and run: "run_traps H s1 fs = Some s'"
    by (auto split: option.splits prod.splits)
  from dispatch_inv [OF laws Cons.prems(1), of f] d have "kernel_inv s1" by auto
  from Cons.IH [OF this dispatch_links [OF Cons.prems(2,1) d] run] show ?case .
qed simp

end
