(* ===== verification/Integrity.thy ===== *)
theory Integrity
  imports Typing
begin

text \<open>
  Designation is authority: which objects a trap may change. \<open>may_touch\<close> reads from the state
  before the trap, from the caller's CSpace and from the threads that wait for it, the objects
  the caller may change; \<open>confined\<close> says that every other object is as it was.
\<close>

section \<open>What a thread may change\<close>

definition wields :: "('b, 'h) kernel_state \<Rightarrow> tcb_id \<Rightarrow> capability \<Rightarrow> bool" where
  "wields s c k \<longleftrightarrow> (\<exists>p. lookup_cap s c p = Inr k)"

text \<open>
  The threads the caller can complete a rendezvous with: receivers on an endpoint it may send
  to, senders on one it may receive from, waiters on a notification it may signal, and the
  thread its pending reply link names.
\<close>

definition may_wake :: "('b, 'h) kernel_state \<Rightarrow> tcb_id \<Rightarrow> tcb_id \<Rightarrow> bool" where
  "may_wake s c t \<longleftrightarrow>
     (\<exists>e b r. wields s c (EndpointCap e b r) \<and> contains r rights_WRITE \<and> t \<in> set (wait_list s (PRecv e)))
   \<or> (\<exists>e b r. wields s c (EndpointCap e b r) \<and> contains r rights_READ \<and> t \<in> set (wait_list s (PSend e)))
   \<or> (\<exists>n b r. wields s c (NotificationCap n b r) \<and> contains r rights_WRITE \<and> t \<in> set (wait_list s (PWait n)))
   \<or> (\<exists>x. get_tcb s c = Some x \<and> tcb_reply_to x = Some t)"

definition uses_cspace :: "('b, 'h) kernel_state \<Rightarrow> tcb_id \<Rightarrow> cnode_id \<Rightarrow> bool" where
  "uses_cspace s t i \<longleftrightarrow> Option.bind (get_tcb s t) tcb_cspace = Some i"

definition touch_thread :: "('b, 'h) kernel_state \<Rightarrow> tcb_id \<Rightarrow> tcb_id \<Rightarrow> bool" where
  "touch_thread s c t \<longleftrightarrow> t = c \<or> may_wake s c t \<or> (\<exists>r. wields s c (TcbCap t r) \<and> contains r rights_WRITE)"

fun may_touch :: "('b, 'h) kernel_state \<Rightarrow> tcb_id \<Rightarrow> object_ref \<Rightarrow> bool" where
  "may_touch s c (RCNode i) \<longleftrightarrow> wields s c (CNodeCap i) \<or> uses_cspace s c i \<or> (\<exists>t. may_wake s c t \<and> uses_cspace s t i)"
| "may_touch s c (RUntyped u) \<longleftrightarrow> (\<exists>r. wields s c (UntypedCap u r) \<and> contains r rights_WRITE)"
| "may_touch s c (REndpoint e) \<longleftrightarrow>
     (\<exists>b r. wields s c (EndpointCap e b r) \<and> (contains r rights_WRITE \<or> contains r rights_READ))"
| "may_touch s c (RNotification n) \<longleftrightarrow>
     (\<exists>b r. wields s c (NotificationCap n b r) \<and> (contains r rights_WRITE \<or> contains r rights_READ))"
| "may_touch s c (RTcb t) \<longleftrightarrow> touch_thread s c t"
| "may_touch s c (RReply t) \<longleftrightarrow> touch_thread s c t"
| "may_touch s c (RSchedContext i) \<longleftrightarrow> False"
| "may_touch s c (RVSpace v) \<longleftrightarrow> False"
| "may_touch s c (RFrame i) \<longleftrightarrow> (\<exists>r. wields s c (FrameCap i r) \<and> contains r rights_WRITE)"

definition may_create :: "('b, 'h) kernel_state \<Rightarrow> tcb_id \<Rightarrow> bool" where
  "may_create s c \<longleftrightarrow> (\<exists>u r. wields s c (UntypedCap u r) \<and> contains r rights_WRITE)"

section \<open>What stays as it was\<close>

text \<open>A thread that is not touched may still be the one that runs next.\<close>

definition thread_kept :: "('b, 'h) kernel_state \<Rightarrow> ('b, 'h) kernel_state \<Rightarrow> tcb_id \<Rightarrow> bool" where
  "thread_kept s s' t \<longleftrightarrow> (\<forall>x. get_tcb s t = Some x
     \<longrightarrow> get_tcb s' t = Some x \<or> get_tcb s' t = Some (x\<lparr>tcb_state := Running\<rparr>))"

fun object_kept :: "('b, 'h) kernel_state \<Rightarrow> ('b, 'h) kernel_state \<Rightarrow> object_ref \<Rightarrow> bool" where
  "object_kept s s' (RCNode i) \<longleftrightarrow> (\<forall>x. pool_get (ks_cnodes s) (cnode_ix i) = Some x
     \<longrightarrow> pool_get (ks_cnodes s') (cnode_ix i) = Some x)"
| "object_kept s s' (RUntyped i) \<longleftrightarrow> (\<forall>x. pool_get (ks_untypeds s) (untyped_ix i) = Some x
     \<longrightarrow> pool_get (ks_untypeds s') (untyped_ix i) = Some x)"
| "object_kept s s' (REndpoint i) \<longleftrightarrow> (\<forall>x. pool_get (ks_endpoints s) (endpoint_ix i) = Some x
     \<longrightarrow> pool_get (ks_endpoints s') (endpoint_ix i) = Some x)"
| "object_kept s s' (RNotification i) \<longleftrightarrow> (\<forall>x. pool_get (ks_notifications s) (notification_ix i) = Some x
     \<longrightarrow> pool_get (ks_notifications s') (notification_ix i) = Some x)"
| "object_kept s s' (RTcb t) \<longleftrightarrow> thread_kept s s' t"
| "object_kept s s' (RReply t) \<longleftrightarrow> thread_kept s s' t"
| "object_kept s s' (RSchedContext i) \<longleftrightarrow> (\<forall>x. pool_get (ks_sched_contexts s) (sched_context_ix i) = Some x
     \<longrightarrow> pool_get (ks_sched_contexts s') (sched_context_ix i) = Some x)"
| "object_kept s s' (RVSpace i) \<longleftrightarrow> (\<forall>x. pool_get (ks_vspaces s) (vspace_ix i) = Some x
     \<longrightarrow> pool_get (ks_vspaces s') (vspace_ix i) = Some x)"
| "object_kept s s' (RFrame i) \<longleftrightarrow> (\<forall>x. pool_get (ks_frames s) (frame_ix i) = Some x
     \<longrightarrow> pool_get (ks_frames s') (frame_ix i) = Some x)"

definition confined :: "('b, 'h) kernel_state \<Rightarrow> tcb_id \<Rightarrow> ('b, 'h) kernel_state \<Rightarrow> bool" where
  "confined s c s' \<longleftrightarrow> (\<forall>r. may_touch s c r \<or> object_kept s s' r)
     \<and> (\<forall>r. object_exists s' r \<longrightarrow> object_exists s r \<or> may_create s c)"

lemma object_kept_refl [simp]: "object_kept s s r"
  by (cases r) (simp_all add: thread_kept_def)

lemma object_kept_trans: "object_kept s s1 r \<Longrightarrow> object_kept s1 s2 r \<Longrightarrow> object_kept s s2 r"
  by (cases r) (auto simp: thread_kept_def)

lemma confined_refl [simp]: "confined s c s"
  by (simp add: confined_def)

lemma confined_step:
  assumes "confined s0 c s" and "\<And>r. may_touch s0 c r \<or> object_kept s s' r"
    and "\<And>r. object_exists s' r \<Longrightarrow> object_exists s r \<or> may_create s0 c"
  shows "confined s0 c s'"
  using assms unfolding confined_def by (blast intro: object_kept_trans)

section \<open>The primitives\<close>

named_theorems confined_rules

lemma confined_update_tcb [confined_rules]:
  assumes "confined s0 c s" and "may_touch s0 c (RTcb t)"
  shows "confined s0 c (update_tcb s t f)"
  using assms(1)
proof (rule confined_step)
  fix r show "may_touch s0 c r \<or> object_kept s (update_tcb s t f) r"
    using assms(2) by (cases r) (auto simp: thread_kept_def)
qed simp

lemma confined_set_queue [confined_rules]:
  assumes "confined s0 c s" and "may_touch s0 c (REndpoint e)"
  shows "confined s0 c (set_endpoint_queue s e q)"
  using assms(1)
proof (rule confined_step)
  fix r show "may_touch s0 c r \<or> object_kept s (set_endpoint_queue s e q) r"
    using assms(2) by (cases r) (auto simp: set_endpoint_queue_def thread_kept_def)
qed simp

lemma confined_notification [confined_rules]:
  assumes "confined s0 c s" and "may_touch s0 c (RNotification n)"
  shows "confined s0 c (update_notification s n g)"
  using assms(1)
proof (rule confined_step)
  fix r show "may_touch s0 c r \<or> object_kept s (update_notification s n g) r"
    using assms(2) by (cases r) (auto simp: update_notification_def thread_kept_def)
qed simp

lemma confined_cnodes [confined_rules]:
  assumes "confined s0 c s" and "may_touch s0 c (RCNode i)"
  shows "confined s0 c (s\<lparr>ks_cnodes := pool_modify (ks_cnodes s) (cnode_ix i) g\<rparr>)"
    and "confined s0 c (write_slot s i j cap)"
proof -
  let ?s' = "\<lambda>g. s\<lparr>ks_cnodes := pool_modify (ks_cnodes s) (cnode_ix i) g\<rparr>"
  show "confined s0 c (?s' g)" for g
    using assms(1)
  proof (rule confined_step)
    fix r show "may_touch s0 c r \<or> object_kept s (?s' g) r" using assms(2) by (cases r) (auto simp: thread_kept_def)
    assume "object_exists (?s' g) r"
    then show "object_exists s r \<or> may_create s0 c" by (cases r) (auto split: if_splits)
  qed
  then show "confined s0 c (write_slot s i j cap)" by (simp add: write_slot_def)
qed

lemma confined_other [confined_rules]:
  "confined s0 c s \<Longrightarrow> confined s0 c (set_current s u)"
  "confined s0 c s \<Longrightarrow> confined s0 c (push_ready s t)"
  "confined s0 c s \<Longrightarrow> confined s0 c (s\<lparr>ks_hw := h\<rparr>)"
  "confined s0 c s \<Longrightarrow> confined s0 c (s\<lparr>ks_scheduler := x\<rparr>)"
  "confined s0 c s \<Longrightarrow> confined s0 c (s\<lparr>ks_page_tables := k\<rparr>)"
proof -
  have same: "object_kept s s' r"
    if "ks_cnodes s' = ks_cnodes s" "ks_tcbs s' = ks_tcbs s" "ks_endpoints s' = ks_endpoints s"
      "ks_notifications s' = ks_notifications s" "ks_untypeds s' = ks_untypeds s" "ks_frames s' = ks_frames s"
      "ks_sched_contexts s' = ks_sched_contexts s" "ks_vspaces s' = ks_vspaces s" for s' r
    using that by (cases r) (simp_all add: thread_kept_def)
  show "confined s0 c s \<Longrightarrow> confined s0 c (set_current s u)"
    "confined s0 c s \<Longrightarrow> confined s0 c (push_ready s t)"
    "confined s0 c s \<Longrightarrow> confined s0 c (s\<lparr>ks_hw := h\<rparr>)"
    "confined s0 c s \<Longrightarrow> confined s0 c (s\<lparr>ks_scheduler := x\<rparr>)"
    "confined s0 c s \<Longrightarrow> confined s0 c (s\<lparr>ks_page_tables := k\<rparr>)"
    by (erule confined_step; simp add: same)+
qed

lemma confined_set_state [confined_rules]:
  "confined s0 c s \<Longrightarrow> may_touch s0 c (RTcb t) \<Longrightarrow> confined s0 c (set_thread_state s t x)"
  "confined s0 c s \<Longrightarrow> may_touch s0 c (RTcb t) \<Longrightarrow> confined s0 c (deliver_payload s t b m1 m2 m3 tg)"
  "confined s0 c s \<Longrightarrow> may_touch s0 c (RTcb t) \<Longrightarrow> confined s0 c (make_ready s t)"
  unfolding set_thread_state_def deliver_payload_def make_ready_def
  by (auto split: option.split intro: confined_rules simp del: may_touch.simps)

lemma touch_self [confined_rules]: "may_touch s c (RTcb c)"
  by (simp add: touch_thread_def)

lemma confined_save: "confined s0 c s \<Longrightarrow> current_of s = Some c \<Longrightarrow> confined s0 c (save_current H s f)"
  by (simp add: save_current_def confined_rules del: may_touch.simps)

lemma confined_run [confined_rules]:
  assumes "confined s0 c s"
  shows "confined s0 c (set_thread_state s t Running)"
  using assms
proof (rule confined_step)
  fix r show "may_touch s0 c r \<or> object_kept s (set_thread_state s t Running) r"
    by (cases r) (auto simp: thread_kept_def set_thread_state_def)
qed (simp add: set_thread_state_def)

lemma confined_resume [confined_rules]: "confined s0 c s \<Longrightarrow> confined s0 c (fst (resume H s f n))"
  by (auto simp: resume_def Let_def split: option.split intro!: confined_rules)

lemma confined_switch:
  "switch_to H s f n = (s', f') \<Longrightarrow> confined s0 c s \<Longrightarrow> current_of s = Some c \<Longrightarrow> confined s0 c s'"
  using confined_resume [OF confined_save [where s = s and H = H and f = f], of s0 c H f n] by (simp add: switch_to_def)

lemma confined_block:
  assumes b: "block_current H s f = Some (g, s', f')" and ok: "confined s0 c s" and cur: "current_of s = Some c"
  shows "confined s0 c s'"
proof (cases "has_ready s")
  case True
  then obtain n q where "(s', f') = resume H (set_current (save_current H s f) None
      \<lparr>ks_scheduler := ks_scheduler (set_current (save_current H s f) None)\<lparr>sch_ready := q\<rparr>\<rparr>) f n"
    using b by (auto simp: block_current_def Let_def split: option.splits prod.splits dest: sym)
  then have "s' = fst (resume H (set_current (save_current H s f) None
      \<lparr>ks_scheduler := ks_scheduler (set_current (save_current H s f) None)\<lparr>sch_ready := q\<rparr>\<rparr>) f n)"
    by (metis fst_conv)
  then show ?thesis using confined_save [OF ok cur, of H f] by (auto intro!: confined_rules)
qed (use b ok in \<open>simp add: block_current_def\<close>)

lemma confined_offer:
  assumes off: "offer_cap s t d x = Inr s1" and t: "may_wake s c t \<or> t = c"
  shows "confined s c s1"
  using off
proof (cases rule: offer_cap_Inr)
  case (placed cap d i)
  from placed(3) t have "may_touch s c (RCNode i)" by (auto simp: uses_cspace_def)
  with placed(5) show ?thesis by (auto intro!: confined_rules simp del: may_touch.simps)
qed simp

section \<open>Whom the handlers wake\<close>

lemma resolve_endpoint_wields:
  "resolve_endpoint s c p q = Inr (e, b) \<Longrightarrow> \<exists>r. wields s c (EndpointCap e b r) \<and> contains r q"
  by (auto simp: resolve_endpoint_def wields_def split: sum.splits capability.splits if_splits)

lemma resolve_notification_wields:
  "resolve_notification s c p q = Inr (n, b) \<Longrightarrow> \<exists>r. wields s c (NotificationCap n b r) \<and> contains r q"
  by (auto simp: resolve_notification_def wields_def split: sum.splits capability.splits if_splits)

lemma queue_head_mem:
  assumes "queue_wf q"
  shows "aq_front q = Some t \<Longrightarrow> t \<in> set (aq_list q)" and "aq_pop_front q = (Some t, q') \<Longrightarrow> t \<in> set (aq_list q)"
proof -
  have "aq_wf MAX_TCBS q" using assms by (simp add: queue_wf_def)
  from aq_front_list [OF this] show "aq_front q = Some t \<Longrightarrow> t \<in> set (aq_list q)" by (auto split: list.splits)
  show "aq_pop_front q = (Some t, q') \<Longrightarrow> t \<in> set (aq_list q)" by (drule pop_head(1) [OF assms]) simp
qed

lemma wakes_receiver:
  assumes wf: "state_wf s" and r: "resolve_endpoint s c p rights_WRITE = Inr (e, b)"
    and ep: "pool_get (ks_endpoints s) (endpoint_ix e) = Some ep" "ep_queue ep = QRecv q"
    and hd: "aq_front q = Some t \<or> aq_pop_front q = (Some t, q')"
  shows "may_wake s c t"
proof -
  have "queue_wf q" using wf_objects(1) [OF wf ep(1)] ep(2) by simp
  from queue_head_mem [OF this] hd have "t \<in> set (wait_list s (PRecv e))" using ep by auto
  with resolve_endpoint_wields [OF r] show ?thesis unfolding may_wake_def by blast
qed

lemma wakes_sender:
  assumes wf: "state_wf s" and r: "resolve_endpoint s c p rights_READ = Inr (e, b)"
    and ep: "pool_get (ks_endpoints s) (endpoint_ix e) = Some ep" "ep_queue ep = QSend q"
    and hd: "aq_front q = Some t \<or> aq_pop_front q = (Some t, q')"
  shows "may_wake s c t"
proof -
  have "queue_wf q" using wf_objects(1) [OF wf ep(1)] ep(2) by simp
  from queue_head_mem [OF this] hd have "t \<in> set (wait_list s (PSend e))" using ep by auto
  with resolve_endpoint_wields [OF r] show ?thesis unfolding may_wake_def by blast
qed

lemma wakes_waiter:
  assumes wf: "state_wf s" and r: "resolve_notification s c p rights_WRITE = Inr (n, b)"
    and nt: "pool_get (ks_notifications s) (notification_ix n) = Some nt"
    and pop: "aq_pop_front (ntfn_waiters nt) = (Some t, q')"
  shows "may_wake s c t"
proof -
  from pop_head(1) [OF wf_objects(2) [OF wf nt] pop] nt have "t \<in> set (wait_list s (PWait n))" by simp
  with resolve_notification_wields [OF r] show ?thesis unfolding may_wake_def by blast
qed

section \<open>The handlers\<close>

lemma endpoint_touch:
  "resolve_endpoint s c p rights_WRITE = Inr (e, b) \<Longrightarrow> may_touch s c (REndpoint e)"
  "resolve_endpoint s c p rights_READ = Inr (e, b) \<Longrightarrow> may_touch s c (REndpoint e)"
  by (auto dest!: resolve_endpoint_wields)

lemma notification_touch:
  "resolve_notification s c p rights_WRITE = Inr (n, b) \<Longrightarrow> may_touch s c (RNotification n)"
  "resolve_notification s c p rights_READ = Inr (n, b) \<Longrightarrow> may_touch s c (RNotification n)"
  by (auto dest!: resolve_notification_wields)

lemma wake_touch: "may_wake s c t \<Longrightarrow> may_touch s c (RTcb t)"
  by (simp add: touch_thread_def)

lemma block_on_endpoint_confined:
  assumes "current_of s = Some c" and "may_touch s c (REndpoint e)"
  shows "on_return (confined s c) (block_on_endpoint H s f c e side q x)"
  unfolding block_on_endpoint_def Let_def
  by (insert assms; intro peel_on_return)
    (auto split: option.split bool.split intro!: confined_rules dest!: confined_block [where ?s0.0 = s and c = c] simp del: may_touch.simps)

lemma send_confined:
  assumes wf: "state_wf s" and cur: "current_of s = Some c"
  shows "on_return (confined s c) (send H s c p f nb)"
  unfolding send_def Let_def
proof (intro peel_on_return, goal_cases)
qed (use wf cur in \<open>auto simp del: may_touch.simps
       intro!: confined_rules block_on_endpoint_confined endpoint_touch(1) wake_touch
       intro: wakes_receiver confined_offer\<close>)

lemma recv_confined:
  assumes wf: "state_wf s" and cur: "current_of s = Some c"
  shows "on_return (confined s c) (recv H s c p f)"
  unfolding recv_def Let_def
proof (intro peel_on_return, goal_cases)
qed (use wf cur in \<open>auto simp del: may_touch.simps
       intro!: confined_rules block_on_endpoint_confined endpoint_touch(2) wake_touch
       intro: wakes_sender confined_offer\<close>)

lemma call_confined:
  assumes wf: "state_wf s" and cur: "current_of s = Some c"
  shows "on_return (confined s c) (call H s c p f)"
  unfolding call_def Let_def
proof (intro peel_on_return, goal_cases)
qed (use wf cur in \<open>auto simp del: may_touch.simps simp: offered_current
       intro!: confined_rules block_on_endpoint_confined endpoint_touch(1) wake_touch
       elim!: confined_switch intro: wakes_receiver confined_offer\<close>)

lemma reply_confined:
  assumes cur: "current_of s = Some c"
  shows "on_return (confined s c) (reply H s c f)"
proof -
  have wake: "may_wake s c t" if "get_tcb s c = Some x" "tcb_reply_to x = Some t" for x t
    using that by (auto simp: may_wake_def)
  show ?thesis
    unfolding reply_def Let_def
  proof (intro peel_on_return, goal_cases)
  qed (use cur in \<open>auto simp del: may_touch.simps simp: offered_current
         intro!: confined_rules wake_touch elim!: confined_switch intro: wake confined_offer\<close>)
qed

lemma notification_confined:
  assumes wf: "state_wf s" and cur: "current_of s = Some c"
  shows "on_return (confined s c) (signal H s c p f)" and "on_return (confined s c) (poll H s c p f)"
    and "on_return (confined s c) (wait H s c p f)" and "on_return (confined s c) (yield_now H s c f)"
proof -
  show "on_return (confined s c) (signal H s c p f)"
    unfolding signal_def Let_def
    by (insert assms; intro peel_on_return)
      (auto simp del: may_touch.simps intro!: confined_rules notification_touch(1) wake_touch intro: wakes_waiter)
  show "on_return (confined s c) (poll H s c p f)"
    unfolding poll_def Let_def
    by (insert assms; intro peel_on_return)
      (auto simp del: may_touch.simps intro!: confined_rules notification_touch(2))
  show "on_return (confined s c) (wait H s c p f)"
    unfolding wait_def Let_def
    by (insert assms; intro peel_on_return)
      (auto simp del: may_touch.simps split: option.split bool.split
        intro!: confined_rules notification_touch(2) dest!: confined_block [where ?s0.0 = s and c = c])
  show "on_return (confined s c) (yield_now H s c f)"
    unfolding yield_now_def Let_def
    by (insert assms; intro peel_on_return)
      (auto simp del: may_touch.simps split: option.split bool.split
        intro!: confined_rules dest!: confined_block [where ?s0.0 = s and c = c])
qed

lemma cnode_confined: "on_return (confined s c) (cnode_invoke H s c p f)"
proof -
  have touch: "may_touch s c (RCNode i)" if "lookup_cap s c p = Inr (CNodeCap i)" for i
    using that by (auto simp: wields_def)
  show ?thesis
    unfolding cnode_invoke_def Let_def
    by (intro peel_on_return)
      (auto simp del: may_touch.simps split: if_splits intro!: confined_rules touch
        elim!: mint_Inr copy_Inr move_cap_Inr delete_Inr copy_cross_Inr)
qed

lemma configure_confined: "on_return (confined s c) (configure H s c p f)"
proof -
  have touch: "may_touch s c (RTcb t)" if "lookup_cap s c p = Inr (TcbCap t r)" "contains r rights_WRITE" for t r
    using that by (auto simp: touch_thread_def wields_def)
  show ?thesis
    unfolding configure_def Let_def
    by (intro peel_on_return) (auto simp del: may_touch.simps intro!: confined_rules intro: touch)
qed

section \<open>Frames and retypes\<close>

lemma confined_frames:
  assumes "confined s0 c s" and "may_touch s0 c (RFrame i)"
  shows "confined s0 c (s\<lparr>ks_frames := pool_modify (ks_frames s) (frame_ix i) g\<rparr>)"
  using assms(1)
proof (rule confined_step)
  let ?s' = "s\<lparr>ks_frames := pool_modify (ks_frames s) (frame_ix i) g\<rparr>"
  fix r show "may_touch s0 c r \<or> object_kept s ?s' r" using assms(2) by (cases r) (auto simp: thread_kept_def)
  assume "object_exists ?s' r"
  then show "object_exists s r \<or> may_create s0 c" by (cases r) (auto split: if_splits)
qed

lemma frame_confined: "on_return (confined s c) (frame_invoke H s c p f)"
proof -
  have touch: "may_touch s c (RFrame i)" if "lookup_cap s c p = Inr (FrameCap i r)" "contains r rights_WRITE" for i r
    using that by (auto simp: wields_def)
  have new: "confined s c (s\<lparr>ks_hw := hw, ks_page_tables := k, ks_frames := pool_modify (ks_frames s) (frame_ix i) g\<rparr>)"
    "confined s c (s\<lparr>ks_hw := hw, ks_frames := pool_modify (ks_frames s) (frame_ix i) g\<rparr>)"
    if "may_touch s c (RFrame i)" for hw k i g
    using confined_frames [OF _ that, of "s\<lparr>ks_hw := hw, ks_page_tables := k\<rparr>" g]
      confined_frames [OF _ that, of "s\<lparr>ks_hw := hw\<rparr>" g] by (simp_all add: confined_rules)
  have map: "on_return (confined s c) (frame_map H s c i f)" "on_return (confined s c) (frame_unmap H s c i f)"
    if "may_touch s c (RFrame i)" for i
    unfolding frame_map_def frame_unmap_def Let_def
    by (intro peel_on_return; simp add: new [OF that] confined_rules del: may_touch.simps)+
  show ?thesis
    unfolding frame_invoke_def Let_def
    by (intro peel_on_return on_return_reply) (auto simp del: may_touch.simps intro!: map touch)
qed

lemma confined_untypeds:
  assumes "confined s0 c s" and "may_touch s0 c (RUntyped i)"
  shows "confined s0 c (s\<lparr>ks_untypeds := pool_modify (ks_untypeds s) (untyped_ix i) g\<rparr>)"
  using assms(1)
proof (rule confined_step)
  let ?s' = "s\<lparr>ks_untypeds := pool_modify (ks_untypeds s) (untyped_ix i) g\<rparr>"
  fix r show "may_touch s0 c r \<or> object_kept s ?s' r" using assms(2) by (cases r) (auto simp: thread_kept_def)
  assume "object_exists ?s' r"
  then show "object_exists s r \<or> may_create s0 c" by (cases r) (auto split: if_splits)
qed

text \<open>Allocation in any of the pools changes no object that was there.\<close>

lemma confined_more:
  assumes "confined s0 c s" and "may_create s0 c" and "ks_untypeds s' = ks_untypeds s"
    and "\<And>i x. pool_get (ks_cnodes s) i = Some x \<Longrightarrow> pool_get (ks_cnodes s') i = Some x"
    and "\<And>i x. pool_get (ks_tcbs s) i = Some x \<Longrightarrow> pool_get (ks_tcbs s') i = Some x"
    and "\<And>i x. pool_get (ks_endpoints s) i = Some x \<Longrightarrow> pool_get (ks_endpoints s') i = Some x"
    and "\<And>i x. pool_get (ks_notifications s) i = Some x \<Longrightarrow> pool_get (ks_notifications s') i = Some x"
    and "\<And>i x. pool_get (ks_sched_contexts s) i = Some x \<Longrightarrow> pool_get (ks_sched_contexts s') i = Some x"
    and "\<And>i x. pool_get (ks_vspaces s) i = Some x \<Longrightarrow> pool_get (ks_vspaces s') i = Some x"
    and "\<And>i x. pool_get (ks_frames s) i = Some x \<Longrightarrow> pool_get (ks_frames s') i = Some x"
  shows "confined s0 c s'"
  using assms(1)
proof (rule confined_step)
  fix r show "may_touch s0 c r \<or> object_kept s s' r"
    using assms(3-) by (cases r) (simp_all add: thread_kept_def)
qed (simp add: assms(2))

lemma confined_alloc:
  assumes "confined s0 c s" and "may_create s0 c" and wf: "state_wf s"
  shows "pool_alloc (ks_cnodes s) x1 = Some (k, p1) \<Longrightarrow> confined s0 c (s\<lparr>ks_cnodes := p1\<rparr>)"
    and "pool_alloc (ks_tcbs s) x2 = Some (k, p2) \<Longrightarrow> confined s0 c (s\<lparr>ks_tcbs := p2\<rparr>)"
    and "pool_alloc (ks_endpoints s) x3 = Some (k, p3) \<Longrightarrow> confined s0 c (s\<lparr>ks_endpoints := p3\<rparr>)"
    and "pool_alloc (ks_notifications s) x4 = Some (k, p4) \<Longrightarrow> confined s0 c (s\<lparr>ks_notifications := p4\<rparr>)"
    and "pool_alloc (ks_sched_contexts s) x5 = Some (k, p5) \<Longrightarrow> confined s0 c (s\<lparr>ks_sched_contexts := p5\<rparr>)"
    and "pool_alloc (ks_vspaces s) x6 = Some (k, p6) \<Longrightarrow> confined s0 c (s\<lparr>ks_vspaces := p6\<rparr>)"
    and "pool_alloc (ks_frames s) x7 = Some (k, p7) \<Longrightarrow> confined s0 c (s\<lparr>ks_frames := p7\<rparr>)"
proof -
  note more = confined_more [OF assms(1,2)] and sizes = pool_sizes [OF wf]
  show "pool_alloc (ks_cnodes s) x1 = Some (k, p1) \<Longrightarrow> confined s0 c (s\<lparr>ks_cnodes := p1\<rparr>)"
    by (rule more) (auto intro: pool.alloc_stable [OF sizes(1)])
  show "pool_alloc (ks_tcbs s) x2 = Some (k, p2) \<Longrightarrow> confined s0 c (s\<lparr>ks_tcbs := p2\<rparr>)"
    by (rule more) (auto intro: pool.alloc_stable [OF sizes(2)])
  show "pool_alloc (ks_endpoints s) x3 = Some (k, p3) \<Longrightarrow> confined s0 c (s\<lparr>ks_endpoints := p3\<rparr>)"
    by (rule more) (auto intro: pool.alloc_stable [OF sizes(3)])
  show "pool_alloc (ks_notifications s) x4 = Some (k, p4) \<Longrightarrow> confined s0 c (s\<lparr>ks_notifications := p4\<rparr>)"
    by (rule more) (auto intro: pool.alloc_stable [OF sizes(4)])
  show "pool_alloc (ks_sched_contexts s) x5 = Some (k, p5) \<Longrightarrow> confined s0 c (s\<lparr>ks_sched_contexts := p5\<rparr>)"
    by (rule more) (auto intro: pool.alloc_stable [OF sizes(5)])
  show "pool_alloc (ks_vspaces s) x6 = Some (k, p6) \<Longrightarrow> confined s0 c (s\<lparr>ks_vspaces := p6\<rparr>)"
    by (rule more) (auto intro: pool.alloc_stable [OF sizes(6)])
  show "pool_alloc (ks_frames s) x7 = Some (k, p7) \<Longrightarrow> confined s0 c (s\<lparr>ks_frames := p7\<rparr>)"
    by (rule more) (auto intro: pool.alloc_stable [OF sizes(7)])
qed

lemma retype_object_confined:
  assumes held: "may_touch s c (RUntyped uid)" "may_create s c" and wf: "state_wf s"
    and new: "retype_object H s uid ot = Some (r, s')"
  shows "confined s c s'"
proof -
  note here = confined_alloc [OF confined_refl held(2) wf]
  have "confined s c (s\<lparr>ks_page_tables := k\<rparr>\<lparr>ks_vspaces := p\<rparr>)"
    if "pool_alloc (ks_vspaces s) x = Some (i, p)" for k x i p
    by (rule confined_more [OF confined_other(5) [OF confined_refl, where k = k] held(2)])
      (auto intro: pool.alloc_stable [OF pool_sizes(6) [OF wf] that])
  moreover have "confined s c (s\<lparr>ks_untypeds := pool_modify (ks_untypeds s) (untyped_ix uid) g\<rparr>\<lparr>ks_frames := p\<rparr>)"
    if "pool_alloc (ks_frames s) x = Some (i, p)" for g x i p
    by (rule confined_more [OF confined_untypeds [OF confined_refl held(1), where g = g] held(2)])
      (auto intro: pool.alloc_stable [OF pool_sizes(7) [OF wf] that])
  ultimately show ?thesis
    using new here confined_untypeds [OF confined_refl held(1)] confined_other(5) [OF confined_refl [of s c]]
    by (auto simp: retype_object_def Let_def split: object_type.splits option.splits prod.splits)
qed

lemma retype_commit_confined:
  assumes ok: "confined s0 c s" and "may_touch s0 c (RUntyped uid)" and "may_touch s0 c (RCNode i)"
    and com: "retype_commit s i d uid cap = Some s'"
  shows "confined s0 c s'"
proof -
  obtain g where "s' = s\<lparr>ks_cnodes := pool_modify (ks_cnodes s) (cnode_ix i) (\<lambda>c. cnode_put c d cap)\<rparr>
      \<lparr>ks_untypeds := pool_modify (ks_untypeds s) (untyped_ix uid) g\<rparr>"
    using com by (auto simp: retype_commit_def Let_def split: option.splits if_splits)
  with confined_untypeds [OF confined_cnodes(1) [OF ok assms(3)] assms(2)] show ?thesis by simp
qed

lemma retype_confined:
  assumes wf: "state_wf s"
  shows "on_return (confined s c) (untyped_retype H s c p f)"
proof -
  have own: "may_touch s c (RCNode i)" if "Option.bind (get_tcb s c) tcb_cspace = Some i" for i
    using that by (simp add: uses_cspace_def)
  have held: "may_touch s c (RUntyped u)" "may_create s c"
    if "lookup_cap s c p = Inr (UntypedCap u r)" "contains r rights_WRITE" for u r
    using that by (auto simp: may_create_def wields_def)
  show ?thesis
    unfolding untyped_retype_def Let_def
    by (intro peel_on_return)
      (auto simp del: may_touch.simps intro: retype_object_confined held wf retype_commit_confined own)
qed

section \<open>Whole traps\<close>

lemma run_syscall_confined:
  assumes "state_wf s" and "current_of s = Some c"
  shows "on_return (confined s c) (run_syscall H s c f n)"
  using assms
  by (cases n) (simp_all add: run_syscall_def send_confined recv_confined call_confined reply_confined
      notification_confined cnode_confined configure_confined frame_confined retype_confined)

lemma dispatch_confined:
  assumes inv: "kernel_inv s" and cur: "current_of s = Some c" and d: "dispatch H s f = Some (s', f')"
  shows "confined s c s'"
proof (cases "syscall_from_usize (h_syscall_number H f)")
  case None
  with d cur show ?thesis by (simp add: dispatch_def)
next
  case n: (Some n)
  have "state_wf s" using inv by (simp add: kernel_inv_def)
  from run_syscall_confined [OF this cur, of H f n] d show ?thesis
    by (cases "run_syscall H s c f n") (auto simp: dispatch_run [OF cur n])
qed

end
