(* ===== verification/Atomic.thy ===== *)
theory Atomic
  imports Integrity
begin

text \<open>
  What a failed call leaves behind. \<open>only_memory\<close>: at most page tables taken from the kernel's
  arena and an Untyped's watermark raised; every other field of the state, and every budget, is
  as it was.
\<close>

definition only_memory :: "('b, 'h) kernel_state \<Rightarrow> ('b, 'h) kernel_state \<Rightarrow> bool" where
  "only_memory s s' \<longleftrightarrow> s' = s\<lparr>ks_untypeds := ks_untypeds s', ks_page_tables := ks_page_tables s'\<rparr>
     \<and> (\<forall>i. map_option ut_remaining (pool_get (ks_untypeds s') i) = map_option ut_remaining (pool_get (ks_untypeds s) i))"

lemma only_memory_refl [simp]: "only_memory s s"
  by (simp add: only_memory_def)

lemma only_memory_page_tables: "only_memory s (s\<lparr>ks_page_tables := k\<rparr>)"
  by (simp add: only_memory_def)

lemma retype_object_failed:
  assumes "retype_object H s uid ot = Some (Inl e, s')"
  shows "only_memory s s'"
proof -
  have bump: "only_memory s (s\<lparr>ks_untypeds := pool_modify (ks_untypeds s) i (\<lambda>_. u')\<rparr>)"
    if "pool_get (ks_untypeds s) i = Some u" "untyped_bump u b a = Some (x, u')" for i u u' x b a
    using that untyped_bump_remaining [OF that(2)] by (simp add: only_memory_def)
  show ?thesis
    using assms
    by (auto simp: retype_object_def Let_def only_memory_page_tables
        split: object_type.splits option.splits prod.splits if_splits intro: bump)
qed

lemma retype_failed: "on_err (only_memory s) (untyped_retype H s c p f)"
  unfolding untyped_retype_def Let_def
  by (intro peel_on_err) (auto dest: retype_object_failed)

definition only_page_tables :: "('b, 'h) kernel_state \<Rightarrow> ('b, 'h) kernel_state \<Rightarrow> bool" where
  "only_page_tables s s' \<longleftrightarrow> s' = s\<lparr>ks_page_tables := ks_page_tables s'\<rparr>"

lemma frame_failed: "on_err (only_page_tables s) (frame_invoke H s c p f)"
proof -
  have "on_err (only_page_tables s) (frame_map H s c fid f)" for fid
    unfolding frame_map_def Let_def by (intro peel_on_err) (simp_all add: only_page_tables_def)
  moreover have "on_err (only_page_tables s) (frame_unmap H s c fid f)" for fid
    unfolding frame_unmap_def Let_def by (intro peel_on_err) (simp_all add: only_page_tables_def)
  ultimately show ?thesis
    unfolding frame_invoke_def Let_def by (intro peel_on_err on_err_reply) (simp_all add: only_page_tables_def)
qed

lemma run_syscall_failed:
  assumes "frame_laws H" and "running c s" and err: "run_syscall H s c f n = Err e s1 f1"
  shows "only_memory s s1" and "n \<noteq> SysUntypedRetype \<Longrightarrow> only_page_tables s s1"
    and "n \<noteq> SysUntypedRetype \<Longrightarrow> n \<noteq> SysFrameInvoke \<Longrightarrow> s1 = s"
proof -
  show same: "n \<noteq> SysUntypedRetype \<Longrightarrow> n \<noteq> SysFrameInvoke \<Longrightarrow> s1 = s"
    using run_syscall_atomic [OF assms(1,2), of n f] err by simp
  show pt: "only_page_tables s s1" if "n \<noteq> SysUntypedRetype"
  proof (cases "n = SysFrameInvoke")
    case True
    with on_errD [OF frame_failed] err show ?thesis by (simp add: run_syscall_def)
  qed (use same that in \<open>simp add: only_page_tables_def\<close>)
  show "only_memory s s1"
  proof (cases "n = SysUntypedRetype")
    case True
    with on_errD [OF retype_failed] err show ?thesis by (simp add: run_syscall_def)
  next
    case False
    from pt [OF this] only_memory_page_tables [of s "ks_page_tables s1"] show ?thesis
      by (metis only_page_tables_def)
  qed
qed

section \<open>Memory failed calls keep\<close>

text \<open>A retype to a Frame takes the Frame's bytes from the Untyped before it asks for a Frame slot.\<close>

lemma frame_retype_leaks:
  assumes laws: "paging_laws H" and wf: "state_wf s"
    and full: "pool_alloc (ks_frames s) = (\<lambda>_. None)"
    and cap: "lookup_cap s c p = Inr (UntypedCap uid r)" "contains r rights_WRITE"
    and ot: "object_type_from_usize (h_mr H f 1) = Some ot"
      "ot = OT_FrameSmall \<and> sz = Small \<or> ot = OT_FrameMega \<and> sz = Mega"
    and u: "pool_get (ks_untypeds s) (untyped_ix uid) = Some u" "ut_remaining u \<noteq> 0"
    and room: "untyped_frame_alloc u sz = Some (a, u')"
    and dest: "Option.bind (get_tcb s c) tcb_cspace = Some i" "slot_cap s i (h_mr H f 2) = Some Null"
  shows "untyped_retype H s c p f
    = Err NotEnoughMemory (s\<lparr>ks_untypeds := pool_modify (ks_untypeds s) (untyped_ix uid) (\<lambda>_. u')\<rparr>) f"
    and "unat a + 2 ^ frame_size_log sz \<le> ut_cursor u'" and "ut_cursor u \<le> unat a"
proof -
  have uw: "ut_wf u" using wf_objects(4) [OF wf u(1)] .
  have b: "untyped_bump u (frame_size_bytes H sz) (frame_size_bytes H sz) = Some (Some a, u')"
    using frame_bump [OF laws uw, of sz] room by simp
  have "retype_object H s uid ot
      = Some (Inl NotEnoughMemory, s\<lparr>ks_untypeds := pool_modify (ks_untypeds s) (untyped_ix uid) (\<lambda>_. u')\<rparr>)"
    using ot(2) b full u(1) by (auto simp: retype_object_def Let_def)
  then show "untyped_retype H s c p f
    = Err NotEnoughMemory (s\<lparr>ks_untypeds := pool_modify (ks_untypeds s) (untyped_ix uid) (\<lambda>_. u')\<rparr>) f"
    using cap ot(1) u dest by (auto simp del: One_nat_def simp: untyped_retype_def slot_cap_def bind_eq_Some_conv)
  from ut.alloc_chunk [OF uw room]
  show "unat a + 2 ^ frame_size_log sz \<le> ut_cursor u'" and "ut_cursor u \<le> unat a" by auto
qed

end
