(* ===== verification/Instance.thy ===== *)
theory Instance
  imports Atomic
begin

text \<open>
  A concrete machine: a trap frame with four message registers and 32 raw words, page tables as
  an association list, with one branch table per 1 GiB region and one per 2 MiB region that a page is
  mapped in. It satisfies the laws assumed of the HAL. On it,
  \<open>demo\<close> is a small running system: thread 0 runs, thread 1 is in the state given, both share
  one CNode with a capability to each object; it satisfies the kernel invariant.
\<close>

section \<open>The machine\<close>

record toy_frame =
  tf_number :: usize
  tf_tag :: "16 word message_tag"
  tf_mr :: "nat \<Rightarrow> usize"
  tf_raw :: "nat \<Rightarrow> usize"

record toy_hw =
  hw_map :: "((usize \<times> usize) \<times> usize) list"
  hw_branch :: "(nat \<times> usize \<times> usize) list"
  hw_active :: "usize option"

definition toy_zeroed :: toy_frame where
  "toy_zeroed = \<lparr>tf_number = 0, tf_tag = tag_zero, tf_mr = (\<lambda>_. 0), tf_raw = (\<lambda>_. 0)\<rparr>"

definition toy_boot :: toy_hw where
  "toy_boot = \<lparr>hw_map = [], hw_branch = [], hw_active = None\<rparr>"

text \<open>A walk takes one spare table for every branch on its way that does not exist yet.\<close>

definition toy_walk :: "nat list \<Rightarrow> toy_hw \<Rightarrow> usize \<Rightarrow> usize \<Rightarrow> usize \<Rightarrow> usize \<Rightarrow> usize list \<Rightarrow> toy_hw \<times> nat" where
  "toy_walk levels h root va pa fl sp =
     (let keys = map (\<lambda>k. (k, root, drop_bit (12 + 9 * k) va)) levels;
          missing = filter (\<lambda>k. k \<notin> set (hw_branch h)) keys in
      (h\<lparr>hw_map := ((root, va), pa) # hw_map h, hw_branch := missing @ hw_branch h\<rparr>, length missing))"

definition toy_unmap :: "toy_hw \<Rightarrow> usize \<Rightarrow> usize \<Rightarrow> toy_hw" where
  "toy_unmap h root va = h\<lparr>hw_map := filter (\<lambda>(at, pa). at \<noteq> (root, va)) (hw_map h)\<rparr>"

lemma toy_walk_simps:
  "map_of (hw_map (fst (toy_walk ls h root va pa fl sp))) = (map_of (hw_map h))((root, va) \<mapsto> pa)"
  "hw_active (fst (toy_walk ls h root va pa fl sp)) = hw_active h"
  "snd (toy_walk ls h root va pa fl sp) \<le> length ls"
  using length_filter_le [of _ "map (\<lambda>k. (k, root, drop_bit (12 + 9 * k) va)) ls"]
  by (simp_all add: toy_walk_def Let_def)

lemma toy_unmap_simps:
  "map_of (hw_map (toy_unmap h root va)) (root, va) = None"
  "hw_active (toy_unmap h root va) = hw_active h"
  by (auto simp: toy_unmap_def map_of_eq_None_iff)

definition toy :: "(toy_frame, 16 word, toy_hw, usize) hal" where
  "toy = \<lparr>h_mr = tf_mr, h_set_mr = (\<lambda>f i v. f\<lparr>tf_mr := (tf_mr f)(i := v)\<rparr>),
     h_tag = tf_tag, h_set_tag = (\<lambda>f t. f\<lparr>tf_tag := t\<rparr>),
     h_syscall_number = tf_number, h_set_syscall_number = (\<lambda>f v. f\<lparr>tf_number := v\<rparr>),
     h_raw_word = tf_raw, h_set_raw_word = (\<lambda>f i v. f\<lparr>tf_raw := (tf_raw f)(i := v)\<rparr>),
     h_zeroed = toy_zeroed,
     h_initial_trap_frame = (\<lambda>pc sp arg. toy_zeroed\<lparr>tf_raw := (\<lambda>_. 0)(0 := pc, 1 := sp, 2 := arg)\<rparr>),
     h_flag_error = 1, h_mr_count = 4, h_page_size = 4096, h_megapage_size = 2097152,
     h_pte_valid = 1, h_pte_read = 2, h_pte_write = 4, h_pte_execute = 8, h_pte_user = 16,
     h_pte_union = (OR),
     h_translate = (\<lambda>h root va. map_of (hw_map h) (root, va)),
     h_map_page = toy_walk [2, 1], h_map_megapage = toy_walk [2],
     h_unmap = toy_unmap,
     h_activate = (\<lambda>h root. h\<lparr>hw_active := Some root\<rparr>), h_active = hw_active\<rparr>"

lemma toy_laws: "frame_laws toy" "paging_laws toy"
  by (simp_all add: frame_laws_def paging_laws_def toy_def toy_walk_simps toy_unmap_simps order_trans [OF toy_walk_simps(3)])

section \<open>The system\<close>

definition single :: "tcb_id \<Rightarrow> tcb_id array_queue" where
  "single t = snd (aq_push_back (aq_new MAX_TCBS) t)"

lemma single_queue: "queue_wf (single t)" "aq_list (single t) = [t]"
proof -
  show "queue_wf (single t)" by (simp add: single_def queue_wf_push queue_wf_new)
  have "length (aq_list (aq_new MAX_TCBS)) < MAX_TCBS"
    by (simp only: aq.elems_empty list.size) (simp add: MAX_TCBS_def)
  from aq.elems_push [OF aq.invar_empty this, of t] show "aq_list (single t) = [t]"
    by (simp only: single_def aq.elems_empty append_Nil)
qed

definition fill :: "nat \<Rightarrow> 'a list \<Rightarrow> 'a pool" where
  "fill N xs = \<lparr>pool_slots = map Some xs @ replicate (N - length xs) None, pool_len = length xs\<rparr>"

lemma fill_wf: "length xs \<le> N \<Longrightarrow> pool_wf N (fill N xs)"
proof -
  assume "length xs \<le> N"
  moreover have "occupied (map Some xs @ replicate n None) = length xs" for n
  proof (induction xs)
    case Nil show ?case by (induction n) simp_all
  qed simp
  ultimately show ?thesis by (simp add: fill_def pool_wf_def)
qed

lemma fill_get: "length xs \<le> N \<Longrightarrow> pool_get (fill N xs) i = (if i < length xs then Some (xs ! i) else None)"
  by (auto simp: fill_def pool_get_def nth_append)

definition demo_cnode :: cnode where
  "demo_cnode = \<lparr>cnode_slots =
     [Null, EndpointCap (EndpointId 0) 7 rights_ALL, NotificationCap (NotificationId 0) 5 rights_ALL,
      UntypedCap (UntypedId 0) rights_ALL, VSpaceCap (VSpaceId 0) rights_ALL, FrameCap (FrameId 0) rights_ALL,
      CNodeCap (CNodeId 0), TcbCap (TcbId 1) rights_ALL, SchedContextCap (SchedContextId 0) rights_ALL,
      EndpointCap (EndpointId 0) 7 rights_READ] @ replicate (CNODE_SLOTS - 10) Null\<rparr>"

definition demo_tcb :: "thread_state \<Rightarrow> tcb_id option \<Rightarrow> 16 word tcb" where
  "demo_tcb x r = \<lparr>tcb_state = x, tcb_cspace = Some (CNodeId 0), tcb_sched_context = None,
     tcb_context = context_zeroed toy, tcb_reply_to = r, tcb_address_space = None\<rparr>"

definition demo_frame :: frame where
  "demo_frame = \<lparr>fr_paddr = 8192, fr_size = Small, fr_mapped_at = [None, None]\<rparr>"

definition demo :: "thread_state \<Rightarrow> (16 word, toy_hw) kernel_state" where
  "demo x =
     \<lparr>ks_cnodes = fill MAX_CNODES [demo_cnode],
      ks_tcbs = fill MAX_TCBS
        [demo_tcb Running (case x of BlockedReply _ \<Rightarrow> Some (TcbId 1) | _ \<Rightarrow> None), demo_tcb x None],
      ks_endpoints = fill MAX_ENDPOINTS [\<lparr>ep_queue = (case x of BlockedSend _ _ _ _ _ \<Rightarrow> QSend (single (TcbId 1))
        | BlockedRecv _ _ \<Rightarrow> QRecv (single (TcbId 1)) | _ \<Rightarrow> QEmpty)\<rparr>],
      ks_notifications = fill MAX_NOTIFICATIONS [\<lparr>ntfn_signals = 0,
        ntfn_waiters = (case x of BlockedWait _ \<Rightarrow> single (TcbId 1) | _ \<Rightarrow> aq_new MAX_TCBS)\<rparr>],
      ks_untypeds = fill MAX_UNTYPEDS [\<lparr>ut_remaining = 4, ut_memory = Some (65536, 16777216)\<rparr>],
      ks_sched_contexts = fill MAX_SCHED_CONTEXTS [scheduling_context_new 1],
      ks_vspaces = fill MAX_VSPACES [\<lparr>vs_root = 2147483648\<rparr>],
      ks_frames = fill MAX_FRAMES [demo_frame],
      ks_page_tables = \<lparr>kpt_base = 2147483648, kpt_next = 4096\<rparr>,
      ks_scheduler = \<lparr>sch_ready = (if x = Ready then single (TcbId 1) else aq_new MAX_TCBS), sch_current = Some (TcbId 0)\<rparr>,
      ks_hw = toy_boot\<rparr>"

fun demo_ok :: "thread_state \<Rightarrow> bool" where
  "demo_ok Running \<longleftrightarrow> False"
| "demo_ok (BlockedSend e b k x d) \<longleftrightarrow> e = EndpointId 0 \<and> x = None"
| "demo_ok (BlockedRecv e d) \<longleftrightarrow> e = EndpointId 0"
| "demo_ok (BlockedWait n) \<longleftrightarrow> n = NotificationId 0"
| "demo_ok _ \<longleftrightarrow> True"

lemma unat_id_simps [simp]: "unat (w :: u16) = 0 \<longleftrightarrow> w = 0" "unat (w :: u16) = Suc 0 \<longleftrightarrow> w = 1"
  using unat_u16_iff [of 1 w] by (simp_all add: unat_eq_0)

lemma less_2_cases: "(n :: nat) < 2 \<longleftrightarrow> n = 0 \<or> n = 1"
  by auto

lemma fill_one: "0 < N \<Longrightarrow> pool_get (fill N [a]) i = (if i = 0 then Some a else None)"
  by (simp add: fill_get)

lemma fill_two: "1 < N \<Longrightarrow> pool_get (fill N [a, b]) i = (if i = 0 then Some a else if i = 1 then Some b else None)"
  by (auto simp: fill_get less_2_cases)

lemma limits_pos:
  "0 < MAX_CNODES" "Suc 0 < MAX_TCBS" "0 < MAX_ENDPOINTS" "0 < MAX_NOTIFICATIONS" "0 < MAX_UNTYPEDS"
  "0 < MAX_SCHED_CONTEXTS" "0 < MAX_VSPACES" "0 < MAX_FRAMES" "10 < CNODE_SLOTS"
  by (simp_all add: limits)

lemmas demo_pools = fill_one fill_two limits_pos

lemma demo_cnode_wf: "cnode_wf demo_cnode"
  by (simp add: cnode_wf_def demo_cnode_def CNODE_SLOTS_def)

lemma demo_wf: "demo_ok x \<Longrightarrow> state_wf (demo x)"
  by (cases x)
     (auto simp: state_wf_def demo_def fill_wf Suc_leI pool_all_def demo_pools single_queue queue_wf_new
       ctx_wf_zeroed toy_laws demo_tcb_def demo_cnode_wf frame_wf_def ut_wf_def kpt_wf_def demo_frame_def
       MAX_FRAME_MAPPINGS_def split: if_splits)

text \<open>What the demo system holds, by observation.\<close>

lemma demo_get_tcb:
  "get_tcb (demo x) t = (if t = TcbId 0 then Some (demo_tcb Running (case x of BlockedReply _ \<Rightarrow> Some (TcbId 1) | _ \<Rightarrow> None))
     else if t = TcbId 1 then Some (demo_tcb x None) else None)"
  by (cases t) (auto simp: demo_def demo_pools)

lemma demo_wait_list:
  assumes "demo_ok x"
  shows "wait_list (demo x) p = (if place_of x = Some p then [TcbId 1] else [])"
proof (cases p)
  case PReady
  then show ?thesis using single_queue aq.elems_empty by (cases x) (auto simp: demo_def)
next
  case (PSend e)
  with assms show ?thesis using single_queue by (cases x; cases e) (auto simp: demo_def demo_pools)
next
  case (PRecv e)
  with assms show ?thesis using single_queue by (cases x; cases e) (auto simp: demo_def demo_pools)
next
  case (PWait n)
  with assms show ?thesis using single_queue aq.elems_empty
    by (cases x; cases n) (auto simp: demo_def demo_pools)
qed

lemma demo_threads:
  assumes "demo_ok x"
  shows "threads_ok (threads_of (demo x))"
proof -
  have one: "TcbId 0 \<noteq> TcbId 1" by simp
  have cur: "current_of (demo x) = Some (TcbId 0)" by (simp add: demo_def)
  have sig: "tv_signals (threads_of (demo x)) n = 0" for n
    by (cases n) (simp add: threads_of_def demo_def demo_pools)
  show ?thesis
    unfolding threads_ok_def
  proof (intro conjI)
    show "queued_once (threads_of (demo x))"
      by (auto simp: queued_once_def demo_get_tcb demo_wait_list [OF assms] demo_tcb_def)
    show "one_running (threads_of (demo x))"
      using assms by (auto simp: one_running_def demo_get_tcb cur demo_tcb_def)
    show "replies_ok (threads_of (demo x))"
      using assms by (cases x) (auto simp: replies_ok_def demo_get_tcb demo_tcb_def split: if_splits)
    show "rendezvous_ok (threads_of (demo x))"
      by (auto simp: rendezvous_ok_def demo_wait_list [OF assms] simp del: wait_list.simps)
    show "signals_ok (threads_of (demo x))" by (simp add: signals_ok_def sig)
  qed
qed

lemma demo_slot_cap: "slot_cap (demo x) i j = (if i = CNodeId 0 then cnode_get demo_cnode j else None)"
  by (cases i) (simp add: slot_cap_def demo_def demo_pools)

lemma demo_caps:
  assumes "demo_ok x"
  shows "caps_of (demo x) \<subseteq> {EndpointCap (EndpointId 0) 7 rights_ALL, NotificationCap (NotificationId 0) 5 rights_ALL,
      UntypedCap (UntypedId 0) rights_ALL, VSpaceCap (VSpaceId 0) rights_ALL, FrameCap (FrameId 0) rights_ALL,
      CNodeCap (CNodeId 0), TcbCap (TcbId 1) rights_ALL, SchedContextCap (SchedContextId 0) rights_ALL,
      EndpointCap (EndpointId 0) 7 rights_READ}"
proof -
  have "flight_caps (tv_state (threads_of (demo x))) = {}"
    using assms by (cases x) (auto simp: flight_caps_def demo_get_tcb demo_tcb_def split: if_splits)
  moreover have "cnode_get demo_cnode j = Some c \<Longrightarrow> c \<in> set (cnode_slots demo_cnode)" for j c
    by (auto simp: cnode_get_def split: if_splits)
  then have "stored_caps (demo x) \<subseteq> set (cnode_slots demo_cnode) - {Null}"
    by (auto simp: stored_caps_def demo_slot_cap split: if_splits)
  ultimately show ?thesis by (auto simp: caps_of_def demo_cnode_def)
qed

definition demo_objects :: "object_ref set" where
  "demo_objects = {REndpoint (EndpointId 0), RNotification (NotificationId 0), RUntyped (UntypedId 0),
     RVSpace (VSpaceId 0), RFrame (FrameId 0), RCNode (CNodeId 0), RTcb (TcbId 1), RSchedContext (SchedContextId 0)}"

lemma demo_object_exists: "r \<in> demo_objects \<Longrightarrow> object_exists (demo x) r"
  by (auto simp: demo_objects_def demo_def demo_pools)

theorem demo_inv:
  assumes "demo_ok x"
  shows "kernel_inv (demo x)"
proof -
  have "r \<in> demo_objects" if "c \<in> caps_of (demo x)" "cap_object c = Some r" for c r
    using subsetD [OF demo_caps [OF assms] that(1)] that(2) by (auto simp: demo_objects_def)
  moreover have "i = CNodeId 0" if "i \<in> cspaces (demo x)" for i
    using that by (auto simp: cspaces_def demo_get_tcb demo_tcb_def split: if_splits)
  then have "RCNode i \<in> demo_objects" if "i \<in> cspaces (demo x)" for i
    using that by (auto simp: demo_objects_def)
  ultimately have "no_dangling (demo x)"
    unfolding no_dangling_def using demo_object_exists by blast
  with demo_wf [OF assms] demo_threads [OF assms] show ?thesis by (simp add: kernel_inv_def)
qed

lemma demo_running: "demo_ok x \<Longrightarrow> running (TcbId 0) (demo x)"
  using demo_inv by (simp add: running_def demo_def)

text \<open>Registers for one system call of the demo.\<close>

definition regs :: "usize \<Rightarrow> u32 \<Rightarrow> u8 \<Rightarrow> usize \<Rightarrow> usize \<Rightarrow> usize \<Rightarrow> usize \<Rightarrow> toy_frame" where
  "regs n label extra m0 m1 m2 m3 =
     \<lparr>tf_number = n, tf_tag = \<lparr>tag_label = label, tag_length = 0, tag_extra_caps = extra, tag_flags = 0\<rparr>,
      tf_mr = (\<lambda>_. 0)(0 := m0, 1 := m1, 2 := m2, 3 := m3), tf_raw = (\<lambda>_. 0)\<rparr>"

lemma boot_inv:
  assumes "4096 dvd unat base" and "unat base + 131072 < 2 ^ 64"
  shows "kernel_inv (kernel_state_new base hw)"
proof -
  let ?s = "kernel_state_new base hw"
  have gets: "get_tcb ?s t = None" "slot_cap ?s i j = None" "current_of ?s = None" for t i j
    by (simp_all add: kernel_state_new_def pool_get_new slot_cap_def scheduler_new_def)
  have list: "wait_list ?s p = []" for p
    by (cases p) (simp_all add: kernel_state_new_def pool_get_new scheduler_new_def aq.elems_empty)
  have sig: "tv_signals (threads_of ?s) n = 0" for n
    by (simp add: threads_of_def kernel_state_new_def pool_get_new)
  have "state_wf ?s"
    using assms by (simp add: state_wf_def kernel_state_new_def pool_wf_new pool_all_def pool_get_new
        kpt_wf_def kpt_new_def scheduler_new_def queue_wf_new)
  moreover have "threads_ok (threads_of ?s)"
    by (simp add: threads_ok_def queued_once_def one_running_def replies_ok_def rendezvous_ok_def
        signals_ok_def gets list sig del: wait_list.simps)
  moreover have "no_dangling ?s"
    by (simp add: no_dangling_def caps_of_def stored_caps_def flight_caps_def cspaces_def gets)
  ultimately show ?thesis by (simp add: kernel_inv_def)
qed

text \<open>
  The demo before its first thread is entered: thread 0 configured but never run, thread 1 in
  the state given.
\<close>

definition demo_boot :: "thread_state \<Rightarrow> (16 word, toy_hw) kernel_state" where
  "demo_boot x = set_current (set_thread_state (demo x) (TcbId 0) Inactive) None"

lemma demo_boot_view:
  "threads_of (demo_boot x) = (threads_of (demo x))
     \<lparr>tv_state := (tv_state (threads_of (demo x)))(TcbId 0 \<mapsto> Inactive), tv_current := None\<rparr>"
proof -
  have "get_tcb (demo x) (TcbId 0) \<noteq> None" by (simp only: demo_get_tcb) simp
  from threads_of_set_state [OF this, of Inactive] show ?thesis by (simp add: demo_boot_def observe)
qed

lemma demo_boot_inv:
  assumes "demo_ok x"
  shows "kernel_inv (demo_boot x)"
proof -
  let ?v = "threads_of (demo x)"
  note view = demo_boot_view [of x]
  have ok: "threads_ok ?v" using assms by (rule demo_threads)
  have cur: "tv_current ?v = Some (TcbId 0)" by (simp add: demo_def)
  have zero: "tv_state ?v (TcbId 0) = Some Running"
    by (simp only: threads_of_simps demo_get_tcb) (simp add: demo_tcb_def)
  have rep: "replies_ok ?v" using ok by (simp add: threads_ok_def)
  have "threads_ok (threads_of (demo_boot x))"
    unfolding view threads_ok_def
  proof (intro conjI)
    show "queued_once (?v\<lparr>tv_state := (tv_state ?v)(TcbId 0 \<mapsto> Inactive), tv_current := None\<rparr>)"
      using ok zero by (auto simp: threads_ok_def queued_once_def simp del: threads_of_simps)
    show "one_running (?v\<lparr>tv_state := (tv_state ?v)(TcbId 0 \<mapsto> Inactive), tv_current := None\<rparr>)"
      using ok cur by (auto simp: threads_ok_def one_running_def simp del: threads_of_simps)
    show "replies_ok (?v\<lparr>tv_state := (tv_state ?v)(TcbId 0 \<mapsto> Inactive), tv_current := None\<rparr>)"
      using rep zero unfolding replies_ok_def by (fastforce simp del: threads_of_simps)
  qed (use ok in \<open>simp_all add: threads_ok_def rendezvous_ok_def signals_ok_def del: threads_of_simps\<close>)
  moreover have "state_wf (demo_boot x)" using demo_wf [OF assms] by (simp add: demo_boot_def wf_rules)
  moreover have "quiet (demo x) (demo_boot x)" unfolding demo_boot_def by (intro quiet_rules) auto
  then have "no_dangling (demo_boot x)"
    using no_dangling_step [OF quiet_authority] demo_inv [OF assms] by (auto simp: kernel_inv_def)
  ultimately show ?thesis by (simp add: kernel_inv_def)
qed

definition demo_started :: "thread_state \<Rightarrow> (16 word, toy_hw) kernel_state" where
  "demo_started x = fst (enter_first_thread toy (demo_boot x) (TcbId 0))"

lemma demo_startable: "startable (demo_boot x) (TcbId 0)"
proof -
  have "tv_state (threads_of (demo_boot x)) (TcbId 0) = Some Inactive" by (simp only: demo_boot_view) simp
  then obtain tcb where "get_tcb (demo_boot x) (TcbId 0) = Some tcb" "tcb_state tcb = Inactive" by auto
  moreover have "current_of (demo_boot x) = None" by (simp add: demo_boot_def)
  ultimately show ?thesis by (simp add: startable_def)
qed

lemma demo_reachable: "demo_ok x \<Longrightarrow> reachable toy (demo_started x)"
  unfolding demo_started_def by (rule reachable.Start [OF demo_boot_inv demo_startable])

lemma demo_started_view:
  assumes "demo_ok x"
  shows "threads_of (demo_started x) = (shift (threads_of (demo_boot x)) (TcbId 0) Running)\<lparr>tv_current := Some (TcbId 0)\<rparr>"
  unfolding demo_started_def by (rule enter_first_thread_view(1) [OF demo_boot_inv [OF assms] demo_startable])

lemma demo_started_state:
  assumes "demo_ok x"
  shows "map_option tcb_state (get_tcb (demo_started x) (TcbId 1)) = Some x"
    and "Option.bind (get_tcb (demo_started x) (TcbId 0)) tcb_reply_to = (case x of BlockedReply _ \<Rightarrow> Some (TcbId 1) | _ \<Rightarrow> None)"
proof -
  have v: "tv_state (threads_of (demo_started x)) (TcbId 1) = tv_state (threads_of (demo x)) (TcbId 1)"
    "tv_reply (threads_of (demo_started x)) (TcbId 0) = tv_reply (threads_of (demo x)) (TcbId 0)"
    by (simp_all only: demo_started_view [OF assms] demo_boot_view) simp_all
  have "tv_state (threads_of (demo x)) (TcbId 1) = Some x"
    "tv_reply (threads_of (demo x)) (TcbId 0) = (case x of BlockedReply _ \<Rightarrow> Some (TcbId 1) | _ \<Rightarrow> None)"
    by (simp_all only: threads_of_simps demo_get_tcb) (simp_all add: demo_tcb_def)
  with v show "map_option tcb_state (get_tcb (demo_started x) (TcbId 1)) = Some x"
    and "Option.bind (get_tcb (demo_started x) (TcbId 0)) tcb_reply_to = (case x of BlockedReply _ \<Rightarrow> Some (TcbId 1) | _ \<Rightarrow> None)"
    by simp_all
qed

text \<open>Every trap of the demo returns.\<close>

lemma demo_dispatch:
  assumes "demo_ok x"
  obtains s' f' where "dispatch toy (demo x) f = Some (s', f')" and "kernel_inv s'"
  using dispatch_inv [OF toy_laws demo_inv [OF assms], of f] by blast

lemma demo_current [simp]: "current_of (demo x) = Some (TcbId 0)"
  by (simp add: demo_def)

text \<open>What thread 0 of the demo names, and two system calls of the demo.\<close>

lemma demo_lookup:
  "lookup_cap (demo x) (TcbId 0) p = (case cnode_get demo_cnode p of
     None \<Rightarrow> Inl InvalidCapability | Some k \<Rightarrow> if k = Null then Inl InvalidCapability else Inr k)"
proof -
  have "get_tcb (demo x) (TcbId 0) = Some (demo_tcb Running (case x of BlockedReply _ \<Rightarrow> Some (TcbId 1) | _ \<Rightarrow> None))"
    by (simp only: demo_get_tcb) simp
  moreover have "pool_get (ks_cnodes (demo x)) (cnode_ix (CNodeId 0)) = Some demo_cnode" by (simp add: demo_def demo_pools)
  ultimately show ?thesis by (simp add: lookup_cap_def demo_tcb_def)
qed

lemma demo_held:
  "lookup_cap (demo x) (TcbId 0) 1 = Inr (EndpointCap (EndpointId 0) 7 rights_ALL)"
  "lookup_cap (demo x) (TcbId 0) 2 = Inr (NotificationCap (NotificationId 0) 5 rights_ALL)"
  "lookup_cap (demo x) (TcbId 0) 3 = Inr (UntypedCap (UntypedId 0) rights_ALL)"
  "lookup_cap (demo x) (TcbId 0) 4 = Inr (VSpaceCap (VSpaceId 0) rights_ALL)"
  "lookup_cap (demo x) (TcbId 0) 5 = Inr (FrameCap (FrameId 0) rights_ALL)"
  "lookup_cap (demo x) (TcbId 0) 6 = Inr (CNodeCap (CNodeId 0))"
  "lookup_cap (demo x) (TcbId 0) 7 = Inr (TcbCap (TcbId 1) rights_ALL)"
  "lookup_cap (demo x) (TcbId 0) 8 = Inr (SchedContextCap (SchedContextId 0) rights_ALL)"
  by (simp_all add: demo_lookup demo_cnode_def cnode_get_def)

lemma rights_ALL_contains: "contains rights_ALL rights_READ" "contains rights_ALL rights_WRITE" "contains rights_ALL rights_GRANT"
  by (simp_all add: contains_def rights_values)

lemma demo_transfer:
  "\<exists>s' f'. dispatch toy (demo (BlockedRecv (EndpointId 0) (Some 20))) (regs 1 0 1 1 2 12 13) = Some (s', f')
     \<and> slot_cap s' (CNodeId 0) 20 = Some (NotificationCap (NotificationId 0) 5 rights_ALL)"
proof -
  let ?x = "BlockedRecv (EndpointId 0) (Some 20)" and ?k = "NotificationCap (NotificationId 0) 5 rights_ALL"
  let ?s = "demo ?x" and ?f = "regs 1 0 1 1 2 12 13"
  have run: "running (TcbId 0) ?s" by (rule demo_running) simp
  have f: "h_syscall_number toy ?f = 1" "h_mr toy ?f 0 = 1" "h_mr toy ?f 1 = 2" "tag_extra_caps (h_tag toy ?f) = 1"
    "tag_length (h_tag toy ?f) = 0" by (simp_all add: toy_def regs_def)
  have cap: "lookup_cap ?s (TcbId 0) 1 = Inr (EndpointCap (EndpointId 0) 7 rights_ALL)"
    and k: "lookup_cap ?s (TcbId 0) 2 = Inr ?k"
    by (simp_all add: demo_lookup demo_cnode_def cnode_get_def)
  have w: "contains rights_ALL rights_WRITE" "contains rights_ALL rights_GRANT"
    by (simp_all add: contains_def rights_values)
  have tag: "require_fast_path_only (h_tag toy ?f) = Inr ()" by (simp add: require_fast_path_only_def f)
  have extra: "extract_extra_cap toy ?s (TcbId 0) ?f (h_tag toy ?f) = Inr (Some ?k)"
    using f k w by (simp add: extract_extra_cap_def resolve_transferable_cap_def)
  have wl: "wait_list ?s (PRecv (EndpointId 0)) = [TcbId 1]"
    by (simp add: demo_wait_list del: wait_list.simps)
  have t: "get_tcb ?s (TcbId 1) = Some (demo_tcb ?x None)" by (simp only: demo_get_tcb) simp
  have c: "pool_get (ks_cnodes ?s) (cnode_ix (CNodeId 0)) = Some demo_cnode" by (simp add: demo_def demo_pools)
  have empty: "cnode_get demo_cnode 20 = Some Null" by (simp add: demo_cnode_def cnode_get_def CNODE_SLOTS_def)
  let ?s1 = "?s\<lparr>ks_cnodes := pool_modify (ks_cnodes ?s) (cnode_ix (CNodeId 0)) (\<lambda>c. cnode_put c 20 ?k)\<rparr>"
  have off: "offer_cap ?s (TcbId 1) (blocked_receiver_dest_slot ?s (TcbId 1)) (Some ?k) = Inr ?s1"
    using t c empty by (simp add: offer_cap_def blocked_receiver_dest_slot_def place_transferred_cap_def demo_tcb_def)
  have "slot_cap ?s (CNodeId 0) 20 = Some Null" by (simp add: demo_slot_cap empty)
  then have "slot_cap ?s1 (CNodeId 0) 20 = Some ?k" by (simp only: slot_cap_put) simp
  moreover obtain s' where "send toy ?s (TcbId 0) 1 ?f False = Ok s' (reply_success toy ?f)" "slot_cap s' = slot_cap ?s1"
    using send_meets [OF run cap w(1) tag extra wl off, of False] by blast
  ultimately show ?thesis using f
    by (simp add: dispatch_def syscall_from_usize_def run_syscall_def)
qed

lemma demo_yield:
  "\<exists>s' f'. dispatch toy (demo Ready) (regs 12 0 0 0 m1 m2 m3) = Some (s', f') \<and> current_of s' = Some (TcbId 1)"
proof -
  have inv: "kernel_inv (demo Ready)" by (rule demo_inv) simp
  have ring: "ring (demo Ready) = [TcbId 0, TcbId 1]"
    by (simp add: ring_def demo_wait_list del: wait_list.simps)
  have "h_syscall_number toy (regs 12 0 0 0 m1 m2 m3) = 12" by (simp add: toy_def regs_def)
  from yield_rotates [OF toy_laws inv demo_current this]
  obtain s' f' where "dispatch toy (demo Ready) (regs 12 0 0 0 m1 m2 m3) = Some (s', f')" and "ring s' = [TcbId 1, TcbId 0]"
    unfolding ring by auto
  then show ?thesis by (auto simp: ring_def split: option.splits)
qed

lemma demo_memory: "memory_ok (demo x)"
proof -
  have F: "frame_span (demo x) i = Some a \<Longrightarrow> i = FrameId 0 \<and> a = (8192, 12288)" for i a
    by (cases i) (auto simp: frame_span_def demo_def demo_pools demo_frame_def split: if_splits)
  have U: "free_span (demo x) u = Some a \<Longrightarrow> u = UntypedId 0 \<and> a = (65536, 16777216)" for u a
    by (cases u) (auto simp: free_span_def ut_cursor_def ut_limit_def demo_def demo_pools split: if_splits)
  show ?thesis unfolding memory_ok_def apart_def by (auto dest!: F U)
qed

text \<open>The Untyped of the demo has room for one more object.\<close>

lemma demo_untyped:
  "pool_get (ks_untypeds (demo x)) (untyped_ix (UntypedId 0)) = Some \<lparr>ut_remaining = 4, ut_memory = Some (65536, 16777216)\<rparr>"
  by (simp add: demo_def demo_pools)

lemma demo_untyped_alloc:
  "untyped_frame_alloc \<lparr>ut_remaining = 4, ut_memory = Some (65536, 16777216)\<rparr> Small
     = Some (65536, \<lparr>ut_remaining = 4, ut_memory = Some (69632, 16777216)\<rparr>)"
  by (simp add: untyped_frame_alloc_def untyped_bump_def checked_add_def Let_def)

lemma demo_retypes:
  assumes "h_mr toy f 1 = 7" and "h_mr toy f 2 = 20"
  shows "\<exists>s' f'. untyped_retype toy (demo x) (TcbId 0) 3 f = Ok s' f'"
proof -
  have tcb: "Option.bind (get_tcb (demo x) (TcbId 0)) tcb_cspace = Some (CNodeId 0)"
    by (simp only: demo_get_tcb) (simp add: demo_tcb_def)
  have c: "pool_get (ks_cnodes (demo x)) (cnode_ix (CNodeId 0)) = Some demo_cnode" by (simp add: demo_def demo_pools)
  have empty: "cnode_get demo_cnode 20 = Some Null" by (simp add: demo_cnode_def cnode_get_def CNODE_SLOTS_def)
  have bump: "untyped_bump \<lparr>ut_remaining = 4, ut_memory = Some (65536, 16777216)\<rparr> 4096 4096
      = Some (Some 65536, \<lparr>ut_remaining = 4, ut_memory = Some (69632, 16777216)\<rparr>)"
    by (simp add: untyped_bump_def checked_add_def Let_def)
  have sz: "h_page_size toy = 4096" by (simp add: toy_def)
  obtain idx p where al: "pool_alloc (ks_frames (demo x)) \<lparr>fr_paddr = 65536, fr_size = Small,
      fr_mapped_at = replicate MAX_FRAME_MAPPINGS None\<rparr> = Some (idx, p)"
    by (auto simp: demo_def fill_def pool_alloc_def pool_is_full_def MAX_FRAMES_def numeral_eq_Suc)
  have "object_type_from_usize (h_mr toy f 1) = Some OT_FrameSmall" using assms by (simp add: object_type_from_usize_def)
  then show ?thesis
    using al tcb c empty demo_untyped bump assms rights_ALL_contains(2)
    by (auto simp: untyped_retype_def demo_held retype_object_def retype_commit_def Let_def sz)
qed

text \<open>The demo with every VSpace and every Frame in use.\<close>

definition demo_full :: "(16 word, toy_hw) kernel_state" where
  "demo_full = (demo Ready)\<lparr>ks_vspaces := fill MAX_VSPACES (replicate MAX_VSPACES \<lparr>vs_root = 2147483648\<rparr>),
     ks_frames := fill MAX_FRAMES (replicate MAX_FRAMES demo_frame)\<rparr>"

lemma demo_full_fields:
  "ks_tcbs demo_full = ks_tcbs (demo Ready)" "ks_cnodes demo_full = ks_cnodes (demo Ready)"
  "ks_untypeds demo_full = ks_untypeds (demo Ready)" "ks_page_tables demo_full = ks_page_tables (demo Ready)"
  by (simp_all add: demo_full_def)

lemma demo_full_used: "kpt_used (ks_page_tables demo_full) = 1"
  by (simp add: demo_full_fields) (simp add: demo_def kpt_used_def)

lemma demo_full_pool:
  "pool_alloc (ks_vspaces demo_full) = (\<lambda>_. None)" "pool_alloc (ks_frames demo_full) = (\<lambda>_. None)"
  by (simp_all add: demo_full_def fill_def pool_alloc_def pool_is_full_def fun_eq_iff)

lemma demo_full_running: "running (TcbId 0) demo_full"
proof -
  have view: "threads_of demo_full = threads_of (demo Ready)" by (rule threads_of_cong) (simp_all add: demo_full_def)
  have "frame_wf demo_frame" by (simp add: frame_wf_def demo_frame_def MAX_FRAME_MAPPINGS_def)
  then have "state_wf demo_full"
    using demo_wf [of Ready] by (simp add: state_wf_def demo_full_def fill_wf pool_all_def fill_get)
  moreover have "no_dangling demo_full"
  proof -
    have "object_exists demo_full r" if "object_exists (demo Ready) r" for r
      using that by (cases r) (auto simp: demo_full_def demo_def demo_pools fill_get split: if_splits)
    moreover have "caps_of demo_full = caps_of (demo Ready)" "cspaces demo_full = cspaces (demo Ready)"
      using view by (intro caps_of_cong cspaces_cong; simp add: demo_full_fields)+
    ultimately show ?thesis using demo_inv [of Ready] by (simp add: kernel_inv_def no_dangling_def demo_full_fields)
  qed
  moreover have "current_of demo_full = Some (TcbId 0)" by (simp add: demo_full_def)
  ultimately show ?thesis using demo_threads [of Ready] view by (simp add: running_def kernel_inv_def)
qed

text \<open>The Frame of the demo can be mapped in its VSpace.\<close>

lemma demo_frame_get: "pool_get (ks_frames (demo x)) (frame_ix (FrameId 0)) = Some demo_frame"
  by (simp add: demo_def demo_pools)

lemma demo_maps:
  assumes f: "tag_label (h_tag toy f) = LABEL_MAP" "h_mr toy f 1 = 4" "h_mr toy f 2 = 65536"
  shows "\<exists>s' f'. frame_invoke toy (demo x) (TcbId 0) 5 f = Ok s' f'"
proof -
  have vid: "resolve_vspace (demo x) (TcbId 0) 4 = Inr (VSpaceId 0)"
    by (simp add: resolve_vspace_def demo_held rights_ALL_contains)
  have v: "pool_get (ks_vspaces (demo x)) (vspace_ix (VSpaceId 0)) = Some \<lparr>vs_root = 2147483648\<rparr>"
    by (simp add: demo_def demo_pools)
  have tr: "h_translate toy (ks_hw (demo x)) 2147483648 65536 = None" by (simp add: toy_def demo_def toy_boot_def)
  obtain hw where hw: "h_map_page toy (ks_hw (demo x)) 2147483648 65536 8192 (to_pte_flags toy (h_mr toy f 3))
      [2147487744, 2147491840] = (hw, 2)" by (simp add: toy_def demo_def toy_boot_def toy_walk_def)
  have "take_spares toy (Suc (Suc 0)) (ks_page_tables (demo x))
      = (Inr [2147487744, 2147491840], \<lparr>kpt_base = 2147483648, kpt_next = 12288\<rparr>)"
    by (simp add: demo_def kpt_alloc_def kpt_bytes_len_def toy_def MAX_KERNEL_PAGE_TABLES_def checked_add_def)
  then have sp: "take_spares toy 2 (ks_page_tables (demo x))
      = (Inr [2147487744, 2147491840], \<lparr>kpt_base = 2147483648, kpt_next = 12288\<rparr>)" by (simp only: numeral_2_eq_2)
  have rel: "kpt_release_last toy \<lparr>kpt_base = 2147483648, kpt_next = 12288\<rparr> 0 \<noteq> None"
    by (simp add: kpt_release_last_def toy_def)
  then obtain k where rel: "kpt_release_last toy \<lparr>kpt_base = 2147483648, kpt_next = 12288\<rparr> 0 = Some k" by blast
  have al: "(65536 :: usize) mod frame_size_bytes toy Small = 0" by (simp add: toy_def)
  have "\<exists>s'. frame_map toy (demo x) (TcbId 0) (FrameId 0) f = Ok s' f"
    unfolding frame_map_def Let_def f vid demo_frame_get demo_frame_def ok_or_simps sum.case frame.select_convs
    using v tr al sp rel hw by (auto simp: max_new_tables_def split: prod.split)
  then show ?thesis using f(1) by (auto simp: frame_invoke_def demo_held rights_ALL_contains)
qed

text \<open>The demo with its Frame mapped twice.\<close>

definition shared_frame :: frame where
  "shared_frame = demo_frame\<lparr>fr_mapped_at := [Some (VSpaceId 0, 65536), Some (VSpaceId 0, 69632)]\<rparr>"

definition demo_shared :: "(16 word, toy_hw) kernel_state" where
  "demo_shared = (demo Ready)\<lparr>ks_frames := fill MAX_FRAMES [shared_frame]\<rparr>"

lemma demo_shared_fields:
  "ks_tcbs demo_shared = ks_tcbs (demo Ready)" "ks_cnodes demo_shared = ks_cnodes (demo Ready)"
  by (simp_all add: demo_shared_def)

lemma demo_shared_frame: "pool_get (ks_frames demo_shared) (frame_ix (FrameId 0)) = Some shared_frame"
  by (simp add: demo_shared_def demo_pools)

lemma demo_shared_running: "running (TcbId 0) demo_shared"
proof -
  have view: "threads_of demo_shared = threads_of (demo Ready)" by (rule threads_of_cong) (simp_all add: demo_shared_def)
  have "state_wf demo_shared"
    using demo_wf [of Ready] by (simp add: state_wf_def demo_shared_def fill_wf Suc_leI demo_pools pool_all_def
        frame_wf_def shared_frame_def demo_frame_def MAX_FRAME_MAPPINGS_def split: if_splits)
  moreover have "no_dangling demo_shared"
  proof -
    have "object_exists demo_shared r" if "object_exists (demo Ready) r" for r
      using that by (cases r) (auto simp: demo_shared_def demo_def demo_pools split: if_splits)
    moreover have "caps_of demo_shared = caps_of (demo Ready)" "cspaces demo_shared = cspaces (demo Ready)"
      using view by (intro caps_of_cong cspaces_cong; simp add: demo_shared_fields)+
    ultimately show ?thesis using demo_inv [of Ready] by (simp add: kernel_inv_def no_dangling_def demo_shared_fields)
  qed
  moreover have "current_of demo_shared = Some (TcbId 0)" by (simp add: demo_shared_def)
  ultimately show ?thesis using demo_threads [of Ready] view by (simp add: running_def kernel_inv_def)
qed

lemma demo_links: "links_ok (demo x)"
proof -
  have "frame_links_ok (demo x) fr" if "pool_get (ks_frames (demo x)) i = Some fr" for i fr
    using that by (simp add: frame_links_ok_def) (auto simp: demo_def demo_pools demo_frame_def split: if_splits)
  moreover have "tcb_links_ok (demo x) y" if "get_tcb (demo x) t = Some y" for t y
    using that by (auto simp only: demo_get_tcb split: if_splits) (simp_all add: tcb_links_ok_def demo_tcb_def)
  ultimately show ?thesis by (simp add: links_ok_def)
qed

lemma demo_census: "objects (demo x) = 8" "budget_left (demo x) = 4"
  by (simp_all add: objects_def pool_budget_def slot_budget_def demo_def fill_def limits)

end
