(* ===== verification/IpcProps.thy ===== *)
theory IpcProps
  imports Instance
begin

text \<open>
  The properties of the IPC operations, at the trap: what \<open>Send\<close>, \<open>Recv\<close>, \<open>Call\<close> and \<open>Reply\<close>
  deliver and where every thread is afterwards, a whole remote procedure call, and the
  notifications. Each is followed by its application to the demo system of \<open>Instance\<close>.
\<close>

section \<open>Endpoints\<close>

text \<open>
  C22. A \<open>Send\<close> or \<open>NBSend\<close> with a receiver waiting delivers the message at once: the receiver
  that waited longest finds the badge of the sender's capability, the three message words and
  the sender's tag in its saved registers and is last in the ready queue; the sender runs on
  with a success reply.
\<close>

theorem send_delivers:
  assumes laws: "frame_laws H" and run: "running c s"
    and num: "h_syscall_number H f = 1 \<or> h_syscall_number H f = 2"
    and cap: "lookup_cap s c (h_mr H f 0) = Inr (EndpointCap e b r)" "contains r rights_WRITE"
    and plain: "plain H f" and wl: "wait_list s (PRecv e) = t # ts"
  shows "\<exists>s' f' y. dispatch H s f = Some (s', f') \<and> current_of s' = Some c \<and> \<not> tag_is_error H (h_tag H f')
     \<and> wait_list s' = (wait_list s)(PRecv e := ts, PReady := wait_list s PReady @ [t])
     \<and> get_tcb s' t = Some y \<and> tcb_state y = Ready
     \<and> has_message y b (h_mr H f 1, h_mr H f 2, h_mr H f 3) (h_tag H f)"
proof -
  note R = runningD [OF run] and P = plain_tag [OF plain]
  let ?nb = "h_syscall_number H f = 2"
  obtain s' y where ok: "send H s c (h_mr H f 0) f ?nb = Ok s' (reply_success H f)"
    and v: "threads_of s' = shift (threads_of s) t Ready"
    and y: "get_tcb s' t = Some y" "tcb_state y = Ready" "has_message y b (h_mr H f 1, h_mr H f 2, h_mr H f 3) (h_tag H f)"
    using send_meets [OF run cap P(1,3) wl offer_none, of ?nb] P(5) by auto
  have "dispatch H s f = Some (s', reply_success H f)"
    using num
  proof
    assume "h_syscall_number H f = 1"
    then show ?thesis using ok by (intro dispatch_Ok [OF run, where n = SysSend]) (simp_all add: syscall_numbers run_syscall_simps)
  next
    assume "h_syscall_number H f = 2"
    then show ?thesis using ok by (intro dispatch_Ok [OF run, where n = SysNBSend]) (simp_all add: syscall_numbers run_syscall_simps)
  qed
  moreover have "wait_list s' = (wait_list s)(PRecv e := ts, PReady := wait_list s PReady @ [t])" "current_of s' = Some c"
    using shift_queues [OF v R(3) wl] R(5) by simp_all
  ultimately show ?thesis using y reply_success_tag(1) [OF laws, of f] by blast
qed

theorem send_delivers_witness:
  "\<exists>s' f' y. dispatch toy (demo (BlockedRecv (EndpointId 0) None)) (regs 1 3 0 1 11 12 13) = Some (s', f')
     \<and> current_of s' = Some (TcbId 0) \<and> get_tcb s' (TcbId 1) = Some y \<and> tcb_state y = Ready
     \<and> ctx_mr (tcb_context y) 0 = 7 \<and> ctx_mr (tcb_context y) 1 = 11"
proof -
  let ?x = "BlockedRecv (EndpointId 0) None" and ?f = "regs 1 3 0 1 11 12 13"
  have run: "running (TcbId 0) (demo ?x)" by (rule demo_running) simp
  have wl: "wait_list (demo ?x) (PRecv (EndpointId 0)) = [TcbId 1]" by (simp add: demo_wait_list del: wait_list.simps)
  have f: "h_syscall_number toy ?f = 1 \<or> h_syscall_number toy ?f = 2" "h_mr toy ?f 0 = 1" "h_mr toy ?f 1 = 11" "plain toy ?f"
    by (simp_all add: toy_def regs_def plain_def)
  have cap: "lookup_cap (demo ?x) (TcbId 0) (h_mr toy ?f 0) = Inr (EndpointCap (EndpointId 0) 7 rights_ALL)"
    unfolding f(2) by (rule demo_held)
  from send_delivers [OF toy_laws(1) run f(1) cap rights_ALL_contains(2) f(4) wl] f(3) show ?thesis
    by (auto simp: has_message_def)
qed

text \<open>
  C23. A capability sent with \<open>GRANT\<close> to a receiver that named a slot for it arrives in that
  slot of the receiver's own CNode, unchanged; no other slot of any CNode changes, and message
  word 1, which named it, is delivered as zero.
\<close>

theorem send_transfers:
  assumes laws: "frame_laws H" and run: "running c s" and num: "h_syscall_number H f = 1"
    and cap: "lookup_cap s c (h_mr H f 0) = Inr (EndpointCap e b r)" "contains r rights_WRITE"
    and carries: "carries H f" and k: "lookup_cap s c (h_mr H f 1) = Inr k" "contains (cap_rights k) rights_GRANT"
    and wl: "wait_list s (PRecv e) = t # ts"
    and t: "get_tcb s t = Some x" "tcb_state x = BlockedRecv e (Some d)" "tcb_cspace x = Some i"
    and empty: "slot_cap s i d = Some Null"
  shows "\<exists>s' f' y. dispatch H s f = Some (s', f') \<and> slot_cap s' i d = Some k
     \<and> (\<forall>i' j. (i', j) \<noteq> (i, d) \<longrightarrow> slot_cap s' i' j = slot_cap s i' j)
     \<and> get_tcb s' t = Some y \<and> tcb_state y = Ready \<and> has_message y b (0, h_mr H f 2, h_mr H f 3) (h_tag H f)"
proof -
  note C = carries_tag [OF carries k]
  obtain cn where cn: "pool_get (ks_cnodes s) (cnode_ix i) = Some cn" "cnode_get cn d = Some Null"
    using empty by (auto simp: slot_cap_def bind_eq_Some_conv)
  define s1 where "s1 = s\<lparr>ks_cnodes := pool_modify (ks_cnodes s) (cnode_ix i) (\<lambda>c. cnode_put c d k)\<rparr>"
  have off: "offer_cap s t (blocked_receiver_dest_slot s t) (Some k) = Inr s1"
    using t cn by (simp add: offer_cap_def blocked_receiver_dest_slot_def place_transferred_cap_def s1_def)
  have slots: "slot_cap s1 i' j = (if i = i' \<and> d = j then Some k else slot_cap s i' j)" for i' j
    unfolding s1_def using empty by (simp add: slot_cap_put)
  obtain s' y where ok: "send H s c (h_mr H f 0) f False = Ok s' (reply_success H f)" and "slot_cap s' = slot_cap s1"
    and y: "get_tcb s' t = Some y" "tcb_state y = Ready" "has_message y b (0, h_mr H f 2, h_mr H f 3) (h_tag H f)"
    using send_meets [OF run cap C(1,2) wl off, of False] C(3) by auto
  moreover have "dispatch H s f = Some (s', reply_success H f)"
    by (rule dispatch_Ok [OF run, where n = SysSend]) (simp_all add: num syscall_numbers run_syscall_simps ok)
  ultimately show ?thesis using slots by auto
qed

theorem send_transfers_witness:
  "\<exists>s' f'. dispatch toy (demo (BlockedRecv (EndpointId 0) (Some 20))) (regs 1 0 1 1 2 12 13) = Some (s', f')
     \<and> slot_cap s' (CNodeId 0) 20 = Some (NotificationCap (NotificationId 0) 5 rights_ALL)"
proof -
  let ?x = "BlockedRecv (EndpointId 0) (Some 20)" and ?f = "regs 1 0 1 1 2 12 13"
  have run: "running (TcbId 0) (demo ?x)" by (rule demo_running) simp
  have wl: "wait_list (demo ?x) (PRecv (EndpointId 0)) = [TcbId 1]" by (simp add: demo_wait_list del: wait_list.simps)
  have f: "h_syscall_number toy ?f = 1" "h_mr toy ?f 0 = 1" "h_mr toy ?f 1 = 2" "carries toy ?f"
    by (simp_all add: toy_def regs_def carries_def)
  have cap: "lookup_cap (demo ?x) (TcbId 0) (h_mr toy ?f 0) = Inr (EndpointCap (EndpointId 0) 7 rights_ALL)"
    and k: "lookup_cap (demo ?x) (TcbId 0) (h_mr toy ?f 1) = Inr (NotificationCap (NotificationId 0) 5 rights_ALL)"
    unfolding f(2,3) by (rule demo_held)+
  have t: "get_tcb (demo ?x) (TcbId 1) = Some (demo_tcb ?x None)" by (simp only: demo_get_tcb) simp
  have empty: "slot_cap (demo ?x) (CNodeId 0) 20 = Some Null"
    by (simp add: demo_slot_cap demo_cnode_def cnode_get_def CNODE_SLOTS_def)
  from send_transfers [OF toy_laws(1) run f(1) cap rights_ALL_contains(2) f(4) k _ wl t _ _ empty] show ?thesis
    by (auto simp: demo_tcb_def rights_ALL_contains)
qed

text \<open>
  C24. A \<open>Send\<close> with no receiver waiting blocks the sender: it is last among the endpoint's
  senders, its badge is kept with it and its registers, message included, are saved; the head
  of the ready queue runs.
\<close>

theorem send_blocks:
  assumes laws: "frame_laws H" and run: "running c s" and num: "h_syscall_number H f = 1"
    and cap: "lookup_cap s c (h_mr H f 0) = Inr (EndpointCap e b r)" "contains r rights_WRITE"
    and plain: "plain H f" and none: "wait_list s (PRecv e) = []" and rd: "wait_list s PReady = u # us"
  shows "\<exists>s' f' y. dispatch H s f = Some (s', f') \<and> current_of s' = Some u
     \<and> wait_list s' = (wait_list s)(PSend e := wait_list s (PSend e) @ [c], PReady := us)
     \<and> get_tcb s' c = Some y \<and> tcb_state y = BlockedSend e b False None None \<and> tcb_context y = save_from H f"
proof -
  note R = runningD [OF run] and P = plain_tag [OF plain]
  obtain ep where ep: "pool_get (ks_endpoints s) (endpoint_ix e) = Some ep" by (rule endpoint_alive [OF run cap(1)])
  let ?q = "case ep_queue ep of QSend q \<Rightarrow> q | _ \<Rightarrow> aq_new MAX_TCBS" and ?x = "BlockedSend e b False None None"
  have q: "ep_queue ep = QEmpty \<and> ?q = aq_new MAX_TCBS \<or> ep_queue ep = QSend ?q"
    using no_receiver [OF run ep none] by (cases "ep_queue ep") auto
  obtain s' f' where blk: "block_on_endpoint H s f c e QSend ?q ?x = Ok s' f'" and gave: "gave_way H s c f ?x u s'"
    using block_meets [where side = QSend and p = "PSend e" and x = ?x and f = f, OF laws run ep _ q _ _ rd] by auto
  have "send H s c (h_mr H f 0) f False = Ok s' f'"
    using cap P ep blk no_receiver [OF run ep none]
    by (cases "ep_queue ep") (auto simp: send_def resolve_endpoint_def Let_def)
  then have d: "dispatch H s f = Some (s', f')"
    by (intro dispatch_Ok [OF run, where n = SysSend]) (simp_all add: num syscall_numbers run_syscall_simps)
  from gave_way_observed [OF run gave _ _ rd, of "PSend e"] d show ?thesis by (auto simp del: wait_list.simps)
qed

theorem send_blocks_witness:
  "\<exists>s' f' y. dispatch toy (demo Ready) (regs 1 3 0 1 11 12 13) = Some (s', f') \<and> current_of s' = Some (TcbId 1)
     \<and> get_tcb s' (TcbId 0) = Some y \<and> tcb_state y = BlockedSend (EndpointId 0) 7 False None None"
proof -
  let ?f = "regs 1 3 0 1 11 12 13"
  have run: "running (TcbId 0) (demo Ready)" by (rule demo_running) simp
  have wl: "wait_list (demo Ready) (PRecv (EndpointId 0)) = []" "wait_list (demo Ready) PReady = [TcbId 1]"
    by (simp_all add: demo_wait_list del: wait_list.simps)
  have f: "h_syscall_number toy ?f = 1" "h_mr toy ?f 0 = 1" "plain toy ?f"
    by (simp_all add: toy_def regs_def plain_def)
  have cap: "lookup_cap (demo Ready) (TcbId 0) (h_mr toy ?f 0) = Inr (EndpointCap (EndpointId 0) 7 rights_ALL)"
    unfolding f(2) by (rule demo_held)
  from send_blocks [OF toy_laws(1) run f(1) cap rights_ALL_contains(2) f(3) wl] show ?thesis by blast
qed

text \<open>
  C25. The kernel never blocks its last thread: a \<open>Send\<close>, \<open>Recv\<close>, \<open>Call\<close> or \<open>Wait\<close> that would
  block while no other thread is ready returns \<open>Timeout\<close> and changes nothing; here the \<open>Call\<close>.
\<close>

theorem call_times_out:
  assumes run: "running c s" and num: "h_syscall_number H f = 4"
    and cap: "lookup_cap s c (h_mr H f 0) = Inr (EndpointCap e b r)" "contains r rights_WRITE"
    and plain: "plain H f" and none: "wait_list s (PRecv e) = []" and rd: "wait_list s PReady = []"
  shows "dispatch H s f = Some (s, reply_error H f Timeout)"
proof -
  note P = plain_tag [OF plain]
  obtain ep where ep: "pool_get (ks_endpoints s) (endpoint_ix e) = Some ep" by (rule endpoint_alive [OF run cap(1)])
  have "call H s c (h_mr H f 0) f = Err Timeout s f"
    using cap P ep no_receiver [OF run ep none] block_on_endpoint_timeout [OF run rd]
    by (cases "ep_queue ep") (auto simp: call_def resolve_endpoint_def Let_def)
  then show ?thesis
    by (intro dispatch_Err [OF run, where n = SysCall]) (simp_all add: num syscall_numbers run_syscall_simps)
qed

theorem call_times_out_witness:
  "dispatch toy (demo Inactive) (regs 4 3 0 1 11 12 13) = Some (demo Inactive, reply_error toy (regs 4 3 0 1 11 12 13) Timeout)"
proof -
  let ?f = "regs 4 3 0 1 11 12 13"
  have run: "running (TcbId 0) (demo Inactive)" by (rule demo_running) simp
  have wl: "wait_list (demo Inactive) (PRecv (EndpointId 0)) = []" "wait_list (demo Inactive) PReady = []"
    by (simp_all add: demo_wait_list del: wait_list.simps)
  have f: "h_syscall_number toy ?f = 4" "h_mr toy ?f 0 = 1" "plain toy ?f"
    by (simp_all add: toy_def regs_def plain_def)
  have cap: "lookup_cap (demo Inactive) (TcbId 0) (h_mr toy ?f 0) = Inr (EndpointCap (EndpointId 0) 7 rights_ALL)"
    unfolding f(2) by (rule demo_held)
  show ?thesis by (rule call_times_out [OF run f(1) cap rights_ALL_contains(2) f(3) wl])
qed

text \<open>
  The non-blocking calls never give up the processor: after \<open>NBSend\<close>, \<open>Signal\<close> or
  \<open>Poll\<close>, whatever their outcome, the caller is still the running thread.
\<close>

theorem nonblocking_keeps_running:
  assumes "frame_laws H" and "paging_laws H" and "kernel_inv s" and "current_of s = Some c"
    and "h_syscall_number H f \<in> {2, 6, 8}" and "dispatch H s f = Some (s', f')"
  shows "current_of s' = Some c"
proof -
  have run: "running c s" using assms(3,4) by (simp add: running_def)
  obtain n where n: "syscall_from_usize (h_syscall_number H f) = Some n" "n = SysNBSend \<or> n = SysSignal \<or> n = SysPoll"
    using assms(5) by (auto simp: syscall_numbers)
  have stays: "on_ok (\<lambda>s' f'. current_of s' = current_of s) (run_syscall H s c f n)"
    using n(2) by (auto simp: run_syscall_simps nbsend_stays signal_stays poll_stays)
  show ?thesis
  proof (cases "run_syscall H s c f n")
    case (Ok s1 f1)
    with on_okD [OF stays Ok] assms(4,6) show ?thesis by (simp add: dispatch_run [OF assms(4) n(1)])
  next
    case (Err e s1 f1)
    from arg_cong [OF run_syscall_Err(2) [OF assms(1,2) run Err], of tv_current] Err assms(4,6)
    show ?thesis by (simp add: dispatch_run [OF assms(4) n(1)])
  qed (use assms(6) in \<open>simp add: dispatch_run [OF assms(4) n(1)]\<close>)
qed

theorem nonblocking_keeps_running_witness:
  "\<exists>s' f'. dispatch toy (demo Ready) (regs 2 3 0 1 11 12 13) = Some (s', f') \<and> current_of s' = Some (TcbId 0)"
proof -
  have inv: "kernel_inv (demo Ready)" by (rule demo_inv) simp
  obtain s' f' where d: "dispatch toy (demo Ready) (regs 2 3 0 1 11 12 13) = Some (s', f')"
    by (rule demo_dispatch [of Ready]) simp
  have "h_syscall_number toy (regs 2 3 0 1 11 12 13) \<in> {2, 6, 8}" by (simp add: toy_def regs_def)
  from nonblocking_keeps_running [OF toy_laws inv demo_current this d] d show ?thesis by blast
qed

text \<open>
  A \<open>Call\<close> that registers a slot for a capability in the reply and finds no receiver: it waits
  with that slot number in its state and in its saved message register 1.
\<close>

lemma registering_call_blocks:
  assumes laws: "frame_laws H" and run: "running c s" and num: "h_syscall_number H f = 4"
    and cap: "lookup_cap s c (h_mr H f 0) = Inr (EndpointCap e b r)" "contains r rights_WRITE"
    and tag: "tag_length (h_tag H f) = 0" "tag_extra_caps (h_tag H f) = 2"
    and none: "wait_list s (PRecv e) = []" and rd: "wait_list s PReady = u # us"
  shows "\<exists>s' f' y. dispatch H s f = Some (s', f') \<and> current_of s' = Some u \<and> lookup_cap s' = lookup_cap s
     \<and> wait_list s' = (wait_list s)(PSend e := wait_list s (PSend e) @ [c], PReady := us)
     \<and> get_tcb s' c = Some y \<and> tcb_state y = BlockedSend e b True None (Some (h_mr H f 1)) \<and> tcb_context y = save_from H f"
proof -
  obtain ep where ep: "pool_get (ks_endpoints s) (endpoint_ix e) = Some ep" by (rule endpoint_alive [OF run cap(1)])
  let ?q = "case ep_queue ep of QSend q \<Rightarrow> q | _ \<Rightarrow> aq_new MAX_TCBS" and ?x = "BlockedSend e b True None (Some (h_mr H f 1))"
  have q: "ep_queue ep = QEmpty \<and> ?q = aq_new MAX_TCBS \<or> ep_queue ep = QSend ?q"
    using no_receiver [OF run ep none] by (cases "ep_queue ep") auto
  obtain s' f' where blk: "block_on_endpoint H s f c e QSend ?q ?x = Ok s' f'" and gave: "gave_way H s c f ?x u s'"
    using block_meets [where side = QSend and p = "PSend e" and x = ?x and f = f, OF laws run ep _ q _ _ rd] by auto
  have "require_call_tag (h_tag H f) = Inr ()" "extract_extra_cap H s c f (h_tag H f) = Inr None"
    "call_reply_dest_slot H f (h_tag H f) = Some (h_mr H f 1)"
    using tag by (simp_all add: require_call_tag_def extract_extra_cap_def call_reply_dest_slot_def)
  then have "call H s c (h_mr H f 0) f = Ok s' f'"
    using cap ep blk no_receiver [OF run ep none]
    by (cases "ep_queue ep") (auto simp: call_def resolve_endpoint_def Let_def payload_words_def)
  then have d: "dispatch H s f = Some (s', f')"
    by (intro dispatch_Ok [OF run, where n = SysCall]) (simp_all add: num syscall_numbers run_syscall_simps)
  have "lookup_cap s' = lookup_cap s" by (intro ext) (rule block_on_endpoint_lookup [OF blk])
  with gave_way_observed [OF run gave _ _ rd, of "PSend e"] d show ?thesis by (auto simp del: wait_list.simps)
qed

text \<open>
  C26. A \<open>Recv\<close> with a sender waiting collects the message of the one that waited longest: the
  receiver's registers show that sender's badge and the words saved when it blocked, its tag
  with the error flag cleared; a \<open>Send\<close>er becomes ready, a \<open>Call\<close>er waits for its reply and the
  receiver holds the link to it. Word 1 is the saved one also for a \<open>Call\<close> that registered a
  reply slot (\<open>d\<close> is not \<open>None\<close>): then it is that slot number, which the comments of
  \<open>payload_words\<close> and \<open>call\<close> say a receiver never sees and which the same \<open>Call\<close> does not deliver
  to a receiver that is already waiting. This is what the code does, and a defect; the instance
  that follows shows it end to end, over the two traps.
\<close>

theorem recv_collects:
  assumes laws: "frame_laws H" and run: "running c s" and num: "h_syscall_number H f = 3"
    and cap: "lookup_cap s c (h_mr H f 0) = Inr (EndpointCap e b0 r)" "contains r rights_READ"
    and plain: "plain H f" and wl: "wait_list s (PSend e) = t # ts"
    and t: "get_tcb s t = Some x" "tcb_state x = BlockedSend e b k None d"
  shows "\<exists>s' f'. dispatch H s f = Some (s', f') \<and> current_of s' = Some c
     \<and> shows_message H f' b (ctx_mr (tcb_context x) 1, ctx_mr (tcb_context x) 2, ctx_mr (tcb_context x) 3)
     \<and> tag_label (h_tag H f') = tag_label (ctx_tag (tcb_context x)) \<and> \<not> tag_is_error H (h_tag H f')
     \<and> threads_of s' = (if k then (shift (threads_of s) t (BlockedReply d))\<lparr>tv_reply := (tv_reply (threads_of s))(c \<mapsto> t)\<rparr>
                        else shift (threads_of s) t Ready)"
proof -
  have "tag_extra_caps (h_tag H f) \<noteq> 1" using plain by (simp add: plain_def)
  with recv_meets [OF laws run cap plain_tag(1) [OF plain] wl t offer_none]
  obtain s' f' where ok: "recv H s c (h_mr H f 0) f = Ok s' f'" "current_of s' = Some c"
    and m: "shows_message H f' b (ctx_mr (tcb_context x) 1, ctx_mr (tcb_context x) 2, ctx_mr (tcb_context x) 3)"
    and tag: "h_tag H f' = (ctx_tag (tcb_context x))\<lparr>tag_flags := tag_flags (ctx_tag (tcb_context x)) AND NOT (h_flag_error H)\<rparr>"
    and v: "threads_of s' = (if k then (shift (threads_of s) t (BlockedReply d))\<lparr>tv_reply := (tv_reply (threads_of s))(c \<mapsto> t)\<rparr>
                        else shift (threads_of s) t Ready)" by auto
  have "dispatch H s f = Some (s', f')"
    using ok(1) by (intro dispatch_Ok [OF run, where n = SysRecv]) (simp_all add: num syscall_numbers run_syscall_simps)
  with ok(2) m v show ?thesis by (auto simp: tag tag_is_error_def and.assoc)
qed

theorem recv_collects_witness:
  "\<exists>s1 f1 s2 f2. dispatch toy (demo Ready) (regs 4 0 2 1 21 12 13) = Some (s1, f1) \<and> current_of s1 = Some (TcbId 1)
     \<and> dispatch toy s1 (regs 3 0 0 1 0 0 0) = Some (s2, f2) \<and> h_mr toy f2 0 = 7 \<and> h_mr toy f2 1 = 21 \<and> h_mr toy f2 2 = 12
     \<and> tv_reply (threads_of s2) (TcbId 1) = Some (TcbId 0)"
proof -
  let ?f = "regs 4 0 2 1 21 12 13" and ?g = "regs 3 0 0 1 0 0 0"
  have run: "running (TcbId 0) (demo Ready)" by (rule demo_running) simp
  have wl: "wait_list (demo Ready) (PRecv (EndpointId 0)) = []" "wait_list (demo Ready) PReady = [TcbId 1]"
    "wait_list (demo Ready) (PSend (EndpointId 0)) = []"
    by (simp_all add: demo_wait_list del: wait_list.simps)
  have f: "h_syscall_number toy ?f = 4" "h_mr toy ?f 0 = 1" "tag_length (h_tag toy ?f) = 0" "tag_extra_caps (h_tag toy ?f) = 2"
    "h_mr toy ?f 1 = 21" "h_mr toy ?f 2 = 12" by (simp_all add: toy_def regs_def)
  have g: "h_syscall_number toy ?g = 3" "h_mr toy ?g 0 = 1" "plain toy ?g" by (simp_all add: toy_def regs_def plain_def)
  have cap: "lookup_cap (demo Ready) (TcbId 0) (h_mr toy ?f 0) = Inr (EndpointCap (EndpointId 0) 7 rights_ALL)"
    unfolding f(2) by (rule demo_held)
  obtain s1 f1 y where d1: "dispatch toy (demo Ready) ?f = Some (s1, f1)" "current_of s1 = Some (TcbId 1)"
    and look: "lookup_cap s1 = lookup_cap (demo Ready)" and q: "wait_list s1 (PSend (EndpointId 0)) = [TcbId 0]"
    and y: "get_tcb s1 (TcbId 0) = Some y" "tcb_state y = BlockedSend (EndpointId 0) 7 True None (Some 21)"
    and ctx: "tcb_context y = save_from toy ?f"
    using registering_call_blocks [OF toy_laws(1) run f(1) cap rights_ALL_contains(2) f(3,4) wl(1,2)] f(5) wl(3)
    by (auto simp del: wait_list.simps)
  have run1: "running (TcbId 1) s1" using dispatch_inv [OF toy_laws, of "demo Ready" ?f] run d1 by (auto simp: running_def)
  have t1: "get_tcb (demo Ready) (TcbId 1) = Some (demo_tcb Ready None)" by (simp only: demo_get_tcb) simp
  have c0: "pool_get (ks_cnodes (demo Ready)) (cnode_ix (CNodeId 0)) = Some demo_cnode" by (simp add: demo_def demo_pools)
  have cap1: "lookup_cap s1 (TcbId 1) (h_mr toy ?g 0) = Inr (EndpointCap (EndpointId 0) 7 rights_ALL)"
    unfolding g(2) look lookup_cap_def t1 using c0 by (simp add: demo_tcb_def demo_cnode_def cnode_get_def)
  have m: "ctx_mr (tcb_context y) 1 = 21" "ctx_mr (tcb_context y) 2 = 12"
    unfolding ctx using f(5,6) by (simp_all add: save_from_def ctx_mr_def toy_def numeral_2_eq_2)
  from recv_collects [OF toy_laws(1) run1 g(1) cap1 rights_ALL_contains(1) g(3) q y]
  obtain s2 f2 where "dispatch toy s1 ?g = Some (s2, f2)" and "shows_message toy f2 7 (21, 12, ctx_mr (tcb_context y) 3)"
    and v: "threads_of s2 = (shift (threads_of s1) (TcbId 0) (BlockedReply (Some 21)))
        \<lparr>tv_reply := (tv_reply (threads_of s1))(TcbId 1 \<mapsto> TcbId 0)\<rparr>" by (auto simp: m m [simplified])
  with d1 arg_cong [OF v, of "\<lambda>v. tv_reply v (TcbId 1)"] show ?thesis
    by (auto simp: shows_message_def simp del: threads_of_simps)
qed

text \<open>
  C27. A \<open>Call\<close> with a server waiting hands over at once: the server runs next and finds the
  badge of the caller's capability and its message in the registers; the caller's registers are
  saved, it waits for the reply and the server holds the link to it.
\<close>

theorem call_reaches_server:
  assumes laws: "frame_laws H" and run: "running c s" and num: "h_syscall_number H f = 4"
    and cap: "lookup_cap s c (h_mr H f 0) = Inr (EndpointCap e b r)" "contains r rights_WRITE"
    and plain: "plain H f" and wl: "wait_list s (PRecv e) = t # ts"
  shows "\<exists>s' f'. dispatch H s f = Some (s', f') \<and> calling s' c t None
     \<and> (\<exists>y. get_tcb s' c = Some y \<and> tcb_context y = save_from H f)
     \<and> wait_list s' = (wait_list s)(PRecv e := ts)
     \<and> shows_message H f' b (h_mr H f 1, h_mr H f 2, h_mr H f 3) \<and> h_tag H f' = h_tag H f"
proof -
  note P = plain_tag [OF plain]
  from call_meets [OF laws run cap P(2,3) wl offer_none P(4) [symmetric]]
  obtain s' f' where ok: "call H s c (h_mr H f 0) f = Ok s' f'" and Q: "calling s' c t None"
    "\<exists>y. get_tcb s' c = Some y \<and> tcb_context y = save_from H f" "wait_list s' = (wait_list s)(PRecv e := ts)"
    "shows_message H f' b (h_mr H f 1, h_mr H f 2, h_mr H f 3)" "h_tag H f' = h_tag H f"
    using P(5) by (auto simp del: wait_list.simps)
  have "dispatch H s f = Some (s', f')"
    using ok by (intro dispatch_Ok [OF run, where n = SysCall]) (simp_all add: num syscall_numbers run_syscall_simps)
  with Q show ?thesis by blast
qed

theorem call_reaches_server_witness:
  "\<exists>s' f'. dispatch toy (demo (BlockedRecv (EndpointId 0) None)) (regs 4 3 0 1 11 12 13) = Some (s', f')
     \<and> current_of s' = Some (TcbId 1) \<and> h_mr toy f' 0 = 7 \<and> h_mr toy f' 1 = 11"
proof -
  let ?x = "BlockedRecv (EndpointId 0) None" and ?f = "regs 4 3 0 1 11 12 13"
  have run: "running (TcbId 0) (demo ?x)" by (rule demo_running) simp
  have wl: "wait_list (demo ?x) (PRecv (EndpointId 0)) = [TcbId 1]" by (simp add: demo_wait_list del: wait_list.simps)
  have f: "h_syscall_number toy ?f = 4" "h_mr toy ?f 0 = 1" "h_mr toy ?f 1 = 11" "plain toy ?f"
    by (simp_all add: toy_def regs_def plain_def)
  have cap: "lookup_cap (demo ?x) (TcbId 0) (h_mr toy ?f 0) = Inr (EndpointCap (EndpointId 0) 7 rights_ALL)"
    unfolding f(2) by (rule demo_held)
  from call_reaches_server [OF toy_laws(1) run f(1) cap rights_ALL_contains(2) f(4) wl] f(3) show ?thesis
    by (auto simp: shows_message_def calling_def)
qed

text \<open>
  C28. A \<open>Reply\<close> returns to the caller: the thread the link names runs next with the reply's
  words and tag in its registers and badge zero; the link is spent; the replier is last in the
  ready queue with its registers saved.
\<close>

theorem reply_returns:
  assumes laws: "frame_laws H" and run: "running c s" and num: "h_syscall_number H f = 5"
    and plain: "plain H f" and c: "get_tcb s c = Some tc" "tcb_reply_to tc = Some t"
  shows "\<exists>s' f'. dispatch H s f = Some (s', f') \<and> current_of s' = Some t
     \<and> (\<exists>y. get_tcb s' c = Some y \<and> tcb_state y = Ready \<and> tcb_reply_to y = None \<and> tcb_context y = save_from H f)
     \<and> wait_list s' = (wait_list s)(PReady := wait_list s PReady @ [c])
     \<and> shows_message H f' 0 (h_mr H f 1, h_mr H f 2, h_mr H f 3) \<and> h_tag H f' = h_tag H f"
proof -
  note P = plain_tag [OF plain]
  from reply_meets [OF laws run P(1,3) c offer_none]
  obtain s' f' where ok: "reply H s c f = Ok s' f'" and Q: "current_of s' = Some t"
    "\<exists>y. get_tcb s' c = Some y \<and> tcb_state y = Ready \<and> tcb_reply_to y = None \<and> tcb_context y = save_from H f"
    "wait_list s' = (wait_list s)(PReady := wait_list s PReady @ [c])"
    "shows_message H f' 0 (h_mr H f 1, h_mr H f 2, h_mr H f 3)" "h_tag H f' = h_tag H f"
    using P(5) by (auto simp del: wait_list.simps)
  have "dispatch H s f = Some (s', f')"
    using ok by (intro dispatch_Ok [OF run, where n = SysReply]) (simp_all add: num syscall_numbers run_syscall_simps)
  with Q show ?thesis by blast
qed

theorem reply_returns_witness:
  "\<exists>s' f'. dispatch toy (demo (BlockedReply None)) (regs 5 3 0 0 11 12 13) = Some (s', f')
     \<and> current_of s' = Some (TcbId 1) \<and> h_mr toy f' 1 = 11"
proof -
  let ?x = "BlockedReply None" and ?f = "regs 5 3 0 0 11 12 13"
  have run: "running (TcbId 0) (demo ?x)" by (rule demo_running) simp
  have f: "h_syscall_number toy ?f = 5" "h_mr toy ?f 1 = 11" "plain toy ?f"
    by (simp_all add: toy_def regs_def plain_def)
  have c: "get_tcb (demo ?x) (TcbId 0) = Some (demo_tcb Running (Some (TcbId 1)))" by (simp only: demo_get_tcb) simp
  from reply_returns [OF toy_laws(1) run f(1,3) c, of "TcbId 1"] f(2) show ?thesis
    by (auto simp: shows_message_def demo_tcb_def)
qed

text \<open>
  C29. Remote procedure call: a \<open>Call\<close> to a waiting server, then a \<open>Reply\<close> by the server, is a
  procedure call for the client. It runs again directly after the reply, with the reply's
  words and tag, and every raw register (stack pointer, callee-saved registers, the resume
  address) as it was at its \<open>Call\<close>; the server saw the client's message and badge.
\<close>

theorem rpc_round_trip:
  assumes laws: "frame_laws H" "paging_laws H" and run: "running c s" and num: "h_syscall_number H f = 4"
    and cap: "lookup_cap s c (h_mr H f 0) = Inr (EndpointCap e b r)" "contains r rights_WRITE"
    and plain: "plain H f" and wl: "wait_list s (PRecv e) = t # ts"
    and answer: "h_syscall_number H g = 5" "plain H g"
  shows "\<exists>s1 f1 s2 f2. dispatch H s f = Some (s1, f1) \<and> current_of s1 = Some t
     \<and> shows_message H f1 b (h_mr H f 1, h_mr H f 2, h_mr H f 3)
     \<and> dispatch H s1 g = Some (s2, f2) \<and> current_of s2 = Some c
     \<and> shows_message H f2 0 (h_mr H g 1, h_mr H g 2, h_mr H g 3) \<and> h_tag H f2 = h_tag H g
     \<and> (\<forall>k<RAW_WORDS. h_raw_word H f2 k = h_raw_word H f k)"
proof -
  note P = plain_tag [OF plain] and A = plain_tag [OF answer(2)]
  from call_meets [OF laws(1) run cap P(2,3) wl offer_none P(4) [symmetric]]
  obtain s1 f1 yc where ok1: "call H s c (h_mr H f 0) f = Ok s1 f1" and call: "calling s1 c t None"
    and yc: "get_tcb s1 c = Some yc" "tcb_context yc = save_from H f"
    and m1: "shows_message H f1 b (h_mr H f 1, h_mr H f 2, h_mr H f 3)"
    using P(5) by (auto simp del: wait_list.simps)
  have d1: "dispatch H s f = Some (s1, f1)"
    using ok1 by (intro dispatch_Ok [OF run, where n = SysCall]) (simp_all add: num syscall_numbers run_syscall_simps)
  have inv1: "kernel_inv s1" using dispatch_inv [OF laws, of s f] d1 run by (auto simp: running_def)
  have cur1: "current_of s1 = Some t" using call by (simp add: calling_def)
  have run1: "running t s1" using inv1 cur1 by (simp add: running_def)
  from call obtain yt where yt: "get_tcb s1 t = Some yt" "tcb_reply_to yt = Some c" "tcb_state yt = Running"
    by (auto simp: calling_def)
  have ne: "c \<noteq> t" using call yt by (auto simp: calling_def)
  from reply_meets [OF laws(1) run1 A(1,3) yt(1,2) offer_none]
  obtain s2 f2 where ok2: "reply H s1 t g = Ok s2 f2" and cur2: "current_of s2 = Some c"
    and m2: "shows_message H f2 0 (h_mr H g 1, h_mr H g 2, h_mr H g 3)" "h_tag H f2 = h_tag H g"
    using A(5) by (auto simp del: wait_list.simps)
  have d2: "dispatch H s1 g = Some (s2, f2)"
    using ok2 by (intro dispatch_Ok [OF run1, where n = SysReply]) (simp_all add: answer(1) syscall_numbers run_syscall_simps)
  obtain y2 where y2: "get_tcb s2 c = Some y2" "same_raw yc y2"
    using dispatch_same_raw [OF laws inv1 cur1 d2 ne yc(1)] by blast
  from dispatch_switch(2) [OF laws inv1 cur1 d2 cur2 ne] y2(1)
  have "h_raw_word H f2 k = ctx_raw (tcb_context y2) ! k" if "k < RAW_WORDS" for k using that by auto
  then have "\<forall>k<RAW_WORDS. h_raw_word H f2 k = h_raw_word H f k"
    using y2(2) yc(2) by (simp add: same_raw_def save_from_def)
  with d1 cur1 m1 d2 cur2 m2 show ?thesis by blast
qed

theorem rpc_round_trip_witness:
  "\<exists>s1 f1 s2 f2. dispatch toy (demo (BlockedRecv (EndpointId 0) None)) (regs 4 3 0 1 11 12 13) = Some (s1, f1)
     \<and> dispatch toy s1 (regs 5 9 0 0 21 22 23) = Some (s2, f2) \<and> current_of s2 = Some (TcbId 0) \<and> h_mr toy f2 1 = 21"
proof -
  let ?x = "BlockedRecv (EndpointId 0) None" and ?f = "regs 4 3 0 1 11 12 13" and ?g = "regs 5 9 0 0 21 22 23"
  have run: "running (TcbId 0) (demo ?x)" by (rule demo_running) simp
  have wl: "wait_list (demo ?x) (PRecv (EndpointId 0)) = [TcbId 1]" by (simp add: demo_wait_list del: wait_list.simps)
  have f: "h_syscall_number toy ?f = 4" "h_mr toy ?f 0 = 1" "plain toy ?f"
    and g: "h_syscall_number toy ?g = 5" "plain toy ?g" "h_mr toy ?g 1 = 21"
    by (simp_all add: toy_def regs_def plain_def)
  have cap: "lookup_cap (demo ?x) (TcbId 0) (h_mr toy ?f 0) = Inr (EndpointCap (EndpointId 0) 7 rights_ALL)"
    unfolding f(2) by (rule demo_held)
  from rpc_round_trip [OF toy_laws run f(1) cap rights_ALL_contains(2) f(3) wl g(1,2)] g(3) show ?thesis
    by (auto simp: shows_message_def)
qed

section \<open>Notifications\<close>

text \<open>
  C30. Signals are never lost: over a run of signals on a notification nobody waits on, each
  through its own badged capability, the pending word becomes the bitwise OR of what was
  pending and of every badge, in any number and order.
\<close>

theorem signals_combine:
  assumes "frame_laws H" and "paging_laws H" and "running c s" and "wait_list s (PWait n) = []"
    and "list_all2 (signals_with H s c n) fs bs"
  shows "\<exists>s'. run_traps H s fs = Some s' \<and> current_of s' = Some c
     \<and> tv_signals (threads_of s') n = fold (OR) bs (tv_signals (threads_of s) n)"
  by (rule signals_accumulate [OF assms])

theorem signals_combine_witness:
  "\<exists>s'. run_traps toy (demo Inactive) [regs 6 0 0 2 0 0 0, regs 6 0 0 2 0 0 0] = Some s'
     \<and> tv_signals (threads_of s') (NotificationId 0) = 5"
proof -
  have run: "running (TcbId 0) (demo Inactive)" by (rule demo_running) simp
  have wl: "wait_list (demo Inactive) (PWait (NotificationId 0)) = []" by (simp add: demo_wait_list del: wait_list.simps)
  have f: "h_syscall_number toy (regs 6 0 0 2 0 0 0) = 6" "h_mr toy (regs 6 0 0 2 0 0 0) 0 = 2"
    by (simp_all add: toy_def regs_def)
  have "signals_with toy (demo Inactive) (TcbId 0) (NotificationId 0) (regs 6 0 0 2 0 0 0) 5"
    unfolding signals_with_def f by (simp add: demo_held rights_ALL_contains)
  then have "list_all2 (signals_with toy (demo Inactive) (TcbId 0) (NotificationId 0))
      [regs 6 0 0 2 0 0 0, regs 6 0 0 2 0 0 0] [5, 5]" by simp
  moreover have "tv_signals (threads_of (demo Inactive)) (NotificationId 0) = 0"
    by (simp add: threads_of_def demo_def demo_pools)
  ultimately obtain s' where "run_traps toy (demo Inactive) [regs 6 0 0 2 0 0 0, regs 6 0 0 2 0 0 0] = Some s'"
    and "tv_signals (threads_of s') (NotificationId 0) = fold (OR) [5, 5] 0"
    using signals_combine [OF toy_laws run wl] by metis
  then show ?thesis by (intro exI [of _ s'] conjI) simp_all
qed

text \<open>
  C31. A \<open>Signal\<close> with a waiter wakes the one that waited longest: it becomes ready, last in the
  ready queue, with the badge in message register 0, and nothing stays pending.
\<close>

theorem signal_wakes_waiter:
  fixes s :: "('w::len word, 'h) kernel_state"
  assumes laws: "frame_laws H" and run: "running c s" and num: "h_syscall_number H f = 6"
    and cap: "lookup_cap s c (h_mr H f 0) = Inr (NotificationCap n b r)" "contains r rights_WRITE"
    and wl: "wait_list s (PWait n) = t # ts"
  shows "\<exists>s' f' y. dispatch H s f = Some (s', f') \<and> current_of s' = Some c \<and> \<not> tag_is_error H (h_tag H f')
     \<and> wait_list s' = (wait_list s)(PWait n := ts, PReady := wait_list s PReady @ [t])
     \<and> tv_signals (threads_of s') n = 0
     \<and> get_tcb s' t = Some y \<and> tcb_state y = Ready \<and> ctx_mr (tcb_context y) 0 = b"
proof -
  note R = runningD [OF run]
  from signal_wakes [OF run cap wl, of H f]
  obtain s' y where ok: "signal H s c (h_mr H f 0) f = Ok s' (reply_success H f)" and v: "threads_of s' = shift (threads_of s) t Ready"
    and y: "get_tcb s' t = Some y" "tcb_state y = Ready" "ctx_mr (tcb_context y) 0 = b" by blast
  have "tv_signals (threads_of s') n = 0" using waited_no_signals [OF run wl] by (simp add: v)
  moreover have "dispatch H s f = Some (s', reply_success H f)"
    using ok by (intro dispatch_Ok [OF run, where n = SysSignal]) (simp_all add: num syscall_numbers run_syscall_simps)
  moreover have "wait_list s' = (wait_list s)(PWait n := ts, PReady := wait_list s PReady @ [t])" "current_of s' = Some c"
    using shift_queues [OF v R(3) wl] R(5) by simp_all
  ultimately show ?thesis using y reply_success_tag(1) [OF laws, of f] by blast
qed

theorem signal_wakes_waiter_witness:
  "\<exists>s' f' y. dispatch toy (demo (BlockedWait (NotificationId 0))) (regs 6 0 0 2 0 0 0) = Some (s', f')
     \<and> get_tcb s' (TcbId 1) = Some y \<and> tcb_state y = Ready \<and> ctx_mr (tcb_context y) 0 = 5"
proof -
  let ?x = "BlockedWait (NotificationId 0)" and ?f = "regs 6 0 0 2 0 0 0"
  have run: "running (TcbId 0) (demo ?x)" by (rule demo_running) simp
  have wl: "wait_list (demo ?x) (PWait (NotificationId 0)) = [TcbId 1]" by (simp add: demo_wait_list del: wait_list.simps)
  have f: "h_syscall_number toy ?f = 6" "h_mr toy ?f 0 = 2" by (simp_all add: toy_def regs_def)
  have cap: "lookup_cap (demo ?x) (TcbId 0) (h_mr toy ?f 0) = Inr (NotificationCap (NotificationId 0) 5 rights_ALL)"
    unfolding f(2) by (rule demo_held)
  from signal_wakes_waiter [OF toy_laws(1) run f(1) cap rights_ALL_contains(2) wl] show ?thesis by blast
qed

text \<open>
  \<open>Poll\<close> reads and clears: it returns the pending word in message register 0, and a second
  \<open>Poll\<close> right after it returns zero.
\<close>

theorem poll_clears:
  assumes laws: "frame_laws H" "paging_laws H" and run: "running c s"
    and num: "h_syscall_number H f = 8" "h_syscall_number H g = 8" and same: "h_mr H g 0 = h_mr H f 0"
    and cap: "lookup_cap s c (h_mr H f 0) = Inr (NotificationCap n b r)" "contains r rights_READ"
  shows "\<exists>s1 f1 s2 f2. dispatch H s f = Some (s1, f1) \<and> h_mr H f1 0 = tv_signals (threads_of s) n
     \<and> dispatch H s1 g = Some (s2, f2) \<and> h_mr H f2 0 = 0 \<and> current_of s2 = Some c"
proof -
  obtain s1 f1 where ok1: "poll H s c (h_mr H f 0) f = Ok s1 f1" "h_mr H f1 0 = tv_signals (threads_of s) n"
    and v1: "threads_of s1 = (threads_of s)\<lparr>tv_signals := (tv_signals (threads_of s))(n := 0)\<rparr>"
    using poll_takes [OF laws(1) run cap] by blast
  have d1: "dispatch H s f = Some (s1, f1)"
    using ok1(1) by (intro dispatch_Ok [OF run, where n = SysPoll]) (simp_all add: num syscall_numbers run_syscall_simps)
  have cur1: "current_of s1 = Some c" using arg_cong [OF v1, of tv_current] runningD(5) [OF run] by simp
  have run1: "running c s1" using dispatch_inv [OF laws, of s f] d1 cur1 run by (auto simp: running_def)
  have "ks_tcbs s1 = ks_tcbs s" "ks_cnodes s1 = ks_cnodes s" using poll_same_caps [OF ok1(1)] by simp_all
  from lookup_cap_cong [OF this] cap(1) same
  have cap1: "lookup_cap s1 c (h_mr H g 0) = Inr (NotificationCap n b r)" by simp
  obtain s2 f2 where ok2: "poll H s1 c (h_mr H g 0) g = Ok s2 f2" "h_mr H f2 0 = tv_signals (threads_of s1) n"
    and v2: "threads_of s2 = (threads_of s1)\<lparr>tv_signals := (tv_signals (threads_of s1))(n := 0)\<rparr>"
    using poll_takes [OF laws(1) run1 cap1 cap(2)] by blast
  have d2: "dispatch H s1 g = Some (s2, f2)"
    using ok2(1) by (intro dispatch_Ok [OF run1, where n = SysPoll]) (simp_all add: num syscall_numbers run_syscall_simps)
  have "current_of s2 = Some c" using arg_cong [OF v2, of tv_current] cur1 by simp
  with d1 ok1(2) d2 ok2(2) v1 show ?thesis by auto
qed

theorem poll_clears_witness:
  "\<exists>s1 f1 s2 f2. dispatch toy (demo Ready) (regs 8 0 0 2 0 0 0) = Some (s1, f1)
     \<and> dispatch toy s1 (regs 8 0 0 2 9 9 9) = Some (s2, f2) \<and> h_mr toy f2 0 = 0"
proof -
  let ?f = "regs 8 0 0 2 0 0 0" and ?g = "regs 8 0 0 2 9 9 9"
  have run: "running (TcbId 0) (demo Ready)" by (rule demo_running) simp
  have f: "h_syscall_number toy ?f = 8" "h_syscall_number toy ?g = 8" "h_mr toy ?g 0 = h_mr toy ?f 0" "h_mr toy ?f 0 = 2"
    by (simp_all add: toy_def regs_def)
  have cap: "lookup_cap (demo Ready) (TcbId 0) (h_mr toy ?f 0) = Inr (NotificationCap (NotificationId 0) 5 rights_ALL)"
    unfolding f(4) by (rule demo_held)
  from poll_clears [OF toy_laws run f(1-3) cap rights_ALL_contains(1)] show ?thesis by blast
qed

end
