(* ===== verification/CapProps.thy ===== *)
theory CapProps
  imports Instance
begin

text \<open>
  The properties of capability management and memory, at the trap: \<open>CNodeInvoke\<close>,
  \<open>UntypedRetype\<close>, \<open>FrameInvoke\<close> and \<open>TCBConfigure\<close>. Each is followed by its application to the
  demo system of \<open>Instance\<close>.
\<close>

section \<open>CNodes\<close>

text \<open>
  C32. \<open>Mint\<close> attenuates: with a source capability of a kind that can be minted, requested rights
  that are a subset of its rights and an empty destination, the destination receives a
  capability to the same object with exactly the requested rights and, where the kind carries
  a badge, the requested badge; no other slot of any CNode changes.
\<close>

theorem mint_attenuates:
  assumes run: "running c s" and num: "h_syscall_number H f = 9" "tag_label (h_tag H f) = LABEL_MINT"
    and node: "lookup_cap s c (h_mr H f 0) = Inr (CNodeCap i)"
    and src: "slot_cap s i (h_mr H f 1) = Some k" "k \<noteq> Null" "k \<notin> range CNodeCap \<union> range ReplyCap"
    and dest: "slot_cap s i (h_mr H f 2) = Some Null"
    and r: "r = from_bits_truncate (ucast (h_mr H f 3 AND 255))" "is_subset_of r (cap_rights k)"
  shows "\<exists>s' cap. dispatch H s f = Some (s', reply_success H f) \<and> slot_cap s' i (h_mr H f 2) = Some cap
     \<and> cap_le cap k \<and> cap_object cap = cap_object k \<and> cap_rights cap = r
     \<and> cap_badge cap = map_option (\<lambda>_. drop_bit 8 (h_mr H f 3)) (cap_badge k)
     \<and> (\<forall>i' j. (i', j) \<noteq> (i, h_mr H f 2) \<longrightarrow> slot_cap s' i' j = slot_cap s i' j)"
proof -
  obtain cap where kind: "attenuate k r (drop_bit 8 (h_mr H f 3)) = Inr cap"
    using attenuate_total [OF src(2,3)] by blast
  let ?s = "write_slot s i (h_mr H f 2) cap"
  have "mint s i (h_mr H f 1) (h_mr H f 2) (h_mr H f 3) = Inr ?s"
    using src dest r kind by (auto simp: mint_def slot_cap_def bind_eq_Some_conv Let_def)
  then have "cnode_invoke H s c (h_mr H f 0) f = Ok ?s (reply_success H f)"
    using node num(2) by (simp add: cnode_invoke_def Let_def)
  then have "dispatch H s f = Some (?s, reply_success H f)"
    by (intro dispatch_Ok [OF run, where n = SysCNodeInvoke]) (simp_all add: num syscall_numbers run_syscall_simps)
  moreover have "cap_object cap = cap_object k" using attenuate_le(1) [OF kind r(2)] by (rule cap_le_object)
  ultimately show ?thesis
    using attenuate_le [OF kind r(2)] attenuate_badge [OF kind] dest by (auto simp: slot_cap_write)
qed

lemma endpoint_cap_eqI:
  "cap_object cap = Some (REndpoint i) \<Longrightarrow> cap_badge cap = Some b \<Longrightarrow> cap_rights cap = r \<Longrightarrow> cap = EndpointCap i b r"
  by (cases cap) auto

theorem mint_attenuates_witness:
  "\<exists>s'. dispatch toy (demo Ready) (regs 9 1 0 6 1 20 1793) = Some (s', reply_success toy (regs 9 1 0 6 1 20 1793))
     \<and> slot_cap s' (CNodeId 0) 20 = Some (EndpointCap (EndpointId 0) 7 (from_bits_truncate 1))"
proof -
  let ?f = "regs 9 1 0 6 1 20 1793" and ?k = "EndpointCap (EndpointId 0) 7 rights_ALL"
  have run: "running (TcbId 0) (demo Ready)" by (rule demo_running) simp
  have f: "h_syscall_number toy ?f = 9" "tag_label (h_tag toy ?f) = LABEL_MINT" "h_mr toy ?f 0 = 6" "h_mr toy ?f 1 = 1"
    "h_mr toy ?f 2 = 20" "h_mr toy ?f 3 = 1793" by (simp_all add: toy_def regs_def LABEL_MINT_def)
  have node: "lookup_cap (demo Ready) (TcbId 0) (h_mr toy ?f 0) = Inr (CNodeCap (CNodeId 0))"
    unfolding f by (rule demo_held)
  have src: "slot_cap (demo Ready) (CNodeId 0) (h_mr toy ?f 1) = Some ?k"
    and dest: "slot_cap (demo Ready) (CNodeId 0) (h_mr toy ?f 2) = Some Null"
    unfolding f by (simp_all add: demo_slot_cap demo_cnode_def cnode_get_def CNODE_SLOTS_def)
  have r: "from_bits_truncate 1 = from_bits_truncate (ucast (h_mr toy ?f 3 AND 255))" unfolding f by simp
  have sub: "is_subset_of (from_bits_truncate 1) (cap_rights ?k)"
    by (simp add: is_subset_of_def from_bits_truncate_def rights_values)
  have kind: "?k \<noteq> Null" "?k \<notin> range CNodeCap \<union> range ReplyCap" by auto
  have badge: "drop_bit 8 (h_mr toy ?f 3) = 7" unfolding f by (simp add: drop_bit_eq_div)
  from mint_attenuates [OF run f(1,2) node src kind dest r sub] show ?thesis
    unfolding badge f(5) by (auto intro: endpoint_cap_eqI)
qed

text \<open>
  Round trip: a \<open>Move\<close> followed by the \<open>Move\<close> back leaves every slot of every CNode, every
  thread and every queue as they were.
\<close>

theorem move_and_back:
  assumes laws: "frame_laws H" "paging_laws H" and run: "running c s"
    and f: "h_syscall_number H f = 9" "tag_label (h_tag H f) = LABEL_MOVE"
    and g: "h_syscall_number H g = 9" "tag_label (h_tag H g) = LABEL_MOVE"
    and args: "h_mr H g 0 = h_mr H f 0" "h_mr H g 1 = h_mr H f 2" "h_mr H g 2 = h_mr H f 1"
    and node: "lookup_cap s c (h_mr H f 0) = Inr (CNodeCap i)"
    and src: "slot_cap s i (h_mr H f 1) = Some k" "k \<noteq> Null" "k \<noteq> CNodeCap i"
    and dest: "slot_cap s i (h_mr H f 2) = Some Null"
  shows "\<exists>s1 s2. dispatch H s f = Some (s1, reply_success H f) \<and> dispatch H s1 g = Some (s2, reply_success H g)
     \<and> slot_cap s1 i (h_mr H f 2) = Some k \<and> slot_cap s1 i (h_mr H f 1) = Some Null
     \<and> slot_cap s2 = slot_cap s \<and> threads_of s2 = threads_of s"
proof -
  let ?a = "h_mr H f 1" and ?b = "h_mr H f 2"
  let ?s1 = "write_slot (write_slot s i ?b k) i ?a Null"
  let ?s2 = "write_slot (write_slot ?s1 i ?a k) i ?b Null"
  have ne: "?a \<noteq> ?b" using src dest by auto
  have "dispatch H s f = Some (?s1, reply_success H f)"
    by (rule dispatch_move [OF run f node src(1,2) dest])
  note d1 = this
  have node1: "lookup_cap ?s1 c (h_mr H g 0) = Inr (CNodeCap i)"
  proof -
    obtain x q where q: "get_tcb s c = Some x" "tcb_cspace x = Some q" "slot_cap s q (h_mr H f 0) = Some (CNodeCap i)"
      using node by (auto simp: lookup_cap_iff)
    then have "(q, h_mr H f 0) \<noteq> (i, ?a)" and "(q, h_mr H f 0) \<noteq> (i, ?b)" using src dest by auto
    then have "slot_cap ?s1 q (h_mr H f 0) = Some (CNodeCap i)" using q(3) by (auto simp: slot_cap_write)
    with q(1,2) show ?thesis by (auto simp: lookup_cap_iff args)
  qed
  have "kernel_inv ?s1" using dispatch_inv [OF laws, of s f] d1 run by (auto simp: running_def)
  then have run1: "running c ?s1" using runningD(5) [OF run] by (simp add: running_def)
  have one: "slot_cap ?s1 i ?b = Some k" "slot_cap ?s1 i ?a = Some Null"
    using ne src dest by (simp_all add: slot_cap_write)
  then have "dispatch H ?s1 g = Some (?s2, reply_success H g)"
    using dispatch_move [OF run1 g node1, of k] src(2) by (simp add: args del: One_nat_def)
  moreover have "slot_cap ?s2 = slot_cap s"
    using ne src dest by (auto simp: fun_eq_iff slot_cap_write)
  moreover have "threads_of ?s2 = threads_of s" by (simp add: observe)
  ultimately show ?thesis using d1 one by blast
qed

theorem move_and_back_witness:
  "\<exists>s1 s2. dispatch toy (demo Ready) (regs 9 3 0 6 2 20 0) = Some (s1, reply_success toy (regs 9 3 0 6 2 20 0))
     \<and> dispatch toy s1 (regs 9 3 0 6 20 2 0) = Some (s2, reply_success toy (regs 9 3 0 6 20 2 0))
     \<and> slot_cap s1 (CNodeId 0) 20 = Some (NotificationCap (NotificationId 0) 5 rights_ALL)
     \<and> slot_cap s2 (CNodeId 0) 2 = Some (NotificationCap (NotificationId 0) 5 rights_ALL)"
proof -
  let ?f = "regs 9 3 0 6 2 20 0" and ?g = "regs 9 3 0 6 20 2 0" and ?k = "NotificationCap (NotificationId 0) 5 rights_ALL"
  have run: "running (TcbId 0) (demo Ready)" by (rule demo_running) simp
  have f: "h_syscall_number toy ?f = 9" "tag_label (h_tag toy ?f) = LABEL_MOVE" "h_mr toy ?f 0 = 6" "h_mr toy ?f 1 = 2" "h_mr toy ?f 2 = 20"
    and g: "h_syscall_number toy ?g = 9" "tag_label (h_tag toy ?g) = LABEL_MOVE" "h_mr toy ?g 0 = 6" "h_mr toy ?g 1 = 20" "h_mr toy ?g 2 = 2"
    by (simp_all add: toy_def regs_def LABEL_MOVE_def)
  have node: "lookup_cap (demo Ready) (TcbId 0) (h_mr toy ?f 0) = Inr (CNodeCap (CNodeId 0))"
    unfolding f by (rule demo_held)
  have src: "slot_cap (demo Ready) (CNodeId 0) (h_mr toy ?f 1) = Some ?k"
    and dest: "slot_cap (demo Ready) (CNodeId 0) (h_mr toy ?f 2) = Some Null"
    unfolding f by (simp_all add: demo_slot_cap demo_cnode_def cnode_get_def CNODE_SLOTS_def)
  have args: "h_mr toy ?g 0 = h_mr toy ?f 0" "h_mr toy ?g 1 = h_mr toy ?f 2" "h_mr toy ?g 2 = h_mr toy ?f 1"
    unfolding f g by simp_all
  from move_and_back [OF toy_laws run f(1,2) g(1,2) args node src _ _ dest] src
  show ?thesis unfolding f by auto
qed

section \<open>Retypes\<close>

text \<open>
  C34. A successful \<open>UntypedRetype\<close> creates exactly one object, of the type asked for: the empty
  slot named holds a capability with every right and badge zero to an object that did not exist
  and has its initial contents; a Frame has the size asked for, the first free address the
  Untyped has for it and no mapping, a VSpace the next page table as its root. No other object
  came to be or went (a new thread's reply reference apart), the Untyped's budget went down by
  one, its memory moved for a Frame only, and no other slot and no thread changed.
\<close>

theorem retype_creates:
  assumes "frame_laws H" and "paging_laws H" and run: "running c s" and num: "h_syscall_number H f = 10"
    and ok: "run_syscall H s c f SysUntypedRetype = Ok s' f'"
  shows "dispatch H s f = Some (s', f') \<and> (\<exists>cap. retyped H s c (h_mr H f 0) f s' cap) \<and> tcbs_kept s s'"
proof -
  have "untyped_retype H s c (h_mr H f 0) f = Ok s' f'" using ok by (simp add: run_syscall_simps)
  from on_okD [OF untyped_retype_effect [OF assms(1-3)] this] dispatch_Ok [OF run _ ok] show ?thesis
    by (simp add: num syscall_numbers)
qed

theorem retype_creates_witness:
  "\<exists>s' f' i. dispatch toy (demo Ready) (regs 10 0 0 3 7 20 0) = Some (s', f')
     \<and> slot_cap s' (CNodeId 0) 20 = Some (FrameCap i rights_ALL) \<and> \<not> object_exists (demo Ready) (RFrame i)
     \<and> pool_get (ks_frames s') (frame_ix i) = Some \<lparr>fr_paddr = 65536, fr_size = Small, fr_mapped_at = [None, None]\<rparr>"
proof -
  let ?f = "regs 10 0 0 3 7 20 0"
  have run: "running (TcbId 0) (demo Ready)" by (rule demo_running) simp
  have f: "h_syscall_number toy ?f = 10" "h_mr toy ?f 0 = 3" "h_mr toy ?f 1 = 7" "h_mr toy ?f 2 = 20"
    by (simp_all add: toy_def regs_def)
  obtain s' f' where ok: "run_syscall toy (demo Ready) (TcbId 0) ?f SysUntypedRetype = Ok s' f'"
    using demo_retypes [OF f(3,4), of Ready] f(2) by (auto simp: run_syscall_simps)
  have tcb: "get_tcb (demo Ready) (TcbId 0) = Some (demo_tcb Running None)" by (simp only: demo_get_tcb) simp
  have ot: "object_type_from_usize 7 = Some OT_FrameSmall" by (simp add: object_type_from_usize_def)
  have held: "lookup_cap (demo Ready) (TcbId 0) 3 = Inr (UntypedCap (UntypedId 0) rights_ALL)" by (rule demo_held)
  from retype_creates [OF toy_laws run f(1) ok] have d: "dispatch toy (demo Ready) ?f = Some (s', f')"
    and "\<exists>cap. retyped toy (demo Ready) (TcbId 0) (h_mr toy ?f 0) ?f s' cap" by simp_all
  then obtain cap where "retyped toy (demo Ready) (TcbId 0) (h_mr toy ?f 0) ?f s' cap" by blast
  then obtain i where "slot_cap s' (CNodeId 0) 20 = Some (FrameCap i rights_ALL)" "only_new_object (demo Ready) s' (RFrame i)"
    "pool_get (ks_frames s') (frame_ix i) = Some \<lparr>fr_paddr = 65536, fr_size = Small, fr_mapped_at = [None, None]\<rparr>"
    unfolding retyped_def f tcb held
    by (auto simp: demo_tcb_def ot demo_untyped [simplified] demo_untyped_alloc frame_created_def MAX_FRAME_MAPPINGS_def numeral_2_eq_2)
  with d show ?thesis by (auto simp: only_new_object_def)
qed

text \<open>
  C35. Physical memory is never handed out twice: over any run of traps, if at the start no two
  Frames overlap, no Frame reaches into an Untyped's free memory and the Untypeds' free memory
  is apart, then the same holds at the end, whatever was retyped.
\<close>

theorem memory_stays_apart:
  assumes "frame_laws H" and "paging_laws H" and "kernel_inv s" and "memory_ok s" and "run_traps H s fs = Some s'"
  shows "memory_ok s'"
  by (rule run_traps_memory [OF assms])

theorem memory_stays_apart_witness:
  "\<exists>s'. run_traps toy (demo Ready) [regs 10 0 0 3 7 20 0, regs 10 0 0 3 8 21 0] = Some s' \<and> memory_ok s'"
proof -
  have inv: "kernel_inv (demo Ready)" by (rule demo_inv) simp
  obtain s' where run: "run_traps toy (demo Ready) [regs 10 0 0 3 7 20 0, regs 10 0 0 3 8 21 0] = Some s'"
    using run_traps_inv [OF toy_laws inv] by blast
  from memory_stays_apart [OF toy_laws inv demo_memory run] run show ?thesis by blast
qed

text \<open>
  C36. Retypes spend the budget. Over any run of traps the number of objects other than Untypeds
  and the budgets left in all Untypeds add up to the same sum, and objects never disappear: each
  new object costs one unit, a failed retype costs none, and nothing refunds a budget.
\<close>

theorem retypes_spend_budget:
  assumes "run_traps H s fs = Some s'"
  shows "objects s' + budget_left s' = objects s + budget_left s \<and> objects s \<le> objects s'"
  using run_traps_paid [OF assms] by (simp add: paid_step_def)

theorem retypes_spend_budget_witness:
  "\<exists>s'. run_traps toy (demo Ready) [regs 10 0 0 3 2 20 0] = Some s' \<and> objects s' + budget_left s' = 12"
proof -
  have inv: "kernel_inv (demo Ready)" by (rule demo_inv) simp
  obtain s' where run: "run_traps toy (demo Ready) [regs 10 0 0 3 2 20 0] = Some s'"
    using run_traps_inv [OF toy_laws inv] by blast
  from retypes_spend_budget [OF run] run show ?thesis by (simp add: demo_census)
qed

text \<open>
  C37. A failed retype keeps memory. When the pool of the kind asked for is full, a retype to a
  VSpace with page tables left, or to a Frame with room left in the Untyped, fails with
  \<open>NotEnoughMemory\<close>; the root page table stays allocated, and the Frame's bytes are gone from
  the Untyped. Nothing can give either back.
\<close>

theorem failed_retype_keeps_memory:
  assumes laws: "paging_laws H" and run: "running c s" and num: "h_syscall_number H f = 10"
    and cap: "lookup_cap s c (h_mr H f 0) = Inr (UntypedCap uid r)" "contains r rights_WRITE"
    and u: "pool_get (ks_untypeds s) (untyped_ix uid) = Some u" "ut_remaining u \<noteq> 0"
    and dest: "Option.bind (get_tcb s c) tcb_cspace = Some i" "slot_cap s i (h_mr H f 2) = Some Null"
  shows "(h_mr H f 1 = 6 \<and> pool_alloc (ks_vspaces s) = (\<lambda>_. None) \<and> kpt_used (ks_page_tables s) < 32 \<longrightarrow>
       (\<exists>s'. dispatch H s f = Some (s', reply_error H f NotEnoughMemory)
          \<and> kpt_used (ks_page_tables s') = Suc (kpt_used (ks_page_tables s))))
     \<and> (\<forall>sz a u'. h_mr H f 1 = (case sz of Small \<Rightarrow> 7 | Mega \<Rightarrow> 8) \<and> pool_alloc (ks_frames s) = (\<lambda>_. None)
          \<and> untyped_frame_alloc u sz = Some (a, u') \<longrightarrow>
       (\<exists>s'. dispatch H s f = Some (s', reply_error H f NotEnoughMemory)
          \<and> pool_get (ks_untypeds s') (untyped_ix uid) = Some u' \<and> ut_cursor u + 2 ^ frame_size_log sz \<le> ut_cursor u'))"
proof (intro conjI impI allI; elim conjE)
  have wf: "state_wf s" by (rule runningD(1) [OF run])
  have fails: "dispatch H s f = Some (s', reply_error H f NotEnoughMemory)"
    if "untyped_retype H s c (h_mr H f 0) f = Err NotEnoughMemory s' f" for s'
    by (rule dispatch_Err [OF run, where n = SysUntypedRetype]) (simp_all add: num syscall_numbers run_syscall_simps that)
  {
    assume "h_mr H f 1 = 6" and "pool_alloc (ks_vspaces s) = (\<lambda>_. None)" and room: "kpt_used (ks_page_tables s) < 32"
    moreover have "kpt_wf (ks_page_tables s)" using wf by (simp add: state_wf_def)
    ultimately show "\<exists>s'. dispatch H s f = Some (s', reply_error H f NotEnoughMemory)
        \<and> kpt_used (ks_page_tables s') = Suc (kpt_used (ks_page_tables s))"
      using vspace_retype_leaks [OF laws _ _ _ cap _ u dest] fails by blast
  next
    fix sz a u'
    assume mr: "h_mr H f 1 = (case sz of Small \<Rightarrow> 7 | Mega \<Rightarrow> 8)" and full: "pool_alloc (ks_frames s) = (\<lambda>_. None)"
      and room: "untyped_frame_alloc u sz = Some (a, u')"
    let ?ot = "case sz of Small \<Rightarrow> OT_FrameSmall | Mega \<Rightarrow> OT_FrameMega"
    have ot: "object_type_from_usize (h_mr H f 1) = Some ?ot"
      "?ot = OT_FrameSmall \<and> sz = Small \<or> ?ot = OT_FrameMega \<and> sz = Mega"
      using mr by (cases sz; simp add: object_type_from_usize_def)+
    note L = frame_retype_leaks [OF laws wf full cap ot u room dest]
    from fails [OF L(1)] L(2,3) u(1)
    show "\<exists>s'. dispatch H s f = Some (s', reply_error H f NotEnoughMemory)
        \<and> pool_get (ks_untypeds s') (untyped_ix uid) = Some u' \<and> ut_cursor u + 2 ^ frame_size_log sz \<le> ut_cursor u'"
      by (intro exI conjI) (assumption, simp, linarith)
  }
qed

lemma demo_full_held:
  assumes f: "h_mr toy f 0 = 3" "h_mr toy f 2 = 20"
  shows "lookup_cap demo_full (TcbId 0) (h_mr toy f 0) = Inr (UntypedCap (UntypedId 0) rights_ALL)"
    and "pool_get (ks_untypeds demo_full) (untyped_ix (UntypedId 0)) = Some \<lparr>ut_remaining = 4, ut_memory = Some (65536, 16777216)\<rparr>"
    and "Option.bind (get_tcb demo_full (TcbId 0)) tcb_cspace = Some (CNodeId 0)"
    and "slot_cap demo_full (CNodeId 0) (h_mr toy f 2) = Some Null"
proof -
  show "lookup_cap demo_full (TcbId 0) (h_mr toy f 0) = Inr (UntypedCap (UntypedId 0) rights_ALL)"
    unfolding f lookup_cap_cong [OF demo_full_fields(1,2)] by (rule demo_held)
  show "pool_get (ks_untypeds demo_full) (untyped_ix (UntypedId 0)) = Some \<lparr>ut_remaining = 4, ut_memory = Some (65536, 16777216)\<rparr>"
    by (simp add: demo_full_fields) (simp add: demo_def demo_pools)
  show "Option.bind (get_tcb demo_full (TcbId 0)) tcb_cspace = Some (CNodeId 0)"
    unfolding demo_full_fields by (simp only: demo_get_tcb) (simp add: demo_tcb_def)
  have slots: "slot_cap demo_full = slot_cap (demo Ready)" by (simp add: slot_cap_def fun_eq_iff demo_full_fields)
  show "slot_cap demo_full (CNodeId 0) (h_mr toy f 2) = Some Null"
    unfolding f slots by (simp add: demo_slot_cap demo_cnode_def cnode_get_def CNODE_SLOTS_def)
qed

theorem failed_retype_keeps_memory_witness:
  "(\<exists>s'. dispatch toy demo_full (regs 10 0 0 3 6 20 0) = Some (s', reply_error toy (regs 10 0 0 3 6 20 0) NotEnoughMemory)
     \<and> kpt_used (ks_page_tables s') = 2)
   \<and> (\<exists>s' u. dispatch toy demo_full (regs 10 0 0 3 7 20 0) = Some (s', reply_error toy (regs 10 0 0 3 7 20 0) NotEnoughMemory)
     \<and> pool_get (ks_untypeds s') 0 = Some u \<and> ut_cursor u \<ge> 65536 + 4096)"
proof (rule conjI)
  let ?f = "regs 10 0 0 3 6 20 0" and ?g = "regs 10 0 0 3 7 20 0"
  have f: "h_syscall_number toy ?f = 10" "h_mr toy ?f 0 = 3" "h_mr toy ?f 1 = 6" "h_mr toy ?f 2 = 20"
    and g: "h_syscall_number toy ?g = 10" "h_mr toy ?g 0 = 3" "h_mr toy ?g 1 = 7" "h_mr toy ?g 2 = 20"
    by (simp_all add: toy_def regs_def)
  note D = demo_full_held [OF f(2,4)] and E = demo_full_held [OF g(2,4)]
  from failed_retype_keeps_memory [OF toy_laws(2) demo_full_running f(1) D(1) rights_ALL_contains(2) D(2) _ D(3,4)] f(3)
  show "\<exists>s'. dispatch toy demo_full ?f = Some (s', reply_error toy ?f NotEnoughMemory) \<and> kpt_used (ks_page_tables s') = 2"
    by (auto simp: demo_full_pool demo_full_used)
  from failed_retype_keeps_memory [OF toy_laws(2) demo_full_running g(1) E(1) rights_ALL_contains(2) E(2) _ E(3,4)] g(3) demo_untyped_alloc
  show "\<exists>s' u. dispatch toy demo_full ?g = Some (s', reply_error toy ?g NotEnoughMemory)
     \<and> pool_get (ks_untypeds s') 0 = Some u \<and> ut_cursor u \<ge> 65536 + 4096"
    by (auto simp: demo_full_pool ut_cursor_def dest!: spec [of _ Small])
qed

section \<open>Address spaces\<close>

text \<open>
  C38. \<open>Map\<close> then \<open>Unmap\<close>: after the \<open>Map\<close> the virtual address translates to the Frame's memory
  in the VSpace named, after the \<open>Unmap\<close> it translates to nothing, and the record of every
  Frame's mappings is back to what it was.
\<close>

theorem map_then_unmap:
  assumes laws: "frame_laws H" "paging_laws H" and run: "running c s"
    and f: "h_syscall_number H f = 13" "tag_label (h_tag H f) = LABEL_MAP"
    and g: "h_syscall_number H g = 13" "tag_label (h_tag H g) = LABEL_UNMAP"
    and args: "h_mr H g 0 = h_mr H f 0" "h_mr H g 1 = h_mr H f 1"
    and cap: "lookup_cap s c (h_mr H f 0) = Inr (FrameCap fid r)" "contains r rights_WRITE"
    and vid: "resolve_vspace s c (h_mr H f 1) = Inr vid" and fr: "pool_get (ks_frames s) (frame_ix fid) = Some fr"
    and new: "\<forall>m\<in>set (fr_mapped_at fr). \<not> maps_vspace vid m"
    and ok: "run_syscall H s c f SysFrameInvoke = Ok s1 f1"
  shows "\<exists>s2 g2 v. dispatch H s f = Some (s1, f1) \<and> dispatch H s1 g = Some (s2, g2)
     \<and> pool_get (ks_vspaces s) (vspace_ix vid) = Some v
     \<and> h_translate H (ks_hw s1) (vs_root v) (h_mr H f 2) = Some (fr_paddr fr)
     \<and> h_translate H (ks_hw s2) (vs_root v) (h_mr H f 2) = None
     \<and> (\<forall>k. pool_get (ks_frames s2) k = pool_get (ks_frames s) k)"
proof -
  have d: "dispatch H s f = Some (s1, f1)"
    by (rule dispatch_Ok [OF run _ ok]) (simp add: f syscall_numbers)
  have inv: "frame_invoke H s c (h_mr H f 0) f = Ok s1 f1" using ok by (simp add: run_syscall_simps)
  then obtain f0 where "frame_map H s c fid f = Ok s1 f0"
    using cap f(2) by (auto simp: frame_invoke_def Let_def split: outcome.splits)
  then have m: "mapped H s c fid f s1"
    using on_okD [OF frame_map_mapped [OF laws(2) runningD(1) [OF run]]] by blast
  from map_unmap [OF laws(2) m vid fr new args(2)] obtain s2 v where un: "frame_unmap H s1 c fid g = Ok s2 g"
    and Q: "pool_get (ks_vspaces s) (vspace_ix vid) = Some v"
      "h_translate H (ks_hw s1) (vs_root v) (h_mr H f 2) = Some (fr_paddr fr)"
      "h_translate H (ks_hw s2) (vs_root v) (h_mr H f 2) = None"
      "\<forall>k. pool_get (ks_frames s2) k = pool_get (ks_frames s) k" by blast
  have same: "ks_tcbs s1 = ks_tcbs s" "ks_cnodes s1 = ks_cnodes s" using m by (auto simp: mapped_def)
  have cur: "current_of s1 = Some c" using on_okD [OF frame_stays inv] runningD(5) [OF run] by simp
  have run1: "running c s1" using dispatch_inv [OF laws, of s f] d cur run by (auto simp: running_def)
  have "frame_invoke H s1 c (h_mr H g 0) g = Ok s2 (reply_success H g)"
    using cap g(2) un lookup_cap_cong [OF same] by (simp add: frame_invoke_def Let_def args LABEL_MAP_def LABEL_UNMAP_def)
  then have "dispatch H s1 g = Some (s2, reply_success H g)"
    by (intro dispatch_Ok [OF run1, where n = SysFrameInvoke]) (simp_all add: g syscall_numbers run_syscall_simps)
  with d Q show ?thesis by blast
qed

theorem map_then_unmap_witness:
  "\<exists>s1 f1 s2 g2. dispatch toy (demo Ready) (regs 13 1 0 5 4 65536 3) = Some (s1, f1)
     \<and> dispatch toy s1 (regs 13 2 0 5 4 0 0) = Some (s2, g2)
     \<and> h_translate toy (ks_hw s1) 2147483648 65536 = Some 8192 \<and> h_translate toy (ks_hw s2) 2147483648 65536 = None"
proof -
  let ?f = "regs 13 1 0 5 4 65536 3" and ?g = "regs 13 2 0 5 4 0 0"
  have run: "running (TcbId 0) (demo Ready)" by (rule demo_running) simp
  have f: "h_syscall_number toy ?f = 13" "tag_label (h_tag toy ?f) = LABEL_MAP" "h_mr toy ?f 0 = 5" "h_mr toy ?f 1 = 4" "h_mr toy ?f 2 = 65536"
    and g: "h_syscall_number toy ?g = 13" "tag_label (h_tag toy ?g) = LABEL_UNMAP" "h_mr toy ?g 0 = 5" "h_mr toy ?g 1 = 4"
    by (simp_all add: toy_def regs_def LABEL_MAP_def LABEL_UNMAP_def)
  have args: "h_mr toy ?g 0 = h_mr toy ?f 0" "h_mr toy ?g 1 = h_mr toy ?f 1" unfolding f g by simp_all
  have cap: "lookup_cap (demo Ready) (TcbId 0) (h_mr toy ?f 0) = Inr (FrameCap (FrameId 0) rights_ALL)"
    unfolding f by (rule demo_held)
  have vid: "resolve_vspace (demo Ready) (TcbId 0) (h_mr toy ?f 1) = Inr (VSpaceId 0)"
    unfolding f by (simp add: resolve_vspace_def demo_held rights_ALL_contains)
  have fr: "pool_get (ks_frames (demo Ready)) (frame_ix (FrameId 0)) = Some demo_frame" by (rule demo_frame_get)
  have v: "pool_get (ks_vspaces (demo Ready)) (vspace_ix (VSpaceId 0)) = Some \<lparr>vs_root = 2147483648\<rparr>"
    by (simp add: demo_def demo_pools)
  obtain s1 f1 where ok: "run_syscall toy (demo Ready) (TcbId 0) ?f SysFrameInvoke = Ok s1 f1"
    using demo_maps [OF f(2) f(4,5), of Ready] f(3) by (auto simp: run_syscall_simps)
  from map_then_unmap [OF toy_laws run f(1,2) g(1,2) args cap rights_ALL_contains(2) vid fr _ ok] v
  show ?thesis unfolding f(5) by (auto simp: demo_frame_def maps_vspace_def)
qed

text \<open>
  C33. A Frame is never shared more than twice: a \<open>Map\<close> of a Frame whose two mappings are both
  in use is refused with \<open>IllegalOperation\<close>, whatever the VSpace and address, and changes
  nothing; in every state with the invariant a Frame records exactly two possible mappings.
\<close>

theorem third_mapping_refused:
  assumes run: "running c s" and num: "h_syscall_number H f = 13" "tag_label (h_tag H f) = LABEL_MAP"
    and cap: "lookup_cap s c (h_mr H f 0) = Inr (FrameCap fid r)" "contains r rights_WRITE"
    and vid: "resolve_vspace s c (h_mr H f 1) = Inr vid" and fr: "pool_get (ks_frames s) (frame_ix fid) = Some fr"
    and used: "None \<notin> set (fr_mapped_at fr)"
  shows "length (fr_mapped_at fr) = 2 \<and> dispatch H s f = Some (s, reply_error H f IllegalOperation)"
proof -
  have "m \<noteq> None" if "m \<in> set (fr_mapped_at fr)" for m
  proof
    assume "m = None"
    with that used show False by simp
  qed
  then have "find_position (\<lambda>m. m = None) 0 (fr_mapped_at fr) = None"
    unfolding find_position_None by blast
  then have "frame_map H s c fid f = Err IllegalOperation s f" using vid fr by (simp add: frame_map_def Let_def)
  then have "frame_invoke H s c (h_mr H f 0) f = Err IllegalOperation s f"
    using cap num(2) by (simp add: frame_invoke_def Let_def)
  then have "dispatch H s f = Some (s, reply_error H f IllegalOperation)"
    by (intro dispatch_Err [OF run, where n = SysFrameInvoke]) (simp_all add: num syscall_numbers run_syscall_simps)
  moreover have "frame_wf fr" using wf_objects(5) [OF runningD(1) [OF run] fr] .
  ultimately show ?thesis by (simp add: frame_wf_def MAX_FRAME_MAPPINGS_def)
qed

theorem third_mapping_refused_witness:
  "dispatch toy demo_shared (regs 13 1 0 5 4 131072 3) = Some (demo_shared, reply_error toy (regs 13 1 0 5 4 131072 3) IllegalOperation)"
proof -
  let ?f = "regs 13 1 0 5 4 131072 3"
  have f: "h_syscall_number toy ?f = 13" "tag_label (h_tag toy ?f) = LABEL_MAP" "h_mr toy ?f 0 = 5" "h_mr toy ?f 1 = 4"
    by (simp_all add: toy_def regs_def LABEL_MAP_def)
  have cap: "lookup_cap demo_shared (TcbId 0) (h_mr toy ?f 0) = Inr (FrameCap (FrameId 0) rights_ALL)"
    unfolding f lookup_cap_cong [OF demo_shared_fields(1,2)] by (rule demo_held)
  have vid: "resolve_vspace demo_shared (TcbId 0) (h_mr toy ?f 1) = Inr (VSpaceId 0)"
    unfolding f resolve_vspace_cong [OF demo_shared_fields(1,2)]
    by (simp add: resolve_vspace_def demo_held rights_ALL_contains)
  from third_mapping_refused [OF demo_shared_running f(1,2) cap rights_ALL_contains(2) vid demo_shared_frame]
  show ?thesis by (simp add: shared_frame_def)
qed

section \<open>Threads\<close>

text \<open>
  C39. \<open>TCBConfigure\<close> gives a thread its CSpace, scheduling context and address space, and
  admits it exactly once: an inactive thread becomes ready, last in the ready queue; for any
  other thread no state and no queue changes.
\<close>

theorem configure_admits_once:
  assumes run: "running c s" and num: "h_syscall_number H f = 11"
    and cap: "lookup_cap s c (h_mr H f 0) = Inr (TcbCap t r)" "contains r rights_WRITE"
    and cs: "lookup_cap s c (h_mr H f 1) = Inr (CNodeCap i)"
    and sc: "lookup_cap s c (h_mr H f 2) = Inr (SchedContextCap k rs)"
    and vs: "resolve_address_space s c (h_mr H f 3) = Inr a" and t: "get_tcb s t = Some x"
  shows "\<exists>s' y. dispatch H s f = Some (s', reply_success H f) \<and> get_tcb s' t = Some y
     \<and> tcb_cspace y = Some i \<and> tcb_sched_context y = Some k \<and> tcb_address_space y = a
     \<and> threads_of s' = (if tcb_state x = Inactive then shift (threads_of s) t Ready else threads_of s)"
proof -
  let ?s1 = "update_tcb s t (\<lambda>tcb. tcb\<lparr>tcb_cspace := Some i, tcb_sched_context := Some k, tcb_address_space := a\<rparr>)"
  let ?s' = "if tcb_state x = Inactive then make_ready ?s1 t else ?s1"
  have "configure H s c (h_mr H f 0) f = Ok ?s' (reply_success H f)"
    using cap cs sc vs t by (simp add: configure_def Let_def)
  then have "dispatch H s f = Some (?s', reply_success H f)"
    by (intro dispatch_Ok [OF run, where n = SysTCBConfigure]) (simp_all add: num syscall_numbers run_syscall_simps)
  moreover have "get_tcb ?s1 t = Some (x\<lparr>tcb_cspace := Some i, tcb_sched_context := Some k, tcb_address_space := a\<rparr>)"
    using t by simp
  then have "\<exists>y. get_tcb ?s' t = Some y \<and> tcb_cspace y = Some i \<and> tcb_sched_context y = Some k \<and> tcb_address_space y = a"
    by (auto simp: make_ready_def)
  moreover have "threads_of ?s' = (if tcb_state x = Inactive then shift (threads_of s) t Ready else threads_of s)"
    using configure_view [OF run t refl] by simp
  ultimately show ?thesis by blast
qed

theorem configure_admits_once_witness:
  "\<exists>s' y. dispatch toy (demo Inactive) (regs 11 0 0 7 6 8 0) = Some (s', reply_success toy (regs 11 0 0 7 6 8 0))
     \<and> get_tcb s' (TcbId 1) = Some y \<and> tcb_cspace y = Some (CNodeId 0)
     \<and> threads_of s' = shift (threads_of (demo Inactive)) (TcbId 1) Ready"
proof -
  let ?f = "regs 11 0 0 7 6 8 0"
  have run: "running (TcbId 0) (demo Inactive)" by (rule demo_running) simp
  have f: "h_syscall_number toy ?f = 11" "h_mr toy ?f 0 = 7" "h_mr toy ?f 1 = 6" "h_mr toy ?f 2 = 8" "h_mr toy ?f 3 = 0"
    by (simp_all add: toy_def regs_def)
  have cap: "lookup_cap (demo Inactive) (TcbId 0) (h_mr toy ?f 0) = Inr (TcbCap (TcbId 1) rights_ALL)"
    and cs: "lookup_cap (demo Inactive) (TcbId 0) (h_mr toy ?f 1) = Inr (CNodeCap (CNodeId 0))"
    and sc: "lookup_cap (demo Inactive) (TcbId 0) (h_mr toy ?f 2) = Inr (SchedContextCap (SchedContextId 0) rights_ALL)"
    unfolding f by (rule demo_held)+
  have vs: "resolve_address_space (demo Inactive) (TcbId 0) (h_mr toy ?f 3) = Inr None"
    unfolding f by (simp add: resolve_address_space_def)
  have t: "get_tcb (demo Inactive) (TcbId 1) = Some (demo_tcb Inactive None)" by (simp only: demo_get_tcb) simp
  from configure_admits_once [OF run f(1) cap rights_ALL_contains(2) cs sc vs t] show ?thesis
    by (auto simp: demo_tcb_def)
qed

end
