(* ===== verification/Compartment.thy ===== *)
theory Compartment
  imports Atomic
begin

text \<open>
  Compartments. A set \<open>K\<close> of objects is \<open>closed\<close> when nothing in it leads out of it: the
  capabilities in its CNodes and in flight from its threads, the CSpaces and reply links of its
  threads, and the threads queued at its endpoints and notifications. When a set and its
  complement are both closed, no trap of a thread on one side changes the other, and both stay
  closed.
\<close>

section \<open>Closed sets of objects\<close>

definition cap_in :: "object_ref set \<Rightarrow> capability \<Rightarrow> bool" where
  "cap_in K k \<longleftrightarrow> (\<forall>r. cap_object k = Some r \<longrightarrow> r \<in> K)"

fun in_flight :: "thread_state \<Rightarrow> capability option" where
  "in_flight (BlockedSend e b k x d) = x"
| "in_flight _ = None"

definition tcb_in :: "object_ref set \<Rightarrow> 'b tcb \<Rightarrow> bool" where
  "tcb_in K x \<longleftrightarrow> (\<forall>i. tcb_cspace x = Some i \<longrightarrow> RCNode i \<in> K)
     \<and> (\<forall>u. tcb_reply_to x = Some u \<longrightarrow> RTcb u \<in> K)
     \<and> (\<forall>k. in_flight (tcb_state x) = Some k \<longrightarrow> cap_in K k)"

definition holds_in :: "object_ref set \<Rightarrow> ('b, 'h) kernel_state \<Rightarrow> bool" where
  "holds_in K s \<longleftrightarrow> (\<forall>i j k. RCNode i \<in> K \<longrightarrow> slot_cap s i j = Some k \<longrightarrow> cap_in K k)
     \<and> (\<forall>t x. RTcb t \<in> K \<longrightarrow> get_tcb s t = Some x \<longrightarrow> tcb_in K x)"

definition queues_in :: "object_ref set \<Rightarrow> ('b, 'h) kernel_state \<Rightarrow> bool" where
  "queues_in K s \<longleftrightarrow>
     (\<forall>e t. REndpoint e \<in> K \<longrightarrow> t \<in> set (wait_list s (PSend e)) \<union> set (wait_list s (PRecv e)) \<longrightarrow> RTcb t \<in> K)
   \<and> (\<forall>n t. RNotification n \<in> K \<longrightarrow> t \<in> set (wait_list s (PWait n)) \<longrightarrow> RTcb t \<in> K)"

definition closed :: "object_ref set \<Rightarrow> ('b, 'h) kernel_state \<Rightarrow> bool" where
  "closed K s \<longleftrightarrow> holds_in K s \<and> queues_in K s \<and> (\<forall>t. RReply t \<in> K \<longleftrightarrow> RTcb t \<in> K)"

definition separated :: "object_ref set \<Rightarrow> ('b, 'h) kernel_state \<Rightarrow> bool" where
  "separated K s \<longleftrightarrow> closed K s \<and> closed (- K) s"

lemma holds_inD:
  assumes "holds_in K s"
  shows "RCNode i \<in> K \<Longrightarrow> slot_cap s i j = Some k \<Longrightarrow> cap_in K k"
    and "RTcb t \<in> K \<Longrightarrow> get_tcb s t = Some x \<Longrightarrow> tcb_in K x"
    and "RTcb t \<in> K \<Longrightarrow> Option.bind (get_tcb s t) tcb_cspace = Some i \<Longrightarrow> RCNode i \<in> K"
proof -
  show "RCNode i \<in> K \<Longrightarrow> slot_cap s i j = Some k \<Longrightarrow> cap_in K k"
    and tcb: "RTcb t \<in> K \<Longrightarrow> get_tcb s t = Some x \<Longrightarrow> tcb_in K x" for x
    using assms unfolding holds_in_def by blast+
  then show "RTcb t \<in> K \<Longrightarrow> Option.bind (get_tcb s t) tcb_cspace = Some i \<Longrightarrow> RCNode i \<in> K"
    by (auto simp: bind_eq_Some_conv tcb_in_def)
qed

section \<open>A closed set has the authority of its threads\<close>

lemma wields_in:
  assumes "holds_in K s" and "RTcb c \<in> K" and "wields s c k"
  shows "cap_in K k"
proof -
  from assms(3) obtain p where "lookup_cap s c p = Inr k" by (auto simp: wields_def)
  then obtain i where "Option.bind (get_tcb s c) tcb_cspace = Some i" and "slot_cap s i p = Some k"
    by (rule lookup_cap_Inr)
  with holds_inD(1,3) [OF assms(1)] assms(2) show ?thesis by blast
qed

lemma may_wake_in:
  assumes K: "closed K s" "RTcb c \<in> K" and w: "may_wake s c t"
  shows "RTcb t \<in> K"
proof -
  have held: "cap_in K k" if "wields s c k" for k using wields_in [of K s c k] K that by (simp add: closed_def)
  from w show ?thesis
    unfolding may_wake_def
  proof (elim disjE exE conjE)
    fix x assume "get_tcb s c = Some x" and "tcb_reply_to x = Some t"
    with K show ?thesis by (auto simp: closed_def holds_in_def tcb_in_def)
  qed (use K held in \<open>force simp: closed_def queues_in_def cap_in_def simp del: wait_list.simps\<close>)+
qed

lemma may_touch_in:
  assumes K: "closed K s" "RTcb c \<in> K" and r: "may_touch s c r"
  shows "r \<in> K"
proof -
  have held: "cap_in K k" if "wields s c k" for k using wields_in [of K s c k] K that by (simp add: closed_def)
  have space: "RCNode i \<in> K" if "RTcb t \<in> K" "uses_cspace s t i" for t i
    using holds_inD(3) [of K s t i] K that by (simp add: closed_def uses_cspace_def)
  have thread: "RTcb t \<in> K" if "touch_thread s c t" for t
    using that may_wake_in [OF K] K(2) held by (auto simp: touch_thread_def cap_in_def)
  show ?thesis
  proof (cases r)
    case (RCNode i)
    from r have "wields s c (CNodeCap i) \<or> uses_cspace s c i \<or> (\<exists>t. may_wake s c t \<and> uses_cspace s t i)"
      by (simp add: RCNode)
    with held [of "CNodeCap i"] space K(2) may_wake_in [OF K] show ?thesis unfolding RCNode cap_in_def by auto
  next
    case (RReply t)
    with r thread K(1) show ?thesis by (auto simp: closed_def)
  qed (use r held thread in \<open>auto simp: cap_in_def\<close>)
qed

section \<open>What a trap stores stays inside\<close>

named_theorems holds_rules

lemma holds_update_tcb:
  assumes "holds_in K s" and "\<And>x. get_tcb s t = Some x \<Longrightarrow> RTcb t \<in> K \<Longrightarrow> tcb_in K x \<Longrightarrow> tcb_in K (f x)"
  shows "holds_in K (update_tcb s t f)"
  using assms unfolding holds_in_def by (auto simp: slot_cap_def split: if_splits)

lemma holds_keep [holds_rules]:
  "holds_in K s \<Longrightarrow> (\<And>x. tcb_cspace (f x) = tcb_cspace x) \<Longrightarrow> (\<And>x. tcb_reply_to (f x) = tcb_reply_to x)
    \<Longrightarrow> (\<And>x. tcb_state (f x) = tcb_state x) \<Longrightarrow> holds_in K (update_tcb s t f)"
  by (rule holds_update_tcb) (simp_all add: tcb_in_def)

lemma holds_set_state [holds_rules]:
  "holds_in K s \<Longrightarrow> (\<And>k. in_flight x = Some k \<Longrightarrow> cap_in K k) \<Longrightarrow> holds_in K (set_thread_state s t x)"
  unfolding set_thread_state_def by (rule holds_update_tcb) (simp_all add: tcb_in_def)

lemma holds_cong:
  "holds_in K s \<Longrightarrow> ks_cnodes s' = ks_cnodes s \<Longrightarrow> ks_tcbs s' = ks_tcbs s \<Longrightarrow> holds_in K s'"
  by (simp add: holds_in_def slot_cap_def)

lemma holds_other [holds_rules]:
  "holds_in K s \<Longrightarrow> holds_in K (set_current s u)"
  "holds_in K s \<Longrightarrow> holds_in K (push_ready s t)"
  "holds_in K s \<Longrightarrow> holds_in K (set_endpoint_queue s e q)"
  "holds_in K s \<Longrightarrow> holds_in K (update_notification s n g)"
  "holds_in K s \<Longrightarrow> holds_in K (s\<lparr>ks_hw := h\<rparr>)"
  "holds_in K s \<Longrightarrow> holds_in K (s\<lparr>ks_scheduler := x\<rparr>)"
  by (erule holds_cong; simp)+

lemma holds_put [holds_rules]:
  assumes "holds_in K s" and "cap_in K cap"
  shows "holds_in K (s\<lparr>ks_cnodes := pool_modify (ks_cnodes s) (cnode_ix i) (\<lambda>c. cnode_put c j cap)\<rparr>)"
    and "holds_in K (write_slot s i j cap)"
proof -
  show "holds_in K (s\<lparr>ks_cnodes := pool_modify (ks_cnodes s) (cnode_ix i) (\<lambda>c. cnode_put c j cap)\<rparr>)"
    using assms by (auto simp: holds_in_def slot_cap_put split: if_splits)
  then show "holds_in K (write_slot s i j cap)" by (simp add: write_slot_def)
qed

lemma holds_composed [holds_rules]:
  "holds_in K s \<Longrightarrow> holds_in K (deliver_payload s t b m1 m2 m3 tg)"
  "holds_in K s \<Longrightarrow> holds_in K (save_current H s f)"
  "holds_in K s \<Longrightarrow> holds_in K (make_ready s t)"
  "holds_in K s \<Longrightarrow> holds_in K (fst (resume H s f n))"
  by (auto simp: deliver_payload_def save_current_def make_ready_def resume_def Let_def split: option.split intro!: holds_rules)

lemma holds_switch: "switch_to H s f n = (s', f') \<Longrightarrow> holds_in K s \<Longrightarrow> holds_in K s'"
  using holds_composed(4) [OF holds_composed(2), of K s H H f f n] by (simp add: switch_to_def)

lemma holds_block:
  assumes b: "block_current H s f = Some (g, s', f')" and ok: "holds_in K s"
  shows "holds_in K s'"
proof (cases "has_ready s")
  case True
  then obtain n q where "(s', f') = resume H (set_current (save_current H s f) None
      \<lparr>ks_scheduler := ks_scheduler (set_current (save_current H s f) None)\<lparr>sch_ready := q\<rparr>\<rparr>) f n"
    using b by (auto simp: block_current_def Let_def split: option.splits prod.splits dest: sym)
  then have "s' = fst (resume H (set_current (save_current H s f) None
      \<lparr>ks_scheduler := ks_scheduler (set_current (save_current H s f) None)\<lparr>sch_ready := q\<rparr>\<rparr>) f n)"
    by (metis fst_conv)
  then show ?thesis using ok by (auto intro!: holds_rules)
qed (use b ok in \<open>simp add: block_current_def\<close>)

lemma holds_offer:
  assumes off: "offer_cap s t d x = Inr s1" and ok: "holds_in K s" and x: "\<And>k. x = Some k \<Longrightarrow> cap_in K k"
  shows "holds_in K s1"
  using off by (cases rule: offer_cap_Inr) (use ok x in \<open>auto intro: holds_put\<close>)

section \<open>The handlers\<close>

lemma block_on_endpoint_holds:
  assumes "holds_in K s" and "\<And>k. in_flight x = Some k \<Longrightarrow> cap_in K k"
  shows "on_return (holds_in K) (block_on_endpoint H s f c e side q x)"
  unfolding block_on_endpoint_def Let_def
  by (insert assms; intro peel_on_return)
    (auto split: option.split bool.split intro!: holds_rules dest!: holds_block)

lemma extra_cap_in:
  assumes "holds_in K s" and "RTcb c \<in> K" and "extract_extra_cap H s c f tg = Inr (Some k)"
  shows "cap_in K k"
proof -
  have "wields s c k"
    using assms(3) by (auto simp: extract_extra_cap_def resolve_transferable_cap_def wields_def split: if_splits sum.splits)
  with wields_in assms(1,2) show ?thesis by blast
qed

lemma send_holds:
  assumes "holds_in K s" and "RTcb c \<in> K"
  shows "on_return (holds_in K) (send H s c p f nb)"
  unfolding send_def Let_def
proof (intro peel_on_return, goal_cases)
qed (use assms extra_cap_in [OF assms] in \<open>auto intro!: holds_rules block_on_endpoint_holds elim!: holds_offer\<close>)

lemma call_holds:
  assumes "holds_in K s" and "RTcb c \<in> K"
  shows "on_return (holds_in K) (call H s c p f)"
proof -
  have link: "holds_in K (update_tcb s t (\<lambda>x. x\<lparr>tcb_reply_to := Some c\<rparr>))" if "holds_in K s" for s t
    using that by (rule holds_update_tcb) (simp add: tcb_in_def assms(2))
  show ?thesis
    unfolding call_def Let_def
  proof (intro peel_on_return, goal_cases)
  qed (use assms extra_cap_in [OF assms] in \<open>auto intro!: holds_rules link block_on_endpoint_holds
         elim!: holds_switch holds_offer\<close>)
qed

lemma reply_holds:
  assumes "holds_in K s" and "RTcb c \<in> K"
  shows "on_return (holds_in K) (reply H s c f)"
proof -
  have spend: "holds_in K (update_tcb s t (\<lambda>x. x\<lparr>tcb_reply_to := None\<rparr>))" if "holds_in K s" for s t
    using that by (rule holds_update_tcb) (simp add: tcb_in_def)
  show ?thesis
    unfolding reply_def Let_def
  proof (intro peel_on_return, goal_cases)
  qed (use assms extra_cap_in [OF assms] in \<open>auto intro!: holds_rules spend elim!: holds_switch holds_offer\<close>)
qed

lemma recv_holds:
  assumes K: "closed K s" "RTcb c \<in> K" and wf: "state_wf s"
  shows "on_return (holds_in K) (recv H s c p f)"
proof -
  have h: "holds_in K s" using K(1) by (simp add: closed_def)
  have sender: "RTcb t \<in> K"
    if "resolve_endpoint s c p rights_READ = Inr (e, b)" "pool_get (ks_endpoints s) (endpoint_ix e) = Some ep"
      "ep_queue ep = QSend q" "aq_front q = Some t \<or> aq_pop_front q = (Some t, q')" for e b ep q t q'
    using may_wake_in [OF K wakes_sender [OF wf that]] .
  have flight: "cap_in K k"
    if "RTcb t \<in> K" "get_tcb s t = Some x" "tcb_state x = BlockedSend e b a (Some k) d" for t x e b a k d
    using holds_inD(2) [OF h that(1,2)] that(3) by (simp add: tcb_in_def)
  have link: "holds_in K (update_tcb s c (\<lambda>x. x\<lparr>tcb_reply_to := Some t\<rparr>))" if "holds_in K s" "RTcb t \<in> K" for s t
    using that(1) by (rule holds_update_tcb) (simp add: tcb_in_def that(2))
  show ?thesis
    unfolding recv_def Let_def
  proof (intro peel_on_return, goal_cases)
  qed (use h in \<open>auto intro!: holds_rules link block_on_endpoint_holds intro: sender flight elim!: holds_offer\<close>)
qed

lemma notification_holds:
  assumes "holds_in K s"
  shows "on_return (holds_in K) (signal H s c p f)" and "on_return (holds_in K) (poll H s c p f)"
    and "on_return (holds_in K) (wait H s c p f)" and "on_return (holds_in K) (yield_now H s c f)"
  unfolding signal_def poll_def wait_def yield_now_def Let_def
  by (insert assms; intro peel_on_return;
      auto split: option.split bool.split intro!: holds_rules dest!: holds_block)+

lemma configure_holds:
  assumes "holds_in K s" and "RTcb c \<in> K"
  shows "on_return (holds_in K) (configure H s c p f)"
proof -
  have cs: "RCNode i \<in> K" if "lookup_cap s c q = Inr (CNodeCap i)" for q i
    using wields_in [OF assms, of "CNodeCap i"] that by (auto simp: wields_def cap_in_def)
  have set: "holds_in K (update_tcb s t (\<lambda>x. x\<lparr>tcb_cspace := Some i, tcb_sched_context := a, tcb_address_space := b\<rparr>))"
    if "RCNode i \<in> K" for t i a b
    using assms(1) by (rule holds_update_tcb) (simp add: tcb_in_def that)
  show ?thesis
    unfolding configure_def Let_def
    by (insert assms(1); intro peel_on_return) (auto intro!: holds_rules set intro: cs)
qed

lemma cap_in_Null [simp]: "cap_in K Null"
  by (simp add: cap_in_def)

lemma cap_in_le: "cap_in K k \<Longrightarrow> cap_le k' k \<Longrightarrow> cap_in K k'"
  by (simp add: cap_in_def cap_le_object)

lemma cnode_holds:
  assumes h: "holds_in K s" and c: "RTcb c \<in> K"
  shows "on_return (holds_in K) (cnode_invoke H s c p f)"
proof -
  have node: "RCNode i \<in> K" if "lookup_cap s c q = Inr (CNodeCap i)" for q i
    using wields_in [OF assms, of "CNodeCap i"] that by (auto simp: wields_def cap_in_def)
  note slot = holds_inD(1) [OF h]
  have mint: "holds_in K s'" if "RCNode i \<in> K" "mint s i a b d = Inr s'" for i a b d s'
    using that(2)
  proof (rule mint_Inr)
    fix k cap
    assume "slot_cap s i a = Some k" and "is_subset_of (from_bits_truncate (ucast (d AND 255))) (cap_rights k)"
      and "attenuate k (from_bits_truncate (ucast (d AND 255))) (drop_bit 8 d) = Inr cap" and s': "s' = write_slot s i b cap"
    with slot [OF that(1)] attenuate_le(1) cap_in_le have "cap_in K cap" by blast
    with h show "holds_in K s'" unfolding s' by (rule holds_put)
  qed
  show ?thesis
    unfolding cnode_invoke_def Let_def
    by (insert h; intro peel_on_return)
      (auto split: if_splits intro!: holds_rules intro: mint node slot
        elim!: copy_Inr move_cap_Inr delete_Inr copy_cross_Inr)
qed

lemma frame_holds: "holds_in K s \<Longrightarrow> on_return (holds_in K) (frame_invoke H s c p f)"
proof -
  assume h: "holds_in K s"
  have keep: "holds_in K (s\<lparr>ks_hw := hw, ks_page_tables := k, ks_frames := p\<rparr>)"
    "holds_in K (s\<lparr>ks_hw := hw, ks_frames := p\<rparr>)" "holds_in K (s\<lparr>ks_page_tables := k\<rparr>)" for hw k p
    by (rule holds_cong [OF h]; simp)+
  have "on_return (holds_in K) (frame_map H s c i f)" "on_return (holds_in K) (frame_unmap H s c i f)" for i
    unfolding frame_map_def frame_unmap_def Let_def by (intro peel_on_return; simp add: keep h)+
  with h show ?thesis
    unfolding frame_invoke_def Let_def by (intro peel_on_return on_return_reply) simp_all
qed

text \<open>New objects belong to the compartment, hold nothing and are held by nobody else.\<close>

lemma retype_object_holds:
  assumes h: "holds_in K s" and wf: "state_wf s" and new: "retype_object H s uid ot = Some (r, s')"
  shows "holds_in K s'"
proof -
  have node: "holds_in K (s\<lparr>ks_cnodes := p\<rparr>)" if al: "pool_alloc (ks_cnodes s) cnode_empty = Some (k, p)" for k p
  proof -
    have get: "pool_get p = (pool_get (ks_cnodes s))(k := Some cnode_empty)"
      using pool.alloc_Some [OF pool_sizes(1) [OF wf] al] by simp
    have "cap_in K x" if "RCNode i \<in> K" "slot_cap (s\<lparr>ks_cnodes := p\<rparr>) i j = Some x" for i j x
      using that holds_inD(1) [OF h that(1), of j x]
      by (cases "cnode_ix i = k") (auto simp: slot_cap_def get cnode_get_empty split: if_splits)
    with h show ?thesis by (simp add: holds_in_def)
  qed
  have tcb: "holds_in K (s\<lparr>ks_tcbs := p\<rparr>)" if al: "pool_alloc (ks_tcbs s) (tcb_new H) = Some (k, p)" for k p
  proof -
    have "tcb_in K (tcb_new H)" by (simp add: tcb_in_def tcb_new_def)
    with h pool.alloc_Some [OF pool_sizes(2) [OF wf] al] show ?thesis by (simp add: holds_in_def slot_cap_def)
  qed
  have other: "ks_cnodes s1 = ks_cnodes s \<Longrightarrow> ks_tcbs s1 = ks_tcbs s \<Longrightarrow> holds_in K s1" for s1
    by (rule holds_cong [OF h])
  from new h show ?thesis
    by (auto simp: retype_object_def Let_def node tcb split: object_type.splits option.splits prod.splits intro: other)
qed

lemma retype_holds:
  assumes laws: "frame_laws H" "paging_laws H" and run: "running c s" and h: "holds_in K s"
    and fresh: "\<And>r. \<not> object_exists s r \<Longrightarrow> r \<in> K"
  shows "on_return (holds_in K) (untyped_retype H s c p f)"
proof -
  note wf = runningD(1) [OF run]
  have commit: "holds_in K s2"
    if u: "pool_get (ks_untypeds s) (untyped_ix uid) = Some u"
      and new: "retype_object H s uid ot = Some (Inr cap, s1)" and com: "retype_commit s1 i d uid cap = Some s2"
    for uid u ot cap s1 i d s2
  proof -
    have "fresh_object s s1 cap"
      by (rule retype_object_cases [OF laws runningD(1,3) [OF run] u, of ot]) (use new in auto)
    then have "cap_in K cap" using fresh by (auto simp: fresh_object_def cap_in_def)
    from holds_put(1) [OF retype_object_holds [OF h wf new] this, of i d]
    have put: "holds_in K (s1\<lparr>ks_cnodes := pool_modify (ks_cnodes s1) (cnode_ix i) (\<lambda>c. cnode_put c d cap)\<rparr>)" .
    show ?thesis
      using com by (auto simp: retype_commit_def Let_def split: option.splits if_splits intro: holds_cong [OF put])
  qed
  show ?thesis
    unfolding untyped_retype_def Let_def
    by (insert h; intro peel_on_return) (auto intro: commit retype_object_holds [OF h wf])
qed

lemma run_syscall_holds:
  assumes laws: "frame_laws H" "paging_laws H" and run: "running c s" and K: "closed K s" "RTcb c \<in> K"
    and fresh: "\<And>r. \<not> object_exists s r \<Longrightarrow> r \<in> K"
  shows "on_return (holds_in K) (run_syscall H s c f n)"
proof -
  have h: "holds_in K s" using K(1) by (simp add: closed_def)
  note wf = runningD(1) [OF run]
  show ?thesis
    by (cases n) (simp_all add: run_syscall_def h K(2) send_holds recv_holds [OF K wf] call_holds reply_holds
        notification_holds cnode_holds configure_holds frame_holds retype_holds [OF laws run h fresh])
qed

section \<open>The other side\<close>

lemma closed_more: "closed K s \<Longrightarrow> closed (K \<union> {r. \<not> object_exists s r}) s"
proof -
  assume K: "closed K s"
  let ?K = "K \<union> {r. \<not> object_exists s r}"
  have cap: "cap_in ?K k" if "cap_in K k" for k using that by (auto simp: cap_in_def)
  have tcb: "tcb_in ?K x" if "tcb_in K x" for x using that cap by (auto simp: tcb_in_def)
  have "cap_in ?K k" if "RCNode i \<in> ?K" "slot_cap s i j = Some k" for i j k
    using that holds_inD(1) [of K s i j k] K cap by (auto simp: closed_def slot_cap_def)
  moreover have "tcb_in ?K x" if "RTcb t \<in> ?K" "get_tcb s t = Some x" for t x
    using that holds_inD(2) [of K s t x] K tcb by (auto simp: closed_def)
  ultimately have "holds_in ?K s" unfolding holds_in_def by blast
  moreover have "queues_in ?K s" using K by (auto simp: closed_def queues_in_def split: option.splits)
  ultimately show ?thesis using K by (auto simp: closed_def)
qed

lemma closed_existing:
  assumes K: "closed K s" and inv: "kernel_inv s"
  shows "closed (K \<inter> {r. object_exists s r}) s"
proof -
  let ?K = "K \<inter> {r. object_exists s r}"
  have nd: "no_dangling s" and q: "queued_once (threads_of s)" and rep: "replies_ok (threads_of s)"
    using inv by (simp_all add: kernel_inv_def threads_ok_def)
  have cap: "cap_in ?K k" if "cap_in K k" "k = Null \<or> k \<in> caps_of s" for k
    using that nd by (auto simp: cap_in_def no_dangling_def)
  have stored: "k = Null \<or> k \<in> caps_of s" if "slot_cap s i j = Some k" for i j k
    using that slot_cap_mem by blast
  have flying: "k \<in> caps_of s" if "get_tcb s t = Some x" "in_flight (tcb_state x) = Some k" for t x k
    using that by (cases "tcb_state x") (auto simp: caps_of_def flight_caps_def intro!: exI [of _ t])
  have tcb: "tcb_in ?K x" if x: "tcb_in K x" "get_tcb s t = Some x" for t x
    unfolding tcb_in_def
  proof (intro conjI allI impI)
    fix i assume "tcb_cspace x = Some i"
    moreover from this have "i \<in> cspaces s" unfolding cspaces_def using x(2) by (auto intro: exI [of _ t])
    ultimately show "RCNode i \<in> ?K" using x(1) nd by (auto simp: tcb_in_def no_dangling_def)
  next
    fix u assume u: "tcb_reply_to x = Some u"
    then have "tv_reply (threads_of s) t = Some u" using x(2) by simp
    with rep obtain d where "tv_state (threads_of s) u = Some (BlockedReply d)" unfolding replies_ok_def by blast
    with u x(1) show "RTcb u \<in> ?K" by (auto simp: tcb_in_def)
  next
    fix k assume "in_flight (tcb_state x) = Some k"
    with x flying [OF x(2)] show "cap_in ?K k" by (intro cap) (auto simp: tcb_in_def)
  qed
  have waits: "object_exists s (RTcb t)" if "t \<in> set (wait_list s p)" for t p
    using queued_place [OF q, of t p] that by auto
  have "holds_in ?K s" using holds_inD(1,2) [of K s] K cap [OF _ stored] tcb unfolding closed_def holds_in_def by blast
  moreover have "queues_in ?K s" using K waits unfolding closed_def queues_in_def by blast
  moreover have "RReply t \<in> ?K \<longleftrightarrow> RTcb t \<in> ?K" for t using K by (auto simp: closed_def)
  ultimately show ?thesis unfolding closed_def by blast
qed

lemma closed_kept:
  assumes K: "closed K s" and kept: "\<And>r. r \<in> K \<Longrightarrow> object_exists s r \<and> object_kept s s' r"
  shows "closed K s'"
proof -
  have slot: "slot_cap s' i j = slot_cap s i j" if "RCNode i \<in> K" for i j
    using kept [OF that] by (auto simp: slot_cap_def)
  have ep: "wait_list s' (PSend e) = wait_list s (PSend e)" "wait_list s' (PRecv e) = wait_list s (PRecv e)"
    if "REndpoint e \<in> K" for e using kept [OF that] by auto
  have nt: "wait_list s' (PWait n) = wait_list s (PWait n)" if "RNotification n \<in> K" for n using kept [OF that] by auto
  have tcb: "tcb_in K y" if t: "RTcb t \<in> K" "get_tcb s' t = Some y" for t y
  proof -
    obtain x where x: "get_tcb s t = Some x" and y: "y = x \<or> y = x\<lparr>tcb_state := Running\<rparr>"
      using kept [OF t(1)] t(2) by (auto simp: thread_kept_def)
    have "tcb_in K x" using holds_inD(2) [OF _ t(1) x] K by (simp add: closed_def)
    with y show ?thesis by (auto simp: tcb_in_def)
  qed
  have "holds_in K s'" using K slot tcb unfolding closed_def holds_in_def by metis
  moreover have "queues_in K s'" using K ep nt unfolding closed_def queues_in_def by metis
  ultimately show ?thesis using K by (simp add: closed_def)
qed

section \<open>Traps and runs\<close>

lemma tstep_queue:
  "tstep c v v' \<Longrightarrow> p \<noteq> PReady \<Longrightarrow> set (tv_queue v' p) \<subseteq> insert c (set (tv_queue v p))"
  by (cases rule: tstep.cases, assumption) (auto simp: shift_def split: if_splits)

lemma queues_in_step:
  assumes q: "queues_in K s" and c: "RTcb c \<in> K"
    and step: "threads_of s' = threads_of s \<or> tstep c (threads_of s) (threads_of s')"
  shows "queues_in K s'"
proof -
  have sub: "set (wait_list s' p) \<subseteq> insert c (set (wait_list s p))" if "p \<noteq> PReady" for p
    using step
  proof
    assume "threads_of s' = threads_of s"
    from arg_cong [OF this, of "\<lambda>v. tv_queue v p"] show ?thesis by auto
  next
    assume "tstep c (threads_of s) (threads_of s')"
    from tstep_queue [OF this that] show ?thesis by simp
  qed
  show ?thesis
    using q c sub [of "PSend _"] sub [of "PRecv _"] sub [of "PWait _"]
    unfolding queues_in_def by (simp del: wait_list.simps) blast
qed

lemma trap_in_compartment:
  assumes laws: "frame_laws H" "paging_laws H" and inv: "kernel_inv s" and cur: "current_of s = Some c"
    and K: "separated K s" "RTcb c \<in> K" and d: "dispatch H s f = Some (s', f')"
  shows "separated (K \<union> {r. \<not> object_exists s r}) s'" and "r \<notin> K \<Longrightarrow> object_kept s s' r"
proof -
  let ?K = "K \<union> {r. \<not> object_exists s r}"
  have run: "running c s" using inv cur by (simp add: running_def)
  have one: "closed K s" and other: "closed (- K) s" using K(1) by (simp_all add: separated_def)
  have kept: "object_kept s s' r" if "r \<notin> K" for r
    using dispatch_confined [OF inv cur d] may_touch_in [OF one K(2), of r] that unfolding confined_def by blast
  then show "r \<notin> K \<Longrightarrow> object_kept s s' r" .
  have more: "closed ?K s" by (rule closed_more [OF one])
  have "holds_in ?K s'"
  proof (cases "syscall_from_usize (h_syscall_number H f)")
    case None
    with d cur more show ?thesis by (simp add: dispatch_def closed_def)
  next
    case n: (Some n)
    have "on_return (holds_in ?K) (run_syscall H s c f n)"
      by (rule run_syscall_holds [OF laws run more]) (use K(2) in auto)
    with d show ?thesis
      by (cases "run_syscall H s c f n") (auto simp: dispatch_run [OF cur n])
  qed
  moreover have "queues_in ?K s'"
  proof (rule queues_in_step)
    show "queues_in ?K s" using more by (simp add: closed_def)
    show "threads_of s' = threads_of s \<or> tstep c (threads_of s) (threads_of s')"
      using dispatch_step [OF laws inv d] cur by auto
  qed (use K(2) in simp)
  ultimately have "closed ?K s'" using more by (simp add: closed_def)
  moreover have "closed (- ?K) s'"
  proof (rule closed_kept)
    have "- ?K = - K \<inter> {r. object_exists s r}" by auto
    with closed_existing [OF other inv] show "closed (- ?K) s" by simp
  qed (use kept in auto)
  ultimately show "separated ?K s'" by (simp add: separated_def)
qed

lemma separated_compl: "separated (- K) s = separated K s"
  by (auto simp: separated_def)

definition same_side :: "('b, 'h) kernel_state \<Rightarrow> object_ref set \<Rightarrow> object_ref set \<Rightarrow> bool" where
  "same_side s K K' \<longleftrightarrow> (\<forall>r. object_exists s r \<longrightarrow> (r \<in> K' \<longleftrightarrow> r \<in> K))"

lemma trap_separates:
  assumes laws: "frame_laws H" "paging_laws H" and inv: "kernel_inv s" and K: "separated K s"
    and d: "dispatch H s f = Some (s', f')"
  shows "\<exists>K'. separated K' s' \<and> same_side s K K'"
proof (cases "current_of s")
  case None
  with d K show ?thesis by (auto simp: dispatch_def same_side_def)
next
  case (Some c)
  note trap = trap_in_compartment(1) [OF laws inv Some _ _ d]
  show ?thesis
  proof (cases "RTcb c \<in> K")
    case True
    with trap [OF K] show ?thesis by (auto simp: same_side_def)
  next
    case False
    with trap [of "- K"] K have "separated (- K \<union> {r. \<not> object_exists s r}) s'" by (simp add: separated_compl)
    then have "separated (- (- K \<union> {r. \<not> object_exists s r})) s'" by (simp only: separated_compl)
    then show ?thesis by (intro exI conjI) (assumption, auto simp: same_side_def)
  qed
qed

lemma run_traps_separate:
  assumes laws: "frame_laws H" "paging_laws H" and "kernel_inv s" and "separated K s" and "run_traps H s fs = Some s'"
  shows "kernel_inv s' \<and> (\<exists>K'. separated K' s' \<and> same_side s K K')"
  using assms(3-5)
proof (induction fs arbitrary: s K)
  case Nil
  then show ?case by (auto simp: same_side_def)
next
  case (Cons f fs)
  then obtain s1 f1 where d: "dispatch H s f = Some (s1, f1)" and run: "run_traps H s1 fs = Some s'"
    by (auto split: option.splits prod.splits)
  from dispatch_inv [OF laws Cons.prems(1), of f] d have inv1: "kernel_inv s1" by auto
  obtain K1 where K1: "separated K1 s1" "same_side s K K1"
    using trap_separates [OF laws Cons.prems(1,2) d] by blast
  have "object_exists s1 r" if "object_exists s r" for r
    using dispatch_authority [OF laws Cons.prems(1) d] that by (simp add: authority_step_def)
  with Cons.IH [OF inv1 K1(1) run] K1(2) show ?case unfolding same_side_def by blast
qed

end
