(* ===== verification/Isolation.thy ===== *)
theory Isolation
  imports Instance Compartment
begin

text \<open>
  Compartments over whole runs, and a system with two of them on which the property is applied.
\<close>

section \<open>A system with two compartments\<close>

text \<open>
  Thread 0 has an endpoint, an Untyped, a VSpace and a Frame in CNode 0; thread 1 a notification
  in CNode 1.
\<close>

definition left_cnode :: cnode where
  "left_cnode = \<lparr>cnode_slots =
     [Null, EndpointCap (EndpointId 0) 7 rights_ALL, CNodeCap (CNodeId 0), UntypedCap (UntypedId 0) rights_ALL,
      VSpaceCap (VSpaceId 0) rights_ALL, FrameCap (FrameId 0) rights_ALL] @ replicate (CNODE_SLOTS - 6) Null\<rparr>"

definition right_cnode :: cnode where
  "right_cnode = \<lparr>cnode_slots =
     [Null, NotificationCap (NotificationId 0) 5 rights_ALL, CNodeCap (CNodeId 1)] @ replicate (CNODE_SLOTS - 3) Null\<rparr>"

definition demo_split :: "(16 word, toy_hw) kernel_state" where
  "demo_split = (demo Ready)\<lparr>ks_cnodes := fill MAX_CNODES [left_cnode, right_cnode],
     ks_tcbs := fill MAX_TCBS [demo_tcb Running None, (demo_tcb Ready None)\<lparr>tcb_cspace := Some (CNodeId 1)\<rparr>]\<rparr>"

definition right_side :: "object_ref set" where
  "right_side = {RTcb (TcbId 1), RReply (TcbId 1), RCNode (CNodeId 1), RNotification (NotificationId 0)}"

lemma right_side_simps [simp]:
  "RTcb t \<in> right_side \<longleftrightarrow> t = TcbId 1" "RReply t \<in> right_side \<longleftrightarrow> t = TcbId 1"
  "RCNode i \<in> right_side \<longleftrightarrow> i = CNodeId 1" "RNotification n \<in> right_side \<longleftrightarrow> n = NotificationId 0"
  "REndpoint e \<notin> right_side"
  by (auto simp: right_side_def)

lemma demo_split_tcb:
  "get_tcb demo_split t = (if t = TcbId 0 then Some (demo_tcb Running None)
     else if t = TcbId 1 then Some ((demo_tcb Ready None)\<lparr>tcb_cspace := Some (CNodeId 1)\<rparr>) else None)"
  by (cases t) (auto simp: demo_split_def demo_pools)

lemma demo_split_slot:
  "slot_cap demo_split i j = (if i = CNodeId 0 then cnode_get left_cnode j
     else if i = CNodeId 1 then cnode_get right_cnode j else None)"
proof -
  have "1 < MAX_CNODES" by (simp add: limits)
  note two = fill_two [OF this]
  show ?thesis by (cases i) (auto simp: slot_cap_def demo_split_def two)
qed

lemma demo_split_fields:
  "ks_notifications demo_split = ks_notifications (demo Ready)" "ks_endpoints demo_split = ks_endpoints (demo Ready)"
  "ks_scheduler demo_split = ks_scheduler (demo Ready)"
  by (simp_all add: demo_split_def)

lemma demo_split_view: "threads_of demo_split = threads_of (demo Ready)"
proof -
  have "wait_list demo_split p = wait_list (demo Ready) p" for p by (cases p) (simp_all add: demo_split_fields)
  moreover have "map_option tcb_state (get_tcb demo_split t) = map_option tcb_state (get_tcb (demo Ready) t)"
    and "Option.bind (get_tcb demo_split t) tcb_reply_to = Option.bind (get_tcb (demo Ready) t) tcb_reply_to" for t
    by (simp only: demo_split_tcb demo_get_tcb, simp add: demo_tcb_def)+
  ultimately show ?thesis
    by (intro thread_view.equality) (simp_all only: threads_of_def demo_split_fields, simp_all add: fun_eq_iff del: wait_list.simps)
qed

lemma demo_split_caps:
  "slot_cap demo_split (CNodeId 0) j = Some k \<Longrightarrow> k \<in> set (cnode_slots left_cnode)"
  "slot_cap demo_split (CNodeId 1) j = Some k \<Longrightarrow> k \<in> set (cnode_slots right_cnode)"
  by (auto simp: demo_split_slot cnode_get_def split: if_splits)

lemma demo_split_inv: "kernel_inv demo_split"
proof -
  have wf: "state_wf demo_split"
    using demo_wf [of Ready]
    by (simp add: state_wf_def demo_split_def fill_wf limits pool_all_def fill_two)
      (auto simp: cnode_wf_def left_cnode_def right_cnode_def CNODE_SLOTS_def demo_tcb_def ctx_wf_zeroed toy_laws split: if_splits)
  have exists: "object_exists demo_split r" if "r \<in> {REndpoint (EndpointId 0), RNotification (NotificationId 0),
      RUntyped (UntypedId 0), RVSpace (VSpaceId 0), RFrame (FrameId 0), RCNode (CNodeId 0), RCNode (CNodeId 1)}" for r
    using that by (auto simp: demo_split_def fill_two [of MAX_CNODES] limits) (auto simp: demo_def demo_pools)
  have "flight_caps (tv_state (threads_of demo_split)) = {}"
    unfolding demo_split_view by (auto simp: flight_caps_def demo_get_tcb demo_tcb_def split: if_splits)
  then have "k \<in> set (cnode_slots left_cnode) \<union> set (cnode_slots right_cnode)" if "k \<in> caps_of demo_split" for k
    using that demo_split_caps by (fastforce simp: caps_of_def stored_caps_def demo_split_slot split: if_splits)
  then have "object_exists demo_split r" if "k \<in> caps_of demo_split" "cap_object k = Some r" for k r
    using that by (intro exists) (force simp: left_cnode_def right_cnode_def)
  moreover have "object_exists demo_split (RCNode i)" if "i \<in> cspaces demo_split" for i
    using that by (intro exists) (auto simp: cspaces_def demo_split_tcb demo_tcb_def split: if_splits)
  ultimately have "no_dangling demo_split" unfolding no_dangling_def by blast
  with wf demo_threads [of Ready] demo_split_view show ?thesis by (simp add: kernel_inv_def)
qed

lemma demo_split_separated: "separated right_side demo_split"
proof -
  have waits: "wait_list demo_split p = (if p = PReady then [TcbId 1] else [])" for p
    using demo_wait_list [of Ready p] arg_cong [OF demo_split_view, of "\<lambda>v. tv_queue v p"] by simp
  have right: "cap_in right_side k" if "slot_cap demo_split (CNodeId 1) j = Some k" for j k
    using demo_split_caps(2) [OF that] by (auto simp: cap_in_def right_side_def right_cnode_def)
  have left: "cap_in (- right_side) k" if "slot_cap demo_split i j = Some k" "i \<noteq> CNodeId 1" for i j k
    using demo_split_caps(1) [of j k] that by (auto simp: cap_in_def right_side_def left_cnode_def demo_split_slot split: if_splits)
  have tcbs: "tcb_in right_side x \<or> t \<noteq> TcbId 1" "tcb_in (- right_side) x \<or> t = TcbId 1"
    if "get_tcb demo_split t = Some x" for t x
    using that by (auto simp: demo_split_tcb tcb_in_def demo_tcb_def right_side_def split: if_splits)
  have "tcb_in right_side x" if "t = TcbId 1" "get_tcb demo_split t = Some x" for t x using tcbs(1) [OF that(2)] that(1) by blast
  with right have "closed right_side demo_split"
    unfolding closed_def holds_in_def queues_in_def waits by (simp del: One_nat_def)
  moreover have "tcb_in (- right_side) x" if "t \<noteq> TcbId 1" "get_tcb demo_split t = Some x" for t x
    using tcbs(2) [OF that(2)] that(1) by blast
  with left have "closed (- right_side) demo_split"
    unfolding closed_def holds_in_def queues_in_def waits by simp
  ultimately show ?thesis by (simp add: separated_def)
qed

section \<open>Compartments stay apart\<close>

text \<open>
  C6. Compartments stay apart. If the objects of a state fall into two sides with no capability
  (stored or in flight), CSpace, reply link or queued thread of one side leading to the other,
  then after any run of traps, whichever threads made them and with whatever registers, they
  still do, every object on the side it was on and every new object on one of the two; and no
  further trap changes an object on the other side than the one its caller is on, except that the
  thread that runs next is marked running.
\<close>

theorem compartments_stay_apart:
  assumes laws: "frame_laws H" "paging_laws H" and inv: "kernel_inv s" and K: "separated K s"
    and run: "run_traps H s fs = Some s'"
  shows "\<exists>K'. separated K' s' \<and> same_side s K K'
     \<and> (\<forall>c f s2 f2 r. current_of s' = Some c \<and> dispatch H s' f = Some (s2, f2)
          \<and> (r \<in> K') \<noteq> (RTcb c \<in> K') \<longrightarrow> object_kept s' s2 r)"
proof -
  obtain K' where inv': "kernel_inv s'" and K': "separated K' s'" "same_side s K K'"
    using run_traps_separate [OF laws inv K run] by blast
  have "object_kept s' s2 r"
    if c: "current_of s' = Some c" and d: "dispatch H s' f = Some (s2, f2)" and r: "(r \<in> K') \<noteq> (RTcb c \<in> K')" for c f s2 f2 r
  proof (cases "RTcb c \<in> K'")
    case True
    with trap_in_compartment(2) [OF laws inv' c K'(1) _ d] r show ?thesis by blast
  next
    case False
    have "separated (- K') s'" using K'(1) by (simp add: separated_compl)
    with trap_in_compartment(2) [OF laws inv' c this _ d] False r show ?thesis by simp
  qed
  with K' show ?thesis by blast
qed

theorem compartments_stay_apart_witness:
  "\<exists>s' K'. run_traps toy demo_split [regs 10 0 0 3 2 20 0, regs 12 0 0 0 0 0 0, regs 6 0 0 1 0 0 0] = Some s'
     \<and> separated K' s' \<and> RTcb (TcbId 1) \<in> K' \<and> REndpoint (EndpointId 0) \<notin> K'"
proof -
  let ?fs = "[regs 10 0 0 3 2 20 0, regs 12 0 0 0 0 0 0, regs 6 0 0 1 0 0 0]"
  obtain s' where run: "run_traps toy demo_split ?fs = Some s'"
    using run_traps_inv [OF toy_laws demo_split_inv] by blast
  from compartments_stay_apart [OF toy_laws demo_split_inv demo_split_separated run]
  obtain K' where K': "separated K' s'" "same_side demo_split right_side K'" by blast
  have "object_exists demo_split (RTcb (TcbId 1))" by (simp only: object_exists.simps demo_split_tcb) simp
  moreover have "object_exists demo_split (REndpoint (EndpointId 0))"
    by (simp add: demo_split_fields) (simp add: demo_def demo_pools)
  ultimately have "RTcb (TcbId 1) \<in> K'" and "REndpoint (EndpointId 0) \<notin> K'"
    using K'(2) unfolding same_side_def by simp_all
  with run K'(1) show ?thesis by blast
qed

end
