(* ===== verification/TestKit.thy ===== *)
theory TestKit
  imports Instance "HOL-Library.Monad_Syntax"
begin

text \<open>
  What the crate's unit tests share. A test is a program that may panic: \<open>Some ()\<close> is a test
  that passes, \<open>None\<close> a failed assertion or an \<open>unwrap\<close> of nothing. The test theories hold one
  definition per test function of the source, over the HAL as a parameter, and evaluate each on
  the machine of \<open>Instance\<close>.
\<close>

section \<open>Assertions and unwrapping\<close>

definition assert_that :: "bool \<Rightarrow> unit option" where
  "assert_that b = (if b then Some () else None)"

fun unwrap :: "('s, 'f) outcome \<Rightarrow> ('s \<times> 'f) option" where
  "unwrap (Ok s f) = Some (s, f)"
| "unwrap (Err e s f) = None"
| "unwrap Panic = None"

text \<open>\<open>assert_eq!(result, Err(e))\<close>; the state goes on as the call left it.\<close>

fun assert_err :: "syscall_error \<Rightarrow> ('s, 'f) outcome \<Rightarrow> ('s \<times> 'f) option" where
  "assert_err e (Ok s f) = None"
| "assert_err e (Err e' s f) = (if e' = e then Some (s, f) else None)"
| "assert_err e Panic = None"

text \<open>\<open>let Capability::VSpace { id, rights } = cap else { panic!(\<dots>) }\<close>, and the same for Frames.\<close>

fun as_vspace :: "capability \<Rightarrow> (vspace_id \<times> rights) option" where
  "as_vspace (VSpaceCap i r) = Some (i, r)"
| "as_vspace _ = None"

fun as_frame :: "capability \<Rightarrow> (frame_id \<times> rights) option" where
  "as_frame (FrameCap i r) = Some (i, r)"
| "as_frame _ = None"

definition held_cap :: "('b, 'h) kernel_state \<Rightarrow> tcb_id \<Rightarrow> cptr \<Rightarrow> capability option" where
  "held_cap s t c = (case lookup_cap s t c of Inl e \<Rightarrow> None | Inr cap \<Rightarrow> Some cap)"

section \<open>Setting up a state\<close>

text \<open>\<open>state.<pool>.alloc(object).unwrap()\<close>, one per pool the tests fill.\<close>

definition alloc_cnode :: "('b, 'h) kernel_state \<Rightarrow> (nat \<times> ('b, 'h) kernel_state) option" where
  "alloc_cnode s = map_option (\<lambda>(i, p). (i, s\<lparr>ks_cnodes := p\<rparr>)) (pool_alloc (ks_cnodes s) cnode_empty)"

definition alloc_tcb ::
  "('f, 'b::zero, 'h, 'p) hal \<Rightarrow> ('b, 'h) kernel_state \<Rightarrow> (nat \<times> ('b, 'h) kernel_state) option" where
  "alloc_tcb H s = map_option (\<lambda>(i, p). (i, s\<lparr>ks_tcbs := p\<rparr>)) (pool_alloc (ks_tcbs s) (tcb_new H))"

definition alloc_endpoint :: "('b, 'h) kernel_state \<Rightarrow> (nat \<times> ('b, 'h) kernel_state) option" where
  "alloc_endpoint s = map_option (\<lambda>(i, p). (i, s\<lparr>ks_endpoints := p\<rparr>)) (pool_alloc (ks_endpoints s) endpoint_new)"

definition alloc_notification :: "('b, 'h) kernel_state \<Rightarrow> (nat \<times> ('b, 'h) kernel_state) option" where
  "alloc_notification s =
     map_option (\<lambda>(i, p). (i, s\<lparr>ks_notifications := p\<rparr>)) (pool_alloc (ks_notifications s) notification_new)"

definition alloc_untyped :: "('b, 'h) kernel_state \<Rightarrow> untyped \<Rightarrow> (nat \<times> ('b, 'h) kernel_state) option" where
  "alloc_untyped s u = map_option (\<lambda>(i, p). (i, s\<lparr>ks_untypeds := p\<rparr>)) (pool_alloc (ks_untypeds s) u)"

definition alloc_sched_context :: "('b, 'h) kernel_state \<Rightarrow> (nat \<times> ('b, 'h) kernel_state) option" where
  "alloc_sched_context s =
     map_option (\<lambda>(i, p). (i, s\<lparr>ks_sched_contexts := p\<rparr>))
       (pool_alloc (ks_sched_contexts s) (scheduling_context_new 1))"

text \<open>\<open>*state.cnodes.get_mut(i).unwrap().slot_mut(slot).unwrap() = cap\<close>.\<close>

definition put_cap ::
  "('b, 'h) kernel_state \<Rightarrow> nat \<Rightarrow> cptr \<Rightarrow> capability \<Rightarrow> ('b, 'h) kernel_state option" where
  "put_cap s i slot cap =
     do {
       cnode \<leftarrow> pool_get (ks_cnodes s) i;
       cnode_get cnode slot;
       Some (s\<lparr>ks_cnodes := pool_modify (ks_cnodes s) i (\<lambda>c. cnode_put c slot cap)\<rparr>)
     }"

text \<open>\<open>state.cnodes.get(i).unwrap().get(slot)\<close>; the inner option is the slot out of range.\<close>

definition cap_at :: "('b, 'h) kernel_state \<Rightarrow> nat \<Rightarrow> cptr \<Rightarrow> capability option option" where
  "cap_at s i slot = map_option (\<lambda>c. cnode_get c slot) (pool_get (ks_cnodes s) i)"

text \<open>\<open>state.tcbs.get_mut(i).unwrap().field = \<dots>\<close>.\<close>

definition edit_tcb ::
  "('b, 'h) kernel_state \<Rightarrow> nat \<Rightarrow> ('b tcb \<Rightarrow> 'b tcb) \<Rightarrow> ('b, 'h) kernel_state option" where
  "edit_tcb s i f =
     do {
       pool_get (ks_tcbs s) i;
       Some (s\<lparr>ks_tcbs := pool_modify (ks_tcbs s) i f\<rparr>)
     }"

abbreviation pop_ready :: "('b, 'h) kernel_state \<Rightarrow> tcb_id option \<times> ('b, 'h) kernel_state" where
  "pop_ready s \<equiv>
     (case aq_pop_front (sch_ready (ks_scheduler s)) of
        (x, q) \<Rightarrow> (x, s\<lparr>ks_scheduler := (ks_scheduler s)\<lparr>sch_ready := q\<rparr>\<rparr>))"

text \<open>A frame with the tag and the four message registers set.\<close>

definition message_frame ::
  "('f, 'w::len word, 'h, 'p) hal \<Rightarrow> u32 \<Rightarrow> u8 \<Rightarrow> usize \<Rightarrow> usize \<Rightarrow> usize \<Rightarrow> usize \<Rightarrow> 'f" where
  "message_frame H label extra_caps mr0 mr1 mr2 mr3 =
     (let frame = h_zeroed H;
          frame = h_set_tag H frame
            \<lparr>tag_label = label, tag_length = 0, tag_extra_caps = extra_caps, tag_flags = 0\<rparr>;
          frame = h_set_mr H frame 0 mr0;
          frame = h_set_mr H frame 1 mr1;
          frame = h_set_mr H frame 2 mr2
      in h_set_mr H frame 3 mr3)"

text \<open>Overflow as the evaluation of a test decides it: on words, not on their values.\<close>

lemma wraps_iff: "2 ^ 64 \<le> unat (a :: usize) + unat b \<longleftrightarrow> \<not> a \<le> a + b"
  by (simp add: no_olen_add_nat not_less)

lemma checked_add_code [code]: "checked_add a b = (if a \<le> a + b then Some (a + b) else None)"
  using wraps_iff [of a b] by (auto simp: checked_add_def)

lemma untyped_bump_code [code]:
  "untyped_bump u bytes align =
     (case ut_memory u of
        None \<Rightarrow> Some (None, u)
      | Some (next, limit) \<Rightarrow>
          if align = 0 \<or> \<not> next \<le> next + align then None
          else
            (let aligned = (next + align - 1) AND NOT (align - 1) in
             case checked_add aligned bytes of
               None \<Rightarrow> Some (None, u)
             | Some new_next \<Rightarrow>
                 (if new_next > limit then Some (None, u)
                  else Some (Some aligned, u\<lparr>ut_memory := Some (new_next, limit)\<rparr>))))"
  by (simp only: untyped_bump_def wraps_iff)

text \<open>What a test of the kernel needs: the HAL, the address of the page tables, the hardware.\<close>

type_synonym ('f, 'b, 'h, 'p) kernel_test = "('f, 'b, 'h, 'p) hal \<Rightarrow> usize \<Rightarrow> 'h \<Rightarrow> unit option"

definition PAGE_TABLES :: usize where "PAGE_TABLES = 2147483648"

end
