(* ===== verification/TestObjects.thy ===== *)
theory TestObjects
  imports TestKit
begin

text \<open>
  The unit tests of \<open>src/queue.rs\<close>, \<open>src/pool.rs\<close>, \<open>src/cap.rs\<close>, \<open>src/object.rs\<close> and
  \<open>src/state.rs\<close>.
\<close>

section \<open>src/queue.rs\<close>

definition fifo_order :: "unit option" where
  "fifo_order =
     do {
       let q = (aq_new 4 :: u32 array_queue);
       assert_that (aq_is_empty q);
       let (ok, q) = aq_push_back q 1;
       assert_that ok;
       let (ok, q) = aq_push_back q 2;
       assert_that ok;
       let (ok, q) = aq_push_back q 3;
       assert_that ok;
       let (x, q) = aq_pop_front q;
       assert_that (x = Some 1);
       let (x, q) = aq_pop_front q;
       assert_that (x = Some 2);
       let (ok, q) = aq_push_back q 4;
       assert_that ok;
       let (x, q) = aq_pop_front q;
       assert_that (x = Some 3);
       let (x, q) = aq_pop_front q;
       assert_that (x = Some 4);
       let (x, q) = aq_pop_front q;
       assert_that (x = None);
       assert_that (aq_is_empty q)
     }"

definition front_peeks_without_removing :: "unit option" where
  "front_peeks_without_removing =
     do {
       let q = (aq_new 4 :: u32 array_queue);
       assert_that (aq_front q = None);
       let (_, q) = aq_push_back q 1;
       let (_, q) = aq_push_back q 2;
       assert_that (aq_front q = Some 1);
       assert_that (aq_front q = Some 1);
       let (x, q) = aq_pop_front q;
       assert_that (x = Some 1);
       assert_that (aq_front q = Some 2)
     }"

definition rejects_push_past_capacity :: "unit option" where
  "rejects_push_past_capacity =
     do {
       let q = (aq_new 2 :: u32 array_queue);
       let (ok, q) = aq_push_back q 1;
       assert_that ok;
       let (ok, q) = aq_push_back q 2;
       assert_that ok;
       let (ok, q) = aq_push_back q 3;
       assert_that (\<not> ok)
     }"

definition wraps_around_the_backing_array :: "unit option" where
  "wraps_around_the_backing_array =
     do {
       let q = (aq_new 2 :: u32 array_queue);
       let (_, q) = aq_push_back q 1;
       let (_, q) = aq_pop_front q;
       let (_, q) = aq_push_back q 2;
       let (_, q) = aq_push_back q 3;
       let (x, q) = aq_pop_front q;
       assert_that (x = Some 2);
       let (x, q) = aq_pop_front q;
       assert_that (x = Some 3)
     }"

definition remove_drops_the_named_entry_and_preserves_order :: "unit option" where
  "remove_drops_the_named_entry_and_preserves_order =
     do {
       let q = (aq_new 4 :: u32 array_queue);
       let (_, q) = aq_push_back q 1;
       let (_, q) = aq_push_back q 2;
       let (_, q) = aq_push_back q 3;
       let (found, q) = aq_remove q 2;
       assert_that found;
       let (x, q) = aq_pop_front q;
       assert_that (x = Some 1);
       let (x, q) = aq_pop_front q;
       assert_that (x = Some 3);
       let (x, q) = aq_pop_front q;
       assert_that (x = None)
     }"

definition remove_reports_absence_without_touching_the_queue :: "unit option" where
  "remove_reports_absence_without_touching_the_queue =
     do {
       let q = (aq_new 4 :: u32 array_queue);
       let (_, q) = aq_push_back q 1;
       let (_, q) = aq_push_back q 2;
       let (found, q) = aq_remove q 99;
       assert_that (\<not> found);
       let (x, q) = aq_pop_front q;
       assert_that (x = Some 1);
       let (x, q) = aq_pop_front q;
       assert_that (x = Some 2)
     }"

definition remove_only_drops_the_first_occurrence :: "unit option" where
  "remove_only_drops_the_first_occurrence =
     do {
       let q = (aq_new 4 :: u32 array_queue);
       let (_, q) = aq_push_back q 1;
       let (_, q) = aq_push_back q 1;
       let (_, q) = aq_push_back q 2;
       let (found, q) = aq_remove q 1;
       assert_that found;
       let (x, q) = aq_pop_front q;
       assert_that (x = Some 1);
       let (x, q) = aq_pop_front q;
       assert_that (x = Some 2);
       let (x, q) = aq_pop_front q;
       assert_that (x = None)
     }"

definition remove_works_after_the_backing_array_has_wrapped :: "unit option" where
  "remove_works_after_the_backing_array_has_wrapped =
     do {
       let q = (aq_new 3 :: u32 array_queue);
       let (_, q) = aq_push_back q 1;
       let (_, q) = aq_push_back q 2;
       let (_, q) = aq_pop_front q;
       let (_, q) = aq_push_back q 3;
       let (_, q) = aq_push_back q 4;
       let (found, q) = aq_remove q 3;
       assert_that found;
       let (x, q) = aq_pop_front q;
       assert_that (x = Some 2);
       let (x, q) = aq_pop_front q;
       assert_that (x = Some 4);
       let (x, q) = aq_pop_front q;
       assert_that (x = None)
     }"

lemma queue_tests_pass:
  "fifo_order = Some ()"
  "front_peeks_without_removing = Some ()"
  "rejects_push_past_capacity = Some ()"
  "wraps_around_the_backing_array = Some ()"
  "remove_drops_the_named_entry_and_preserves_order = Some ()"
  "remove_reports_absence_without_touching_the_queue = Some ()"
  "remove_only_drops_the_first_occurrence = Some ()"
  "remove_works_after_the_backing_array_has_wrapped = Some ()"
  by code_simp+

section \<open>src/pool.rs\<close>

definition alloc_get_free_roundtrip :: "unit option" where
  "alloc_get_free_roundtrip =
     do {
       let pool = (pool_new 4 :: u32 pool);
       (a, pool) \<leftarrow> pool_alloc pool 10;
       (b, pool) \<leftarrow> pool_alloc pool 20;
       assert_that (pool_get pool a = Some 10);
       assert_that (pool_get pool b = Some 20);
       assert_that (pool_len pool = 2);
       let (x, pool) = pool_free pool a;
       assert_that (x = Some 10);
       assert_that (pool_get pool a = None);
       assert_that (pool_len pool = 1)
     }"

definition reuses_freed_slots :: "unit option" where
  "reuses_freed_slots =
     do {
       let pool = (pool_new 2 :: u32 pool);
       (a, pool) \<leftarrow> pool_alloc pool 1;
       (_, pool) \<leftarrow> pool_alloc pool 2;
       assert_that (pool_alloc pool 3 = None);
       let (_, pool) = pool_free pool a;
       (reused, pool) \<leftarrow> pool_alloc pool 3;
       assert_that (reused = a);
       assert_that (pool_get pool reused = Some 3)
     }"

definition out_of_range_index_is_none :: "unit option" where
  "out_of_range_index_is_none =
     do {
       let pool = (pool_new 2 :: u32 pool);
       assert_that (pool_get pool 5 = None)
     }"

lemma pool_tests_pass:
  "alloc_get_free_roundtrip = Some ()"
  "reuses_freed_slots = Some ()"
  "out_of_range_index_is_none = Some ()"
  by code_simp+

section \<open>src/cap.rs\<close>

definition rights_subset_check_is_monotone :: "unit option" where
  "rights_subset_check_is_monotone =
     do {
       let all_rights = rights_ALL;
       let read_only = rights_READ;
       assert_that (is_subset_of read_only all_rights);
       assert_that (\<not> is_subset_of all_rights read_only);
       assert_that (is_subset_of all_rights all_rights)
     }"

definition cnode_slot_out_of_range_is_none_not_null :: "unit option" where
  "cnode_slot_out_of_range_is_none_not_null =
     do {
       let cnode = cnode_empty;
       assert_that (cnode_get cnode 0 = Some Null);
       assert_that (cnode_get cnode (of_nat CNODE_SLOTS) = None)
     }"

definition cnode_slot_mut_writes_through :: "unit option" where
  "cnode_slot_mut_writes_through =
     do {
       let cnode = cnode_empty;
       let cap = EndpointCap (EndpointId 1) 0 rights_ALL;
       cnode_get cnode 3;
       let cnode = cnode_put cnode 3 cap;
       assert_that (cnode_get cnode 3 = Some cap)
     }"

lemma cap_tests_pass:
  "rights_subset_check_is_monotone = Some ()"
  "cnode_slot_out_of_range_is_none_not_null = Some ()"
  "cnode_slot_mut_writes_through = Some ()"
  by code_simp+

section \<open>src/object.rs\<close>

definition saved_context_roundtrips_through_a_trap_frame ::
  "('f, 'w::len word, 'h, 'p) hal \<Rightarrow> unit option" where
  "saved_context_roundtrips_through_a_trap_frame H =
     do {
       let frame = h_zeroed H;
       let frame = h_set_syscall_number H frame 4;
       let frame = h_set_tag H frame \<lparr>tag_label = 7, tag_length = 1, tag_extra_caps = 0, tag_flags = 0\<rparr>;
       let frame = h_set_mr H frame 0 42;
       let frame = h_set_raw_word H frame 5 99;
       let saved = save_from H frame;
       let other = h_zeroed H;
       let other = restore_into H saved other;
       assert_that (h_syscall_number H other = 4);
       assert_that (h_tag H other = \<lparr>tag_label = 7, tag_length = 1, tag_extra_caps = 0, tag_flags = 0\<rparr>);
       assert_that (h_mr H other 0 = 42);
       assert_that (h_raw_word H other 5 = 99)
     }"

lemma object_tests_pass: "saved_context_roundtrips_through_a_trap_frame toy = Some ()"
  by code_simp

section \<open>src/state.rs\<close>

definition spawn_ready ::
  "('f, 'b::zero, 'h, 'p) hal \<Rightarrow> ('b, 'h) kernel_state \<Rightarrow> (tcb_id \<times> ('b, 'h) kernel_state) option" where
  "spawn_ready H state =
     do {
       (index, state) \<leftarrow> alloc_tcb H state;
       let i = TcbId (of_nat index);
       let state = make_ready state i;
       Some (i, state)
     }"

definition make_current :: "('b, 'h) kernel_state \<Rightarrow> tcb_id \<Rightarrow> ('b, 'h) kernel_state" where
  "make_current state i = set_thread_state (set_current state (Some i)) i Running"

definition make_ready_twice_enqueues_once :: "('f, 'w::len word, 'h, 'p) kernel_test" where
  "make_ready_twice_enqueues_once H kpt hw =
     do {
       let state = kernel_state_new kpt hw;
       (a, state) \<leftarrow> spawn_ready H state;
       let state = make_ready state a;
       let (x, state) = pop_ready state;
       assert_that (x = Some a);
       assert_that (\<not> has_ready state);
       state \<leftarrow> edit_tcb state (tcb_ix a) (\<lambda>tcb. tcb\<lparr>tcb_state := Running\<rparr>);
       let state = make_ready state a;
       let (x, state) = pop_ready state;
       assert_that (x = Some a)
     }"

definition switch_to_saves_the_outgoing_thread_and_loads_the_incoming_one ::
  "('f, 'w::len word, 'h, 'p) kernel_test" where
  "switch_to_saves_the_outgoing_thread_and_loads_the_incoming_one H kpt hw =
     do {
       let state = kernel_state_new kpt hw;
       (i, state) \<leftarrow> alloc_tcb H state;
       let a = TcbId (of_nat i);
       (i, state) \<leftarrow> alloc_tcb H state;
       let b = TcbId (of_nat i);
       let state = make_current state a;
       let frame = h_zeroed H;
       let frame = h_set_mr H frame 0 111;
       let (state, frame) = switch_to H state frame b;
       assert_that (current_of state = Some b);
       assert_that (h_mr H frame 0 = 0);
       let frame = h_set_mr H frame 0 222;
       let (state, frame) = switch_to H state frame a;
       assert_that (current_of state = Some a);
       assert_that (h_mr H frame 0 = 111)
     }"

definition block_current_refuses_when_nothing_else_is_ready ::
  "('f, 'w::len word, 'h, 'p) kernel_test" where
  "block_current_refuses_when_nothing_else_is_ready H kpt hw =
     do {
       let state = kernel_state_new kpt hw;
       (i, state) \<leftarrow> alloc_tcb H state;
       let a = TcbId (of_nat i);
       let state = make_current state a;
       let frame = h_zeroed H;
       (switched, state, frame) \<leftarrow> block_current H state frame;
       assert_that (\<not> switched);
       assert_that (current_of state = Some a)
     }"

definition block_current_switches_to_the_next_ready_thread ::
  "('f, 'w::len word, 'h, 'p) kernel_test" where
  "block_current_switches_to_the_next_ready_thread H kpt hw =
     do {
       let state = kernel_state_new kpt hw;
       (i, state) \<leftarrow> alloc_tcb H state;
       let a = TcbId (of_nat i);
       let state = make_current state a;
       (b, state) \<leftarrow> spawn_ready H state;
       let frame = h_zeroed H;
       (switched, state, frame) \<leftarrow> block_current H state frame;
       assert_that switched;
       assert_that (current_of state = Some b)
     }"

definition cnode_pool_allocates_independently_of_tcb_pool :: "('f, 'w::len word, 'h, 'p) kernel_test" where
  "cnode_pool_allocates_independently_of_tcb_pool H kpt hw =
     do {
       let state = (kernel_state_new kpt hw :: ('w word, 'h) kernel_state);
       (index, state) \<leftarrow> alloc_cnode state;
       assert_that (CNodeId (of_nat index) = CNodeId 0)
     }"

lemma state_tests_pass:
  "make_ready_twice_enqueues_once toy PAGE_TABLES toy_boot = Some ()"
  "switch_to_saves_the_outgoing_thread_and_loads_the_incoming_one toy PAGE_TABLES toy_boot = Some ()"
  "block_current_refuses_when_nothing_else_is_ready toy PAGE_TABLES toy_boot = Some ()"
  "block_current_switches_to_the_next_ready_thread toy PAGE_TABLES toy_boot = Some ()"
  "cnode_pool_allocates_independently_of_tcb_pool toy PAGE_TABLES toy_boot = Some ()"
  by code_simp+

end
