(* ===== verification/TestIpc.thy ===== *)
theory TestIpc
  imports TestKit
begin

text \<open>The unit tests of \<open>src/ipc.rs\<close> (\<open>transfer_tests\<close>).\<close>

section \<open>Two threads and a shared endpoint\<close>

definition ipc_frame_for ::
  "('f, 'w::len word, 'h, 'p) hal \<Rightarrow> usize \<Rightarrow> usize \<Rightarrow> usize \<Rightarrow> usize \<Rightarrow> u8 \<Rightarrow> 'f" where
  "ipc_frame_for H mr0 mr1 mr2 mr3 extra_caps = message_frame H 0 extra_caps mr0 mr1 mr2 mr3"

record ('b, 'h) pair =
  pr_state :: "('b, 'h) kernel_state"
  pr_client :: tcb_id
  pr_client_cnode :: cnode_id
  pr_server :: tcb_id
  pr_server_cnode :: cnode_id
  pr_ep_cptr :: cptr
  pr_ep_id :: endpoint_id

definition ipc_setup ::
  "('f, 'w::len word, 'h, 'p) hal \<Rightarrow> usize \<Rightarrow> 'h \<Rightarrow> ('w word, 'h) pair option" where
  "ipc_setup H kpt hw =
     do {
       let state = kernel_state_new kpt hw;
       (ep_idx, state) \<leftarrow> alloc_endpoint state;
       let eid = EndpointId (of_nat ep_idx);
       let ep = EndpointCap eid 7 rights_ALL;
       (i, state) \<leftarrow> alloc_cnode state;
       let client_cnode = CNodeId (of_nat i);
       state \<leftarrow> put_cap state (cnode_ix client_cnode) 1 ep;
       (i, state) \<leftarrow> alloc_tcb H state;
       let client = TcbId (of_nat i);
       state \<leftarrow> edit_tcb state (tcb_ix client) (\<lambda>tcb. tcb\<lparr>tcb_cspace := Some client_cnode\<rparr>);
       (i, state) \<leftarrow> alloc_cnode state;
       let server_cnode = CNodeId (of_nat i);
       state \<leftarrow> put_cap state (cnode_ix server_cnode) 1 ep;
       (i, state) \<leftarrow> alloc_tcb H state;
       let server = TcbId (of_nat i);
       state \<leftarrow> edit_tcb state (tcb_ix server) (\<lambda>tcb. tcb\<lparr>tcb_cspace := Some server_cnode\<rparr>);
       Some \<lparr>pr_state = state, pr_client = client, pr_client_cnode = client_cnode, pr_server = server,
             pr_server_cnode = server_cnode, pr_ep_cptr = 1, pr_ep_id = eid\<rparr>
     }"

definition put_grantable_cap ::
  "('b, 'h) kernel_state \<Rightarrow> cnode_id \<Rightarrow> cptr \<Rightarrow> (capability \<times> ('b, 'h) kernel_state) option" where
  "put_grantable_cap state i slot =
     do {
       (notif_idx, state) \<leftarrow> alloc_notification state;
       let cap = NotificationCap (NotificationId (of_nat notif_idx)) 0 (rights_union rights_READ rights_GRANT);
       state \<leftarrow> put_cap state (cnode_ix i) slot cap;
       Some (cap, state)
     }"

section \<open>Transfers on Send and Recv\<close>

definition send_transfers_into_a_waiting_receivers_registered_slot ::
  "('f, 'w::len word, 'h, 'p) kernel_test" where
  "send_transfers_into_a_waiting_receivers_registered_slot H kpt hw =
     do {
       p \<leftarrow> ipc_setup H kpt hw;
       (cap, state) \<leftarrow> put_grantable_cap (pr_state p) (pr_client_cnode p) 5;
       let state = make_ready state (pr_client p);
       let state = set_current state (Some (pr_server p));
       let recv_frame = ipc_frame_for H (pr_ep_cptr p) 9 0 0 1;
       (state, recv_frame) \<leftarrow> unwrap (recv H state (pr_server p) (pr_ep_cptr p) recv_frame);
       assert_that (current_of state = Some (pr_client p));
       let send_frame = ipc_frame_for H (pr_ep_cptr p) 5 222 333 1;
       (state, send_frame) \<leftarrow> unwrap (send H state (pr_client p) (pr_ep_cptr p) send_frame False);
       assert_that (\<not> tag_is_error H (h_tag H send_frame));
       assert_that (cap_at state (cnode_ix (pr_server_cnode p)) 9 = Some (Some cap));
       assert_that (cap_at state (cnode_ix (pr_client_cnode p)) 5 = Some (Some cap));
       server_tcb \<leftarrow> get_tcb state (pr_server p);
       let server_ctx = tcb_context server_tcb;
       assert_that (ctx_mr server_ctx 0 = 7);
       assert_that (ctx_mr server_ctx 1 = 0);
       assert_that (ctx_mr server_ctx 2 = 222);
       assert_that (ctx_mr server_ctx 3 = 333);
       assert_that (tag_extra_caps (ctx_tag server_ctx) = 1)
     }"

definition recv_transfers_when_the_sender_blocked_first :: "('f, 'w::len word, 'h, 'p) kernel_test" where
  "recv_transfers_when_the_sender_blocked_first H kpt hw =
     do {
       p \<leftarrow> ipc_setup H kpt hw;
       (cap, state) \<leftarrow> put_grantable_cap (pr_state p) (pr_client_cnode p) 5;
       let state = make_ready state (pr_server p);
       let state = set_current state (Some (pr_client p));
       let send_frame = ipc_frame_for H (pr_ep_cptr p) 5 222 333 1;
       (state, send_frame) \<leftarrow> unwrap (send H state (pr_client p) (pr_ep_cptr p) send_frame False);
       assert_that (current_of state = Some (pr_server p));
       let recv_frame = ipc_frame_for H (pr_ep_cptr p) 9 0 0 1;
       (state, recv_frame) \<leftarrow> unwrap (recv H state (pr_server p) (pr_ep_cptr p) recv_frame);
       assert_that (cap_at state (cnode_ix (pr_server_cnode p)) 9 = Some (Some cap));
       assert_that (h_mr H recv_frame 0 = 7);
       assert_that (h_mr H recv_frame 1 = 0);
       assert_that (h_mr H recv_frame 2 = 222);
       assert_that (h_mr H recv_frame 3 = 333)
     }"

definition transfer_without_grant_right_is_rejected :: "('f, 'w::len word, 'h, 'p) kernel_test" where
  "transfer_without_grant_right_is_rejected H kpt hw =
     do {
       p \<leftarrow> ipc_setup H kpt hw;
       let cap = EndpointCap (pr_ep_id p) 0 rights_READ;
       state \<leftarrow> put_cap (pr_state p) (cnode_ix (pr_client_cnode p)) 5 cap;
       let state = make_ready state (pr_server p);
       let state = set_current state (Some (pr_client p));
       let send_frame = ipc_frame_for H (pr_ep_cptr p) 5 0 0 1;
       assert_err IllegalOperation (send H state (pr_client p) (pr_ep_cptr p) send_frame False);
       Some ()
     }"

definition transfer_to_a_receiver_with_no_registered_slot_is_rejected_and_nothing_is_consumed ::
  "('f, 'w::len word, 'h, 'p) kernel_test" where
  "transfer_to_a_receiver_with_no_registered_slot_is_rejected_and_nothing_is_consumed H kpt hw =
     do {
       p \<leftarrow> ipc_setup H kpt hw;
       (_, state) \<leftarrow> put_grantable_cap (pr_state p) (pr_client_cnode p) 5;
       let state = make_ready state (pr_client p);
       let state = set_current state (Some (pr_server p));
       let recv_frame = ipc_frame_for H (pr_ep_cptr p) 0 0 0 0;
       (state, recv_frame) \<leftarrow> unwrap (recv H state (pr_server p) (pr_ep_cptr p) recv_frame);
       let send_frame = ipc_frame_for H (pr_ep_cptr p) 5 0 0 1;
       (state, send_frame) \<leftarrow>
         assert_err IllegalOperation (send H state (pr_client p) (pr_ep_cptr p) send_frame False);
       server_tcb \<leftarrow> get_tcb state (pr_server p);
       assert_that (case tcb_state server_tcb of BlockedRecv e d \<Rightarrow> True | _ \<Rightarrow> False)
     }"

definition transfer_into_an_occupied_destination_slot_is_rejected ::
  "('f, 'w::len word, 'h, 'p) kernel_test" where
  "transfer_into_an_occupied_destination_slot_is_rejected H kpt hw =
     do {
       p \<leftarrow> ipc_setup H kpt hw;
       (_, state) \<leftarrow> put_grantable_cap (pr_state p) (pr_client_cnode p) 5;
       let state = make_ready state (pr_client p);
       let state = set_current state (Some (pr_server p));
       let recv_frame = ipc_frame_for H (pr_ep_cptr p) 1 0 0 1;
       (state, recv_frame) \<leftarrow> unwrap (recv H state (pr_server p) (pr_ep_cptr p) recv_frame);
       let send_frame = ipc_frame_for H (pr_ep_cptr p) 5 0 0 1;
       (state, send_frame) \<leftarrow>
         assert_err IllegalOperation (send H state (pr_client p) (pr_ep_cptr p) send_frame False);
       assert_that (cap_at state (cnode_ix (pr_server_cnode p)) 1
         = Some (Some (EndpointCap (pr_ep_id p) 7 rights_ALL)))
     }"

definition more_than_one_extra_cap_is_rejected_no_ipc_buffer_exists ::
  "('f, 'w::len word, 'h, 'p) kernel_test" where
  "more_than_one_extra_cap_is_rejected_no_ipc_buffer_exists H kpt hw =
     do {
       p \<leftarrow> ipc_setup H kpt hw;
       let send_frame = ipc_frame_for H (pr_ep_cptr p) 0 0 0 2;
       assert_err TruncatedMessage (send H (pr_state p) (pr_client p) (pr_ep_cptr p) send_frame True);
       Some ()
     }"

section \<open>Transfers on Call and Reply\<close>

definition call_transfers_a_capability_on_its_outbound_leg :: "('f, 'w::len word, 'h, 'p) kernel_test" where
  "call_transfers_a_capability_on_its_outbound_leg H kpt hw =
     do {
       p \<leftarrow> ipc_setup H kpt hw;
       (cap, state) \<leftarrow> put_grantable_cap (pr_state p) (pr_client_cnode p) 5;
       let state = make_ready state (pr_client p);
       let state = set_current state (Some (pr_server p));
       let recv_frame = ipc_frame_for H (pr_ep_cptr p) 9 0 0 1;
       (state, recv_frame) \<leftarrow> unwrap (recv H state (pr_server p) (pr_ep_cptr p) recv_frame);
       let call_frame = ipc_frame_for H (pr_ep_cptr p) 5 222 0 1;
       (state, call_frame) \<leftarrow> unwrap (call H state (pr_client p) (pr_ep_cptr p) call_frame);
       assert_that (current_of state = Some (pr_server p));
       assert_that (cap_at state (cnode_ix (pr_server_cnode p)) 9 = Some (Some cap));
       server_tcb \<leftarrow> get_tcb state (pr_server p);
       assert_that (tcb_reply_to server_tcb = Some (pr_client p));
       client_tcb \<leftarrow> get_tcb state (pr_client p);
       assert_that (tcb_state client_tcb = BlockedReply None)
     }"

definition call_registers_a_reply_destination_and_reply_transfers_into_it ::
  "('f, 'w::len word, 'h, 'p) kernel_test" where
  "call_registers_a_reply_destination_and_reply_transfers_into_it H kpt hw =
     do {
       p \<leftarrow> ipc_setup H kpt hw;
       (cap, state) \<leftarrow> put_grantable_cap (pr_state p) (pr_server_cnode p) 5;
       let state = make_ready state (pr_client p);
       let state = set_current state (Some (pr_server p));
       let recv_frame = ipc_frame_for H (pr_ep_cptr p) 0 0 0 0;
       (state, recv_frame) \<leftarrow> unwrap (recv H state (pr_server p) (pr_ep_cptr p) recv_frame);
       assert_that (current_of state = Some (pr_client p));
       let call_frame = ipc_frame_for H (pr_ep_cptr p) 9 111 0 2;
       (state, call_frame) \<leftarrow> unwrap (call H state (pr_client p) (pr_ep_cptr p) call_frame);
       assert_that (current_of state = Some (pr_server p));
       assert_that (h_mr H call_frame 1 = 0);
       assert_that (h_mr H call_frame 2 = 111);
       let reply_frame = ipc_frame_for H 0 5 222 0 1;
       (state, reply_frame) \<leftarrow> unwrap (reply H state (pr_server p) reply_frame);
       assert_that (current_of state = Some (pr_client p));
       assert_that (h_mr H reply_frame 1 = 0);
       assert_that (h_mr H reply_frame 2 = 222);
       assert_that (cap_at state (cnode_ix (pr_client_cnode p)) 9 = Some (Some cap));
       assert_that (cap_at state (cnode_ix (pr_server_cnode p)) 5 = Some (Some cap));
       assert_err IllegalOperation (reply H state (pr_server p) (ipc_frame_for H 0 0 0 0 0));
       Some ()
     }"

definition reply_transfer_without_a_registered_call_destination_is_rejected ::
  "('f, 'w::len word, 'h, 'p) kernel_test" where
  "reply_transfer_without_a_registered_call_destination_is_rejected H kpt hw =
     do {
       p \<leftarrow> ipc_setup H kpt hw;
       (cap, state) \<leftarrow> put_grantable_cap (pr_state p) (pr_server_cnode p) 5;
       let state = make_ready state (pr_client p);
       let state = set_current state (Some (pr_server p));
       let recv_frame = ipc_frame_for H (pr_ep_cptr p) 0 0 0 0;
       (state, recv_frame) \<leftarrow> unwrap (recv H state (pr_server p) (pr_ep_cptr p) recv_frame);
       let call_frame = ipc_frame_for H (pr_ep_cptr p) 0 0 0 0;
       (state, call_frame) \<leftarrow> unwrap (call H state (pr_client p) (pr_ep_cptr p) call_frame);
       let reply_frame = ipc_frame_for H 0 5 0 0 1;
       (state, reply_frame) \<leftarrow> assert_err IllegalOperation (reply H state (pr_server p) reply_frame);
       client_tcb \<leftarrow> get_tcb state (pr_client p);
       assert_that (tcb_state client_tcb = BlockedReply None);
       assert_that (cap_at state (cnode_ix (pr_server_cnode p)) 5 = Some (Some cap))
     }"

definition reply_still_rejects_more_than_one_extra_cap :: "('f, 'w::len word, 'h, 'p) kernel_test" where
  "reply_still_rejects_more_than_one_extra_cap H kpt hw =
     do {
       p \<leftarrow> ipc_setup H kpt hw;
       let state = make_ready (pr_state p) (pr_client p);
       let state = set_current state (Some (pr_server p));
       let recv_frame = ipc_frame_for H (pr_ep_cptr p) 0 0 0 0;
       (state, recv_frame) \<leftarrow> unwrap (recv H state (pr_server p) (pr_ep_cptr p) recv_frame);
       let call_frame = ipc_frame_for H (pr_ep_cptr p) 0 0 0 0;
       (state, call_frame) \<leftarrow> unwrap (call H state (pr_client p) (pr_ep_cptr p) call_frame);
       let reply_frame = ipc_frame_for H 0 0 0 0 2;
       assert_err TruncatedMessage (reply H state (pr_server p) reply_frame);
       Some ()
     }"

definition call_rejects_more_than_two_extra_caps :: "('f, 'w::len word, 'h, 'p) kernel_test" where
  "call_rejects_more_than_two_extra_caps H kpt hw =
     do {
       p \<leftarrow> ipc_setup H kpt hw;
       let call_frame = ipc_frame_for H (pr_ep_cptr p) 0 0 0 3;
       assert_err TruncatedMessage (call H (pr_state p) (pr_client p) (pr_ep_cptr p) call_frame);
       Some ()
     }"

lemma ipc_tests_pass:
  "send_transfers_into_a_waiting_receivers_registered_slot toy PAGE_TABLES toy_boot = Some ()"
  "recv_transfers_when_the_sender_blocked_first toy PAGE_TABLES toy_boot = Some ()"
  "transfer_without_grant_right_is_rejected toy PAGE_TABLES toy_boot = Some ()"
  "transfer_to_a_receiver_with_no_registered_slot_is_rejected_and_nothing_is_consumed toy PAGE_TABLES toy_boot
     = Some ()"
  "transfer_into_an_occupied_destination_slot_is_rejected toy PAGE_TABLES toy_boot = Some ()"
  "more_than_one_extra_cap_is_rejected_no_ipc_buffer_exists toy PAGE_TABLES toy_boot = Some ()"
  "call_transfers_a_capability_on_its_outbound_leg toy PAGE_TABLES toy_boot = Some ()"
  "call_registers_a_reply_destination_and_reply_transfers_into_it toy PAGE_TABLES toy_boot = Some ()"
  "reply_transfer_without_a_registered_call_destination_is_rejected toy PAGE_TABLES toy_boot = Some ()"
  "reply_still_rejects_more_than_one_extra_cap toy PAGE_TABLES toy_boot = Some ()"
  "call_rejects_more_than_two_extra_caps toy PAGE_TABLES toy_boot = Some ()"
  by code_simp+

end
