(* ===== verification/TestCNode.thy ===== *)
theory TestCNode
  imports TestKit
begin

text \<open>The unit tests of \<open>src/cnode.rs\<close>.\<close>

section \<open>Within one CNode\<close>

definition cnode_setup ::
  "('f, 'w::len word, 'h, 'p) hal \<Rightarrow> usize \<Rightarrow> 'h \<Rightarrow> (('w word, 'h) kernel_state \<times> tcb_id \<times> cptr) option" where
  "cnode_setup H kpt hw =
     do {
       let state = kernel_state_new kpt hw;
       (cnode_idx, state) \<leftarrow> alloc_cnode state;
       let i = CNodeId (of_nat cnode_idx);
       (tcb_idx, state) \<leftarrow> alloc_tcb H state;
       let t = TcbId (of_nat tcb_idx);
       state \<leftarrow> edit_tcb state tcb_idx (\<lambda>tcb. tcb\<lparr>tcb_cspace := Some i\<rparr>);
       let self_cptr = 0;
       state \<leftarrow> put_cap state cnode_idx self_cptr (CNodeCap i);
       Some (state, t, self_cptr)
     }"

definition cnode_frame_for ::
  "('f, 'w::len word, 'h, 'p) hal \<Rightarrow> u32 \<Rightarrow> usize \<Rightarrow> usize \<Rightarrow> usize \<Rightarrow> usize \<Rightarrow> 'f" where
  "cnode_frame_for H label mr0 mr1 mr2 mr3 = message_frame H label 0 mr0 mr1 mr2 mr3"

definition copy_duplicates_a_capability :: "('f, 'w::len word, 'h, 'p) kernel_test" where
  "copy_duplicates_a_capability H kpt hw =
     do {
       (state, tcb, self_cptr) \<leftarrow> cnode_setup H kpt hw;
       let ep = EndpointCap (EndpointId 1) 0 rights_ALL;
       state \<leftarrow> put_cap state 0 5 ep;
       let frame = cnode_frame_for H LABEL_COPY self_cptr 5 6 0;
       (state, frame) \<leftarrow> unwrap (cnode_invoke H state tcb self_cptr frame);
       assert_that (cap_at state 0 5 = Some (Some ep));
       assert_that (cap_at state 0 6 = Some (Some ep))
     }"

definition move_relocates_and_clears_the_source :: "('f, 'w::len word, 'h, 'p) kernel_test" where
  "move_relocates_and_clears_the_source H kpt hw =
     do {
       (state, tcb, self_cptr) \<leftarrow> cnode_setup H kpt hw;
       let ep = EndpointCap (EndpointId 1) 0 rights_ALL;
       state \<leftarrow> put_cap state 0 5 ep;
       let frame = cnode_frame_for H LABEL_MOVE self_cptr 5 6 0;
       (state, frame) \<leftarrow> unwrap (cnode_invoke H state tcb self_cptr frame);
       assert_that (cap_at state 0 5 = Some (Some Null));
       assert_that (cap_at state 0 6 = Some (Some ep))
     }"

definition mint_narrows_rights_and_rejects_amplification :: "('f, 'w::len word, 'h, 'p) kernel_test" where
  "mint_narrows_rights_and_rejects_amplification H kpt hw =
     do {
       (state, tcb, self_cptr) \<leftarrow> cnode_setup H kpt hw;
       let ep = EndpointCap (EndpointId 1) 0 (rights_union rights_READ rights_WRITE);
       state \<leftarrow> put_cap state 0 5 ep;
       let frame = cnode_frame_for H LABEL_MINT self_cptr 5 6 (ucast (bits rights_ALL));
       (state, frame) \<leftarrow> assert_err IllegalOperation (cnode_invoke H state tcb self_cptr frame);
       assert_that (cap_at state 0 6 = Some (Some Null));
       let frame = cnode_frame_for H LABEL_MINT self_cptr 5 6 (ucast (bits rights_READ));
       (state, frame) \<leftarrow> unwrap (cnode_invoke H state tcb self_cptr frame);
       assert_that (cap_at state 0 6 = Some (Some (EndpointCap (EndpointId 1) 0 rights_READ)))
     }"

definition delete_clears_the_slot :: "('f, 'w::len word, 'h, 'p) kernel_test" where
  "delete_clears_the_slot H kpt hw =
     do {
       (state, tcb, self_cptr) \<leftarrow> cnode_setup H kpt hw;
       let ep = EndpointCap (EndpointId 1) 0 rights_ALL;
       state \<leftarrow> put_cap state 0 5 ep;
       let frame = cnode_frame_for H LABEL_DELETE self_cptr 5 0 0;
       (state, frame) \<leftarrow> unwrap (cnode_invoke H state tcb self_cptr frame);
       assert_that (cap_at state 0 5 = Some (Some Null))
     }"

definition copy_into_occupied_slot_is_rejected :: "('f, 'w::len word, 'h, 'p) kernel_test" where
  "copy_into_occupied_slot_is_rejected H kpt hw =
     do {
       (state, tcb, self_cptr) \<leftarrow> cnode_setup H kpt hw;
       let ep = EndpointCap (EndpointId 1) 0 rights_ALL;
       state \<leftarrow> put_cap state 0 5 ep;
       state \<leftarrow> put_cap state 0 6 ep;
       let frame = cnode_frame_for H LABEL_COPY self_cptr 5 6 0;
       assert_err IllegalOperation (cnode_invoke H state tcb self_cptr frame);
       Some ()
     }"

definition revoke_is_cleanly_refused :: "('f, 'w::len word, 'h, 'p) kernel_test" where
  "revoke_is_cleanly_refused H kpt hw =
     do {
       (state, tcb, self_cptr) \<leftarrow> cnode_setup H kpt hw;
       let frame = cnode_frame_for H LABEL_REVOKE self_cptr 5 0 0;
       assert_err IllegalOperation (cnode_invoke H state tcb self_cptr frame);
       Some ()
     }"

section \<open>Across two CNodes\<close>

definition setup_cross ::
  "('f, 'w::len word, 'h, 'p) hal \<Rightarrow> usize \<Rightarrow> 'h
    \<Rightarrow> (('w word, 'h) kernel_state \<times> tcb_id \<times> cptr \<times> cptr) option" where
  "setup_cross H kpt hw =
     do {
       let state = kernel_state_new kpt hw;
       (i, state) \<leftarrow> alloc_cnode state;
       let cnode_a = CNodeId (of_nat i);
       (i, state) \<leftarrow> alloc_cnode state;
       let cnode_b = CNodeId (of_nat i);
       (tcb_idx, state) \<leftarrow> alloc_tcb H state;
       let t = TcbId (of_nat tcb_idx);
       state \<leftarrow> edit_tcb state tcb_idx (\<lambda>tcb. tcb\<lparr>tcb_cspace := Some cnode_a\<rparr>);
       state \<leftarrow> put_cap state (cnode_ix cnode_a) 0 (CNodeCap cnode_a);
       state \<leftarrow> put_cap state (cnode_ix cnode_a) 1 (CNodeCap cnode_b);
       Some (state, t, 1, 0)
     }"

definition copy_cross_places_a_capability_from_a_different_cnode ::
  "('f, 'w::len word, 'h, 'p) kernel_test" where
  "copy_cross_places_a_capability_from_a_different_cnode H kpt hw =
     do {
       (state, tcb, dest_cptr, source_cnode_cptr) \<leftarrow> setup_cross H kpt hw;
       let ep = EndpointCap (EndpointId 1) 42 rights_ALL;
       state \<leftarrow> put_cap state 0 5 ep;
       let frame = cnode_frame_for H LABEL_COPY_CROSS dest_cptr source_cnode_cptr 5 9;
       (state, frame) \<leftarrow> unwrap (cnode_invoke H state tcb dest_cptr frame);
       assert_that (cap_at state 1 9 = Some (Some ep));
       assert_that (cap_at state 0 5 = Some (Some ep))
     }"

definition copy_cross_into_an_occupied_destination_slot_is_rejected ::
  "('f, 'w::len word, 'h, 'p) kernel_test" where
  "copy_cross_into_an_occupied_destination_slot_is_rejected H kpt hw =
     do {
       (state, tcb, dest_cptr, source_cnode_cptr) \<leftarrow> setup_cross H kpt hw;
       let ep = EndpointCap (EndpointId 1) 0 rights_ALL;
       state \<leftarrow> put_cap state 0 5 ep;
       state \<leftarrow> put_cap state 1 9 ep;
       let frame = cnode_frame_for H LABEL_COPY_CROSS dest_cptr source_cnode_cptr 5 9;
       assert_err IllegalOperation (cnode_invoke H state tcb dest_cptr frame);
       Some ()
     }"

definition copy_cross_rejects_a_source_argument_that_is_not_a_cnode_capability ::
  "('f, 'w::len word, 'h, 'p) kernel_test" where
  "copy_cross_rejects_a_source_argument_that_is_not_a_cnode_capability H kpt hw =
     do {
       (state, tcb, dest_cptr, _) \<leftarrow> setup_cross H kpt hw;
       let ep = EndpointCap (EndpointId 1) 0 rights_ALL;
       state \<leftarrow> put_cap state 0 5 ep;
       let frame = cnode_frame_for H LABEL_COPY_CROSS dest_cptr 5 0 9;
       assert_err InvalidCapability (cnode_invoke H state tcb dest_cptr frame);
       Some ()
     }"

lemma cnode_tests_pass:
  "copy_duplicates_a_capability toy PAGE_TABLES toy_boot = Some ()"
  "move_relocates_and_clears_the_source toy PAGE_TABLES toy_boot = Some ()"
  "mint_narrows_rights_and_rejects_amplification toy PAGE_TABLES toy_boot = Some ()"
  "delete_clears_the_slot toy PAGE_TABLES toy_boot = Some ()"
  "copy_into_occupied_slot_is_rejected toy PAGE_TABLES toy_boot = Some ()"
  "revoke_is_cleanly_refused toy PAGE_TABLES toy_boot = Some ()"
  "copy_cross_places_a_capability_from_a_different_cnode toy PAGE_TABLES toy_boot = Some ()"
  "copy_cross_into_an_occupied_destination_slot_is_rejected toy PAGE_TABLES toy_boot = Some ()"
  "copy_cross_rejects_a_source_argument_that_is_not_a_cnode_capability toy PAGE_TABLES toy_boot = Some ()"
  by code_simp+

end
