(* ===== verification/TestAdmin.thy ===== *)
theory TestAdmin
  imports TestKit
begin

text \<open>
  The unit tests of \<open>src/admin.rs\<close>. Where a test of the source hands an Untyped the address of
  a buffer of its own (\<open>TestArena\<close>), that address is a parameter, \<open>arena\<close>.
\<close>

section \<open>Set-up\<close>

definition admin_frame_for :: "('f, 'w::len word, 'h, 'p) hal \<Rightarrow> usize \<Rightarrow> usize \<Rightarrow> usize \<Rightarrow> 'f" where
  "admin_frame_for H mr0 mr1 mr2 =
     (let frame = h_zeroed H;
          frame = h_set_tag H frame \<lparr>tag_label = 0, tag_length = 0, tag_extra_caps = 0, tag_flags = 0\<rparr>;
          frame = h_set_mr H frame 0 mr0;
          frame = h_set_mr H frame 1 mr1
      in h_set_mr H frame 2 mr2)"

text \<open>\<open>ObjectType::X as usize\<close>, the discriminant.\<close>

fun object_type_number :: "object_type \<Rightarrow> usize" where
  "object_type_number OT_CNode = 0"
| "object_type_number OT_Untyped = 1"
| "object_type_number OT_Endpoint = 2"
| "object_type_number OT_Notification = 3"
| "object_type_number OT_Tcb = 4"
| "object_type_number OT_SchedContext = 5"
| "object_type_number OT_VSpace = 6"
| "object_type_number OT_FrameSmall = 7"
| "object_type_number OT_FrameMega = 8"

definition setup_with_untyped ::
  "('f, 'w::len word, 'h, 'p) hal \<Rightarrow> usize \<Rightarrow> 'h \<Rightarrow> usize
    \<Rightarrow> (('w word, 'h) kernel_state \<times> tcb_id \<times> cptr \<times> cptr) option" where
  "setup_with_untyped H kpt hw budget =
     do {
       let state = kernel_state_new kpt hw;
       (cnode_idx, state) \<leftarrow> alloc_cnode state;
       let i = CNodeId (of_nat cnode_idx);
       (tcb_idx, state) \<leftarrow> alloc_tcb H state;
       let t = TcbId (of_nat tcb_idx);
       state \<leftarrow> edit_tcb state tcb_idx (\<lambda>tcb. tcb\<lparr>tcb_cspace := Some i\<rparr>);
       (untyped_idx, state) \<leftarrow> alloc_untyped state (untyped_new budget);
       let untyped_cptr = 1;
       state \<leftarrow> put_cap state cnode_idx untyped_cptr (UntypedCap (UntypedId (of_nat untyped_idx)) rights_ALL);
       Some (state, t, untyped_cptr, 2)
     }"

definition TEST_ARENA_BYTES :: usize where "TEST_ARENA_BYTES = 64 * 1024"

definition setup_with_memory_backed_untyped ::
  "('f, 'w::len word, 'h, 'p) hal \<Rightarrow> usize \<Rightarrow> 'h \<Rightarrow> usize \<Rightarrow> usize
    \<Rightarrow> (('w word, 'h) kernel_state \<times> tcb_id \<times> cptr \<times> cptr) option" where
  "setup_with_memory_backed_untyped H kpt hw budget arena =
     do {
       let state = kernel_state_new kpt hw;
       (cnode_idx, state) \<leftarrow> alloc_cnode state;
       let i = CNodeId (of_nat cnode_idx);
       (tcb_idx, state) \<leftarrow> alloc_tcb H state;
       let t = TcbId (of_nat tcb_idx);
       state \<leftarrow> edit_tcb state tcb_idx (\<lambda>tcb. tcb\<lparr>tcb_cspace := Some i\<rparr>);
       untyped \<leftarrow> untyped_with_memory budget arena TEST_ARENA_BYTES;
       (untyped_idx, state) \<leftarrow> alloc_untyped state untyped;
       let untyped_cptr = 1;
       state \<leftarrow> put_cap state cnode_idx untyped_cptr (UntypedCap (UntypedId (of_nat untyped_idx)) rights_ALL);
       Some (state, t, untyped_cptr, 2)
     }"

section \<open>UntypedRetype\<close>

definition retype_endpoint_places_a_full_rights_capability :: "('f, 'w::len word, 'h, 'p) kernel_test" where
  "retype_endpoint_places_a_full_rights_capability H kpt hw =
     do {
       (state, tcb, untyped_cptr, dest) \<leftarrow> setup_with_untyped H kpt hw 2;
       let frame = admin_frame_for H untyped_cptr (object_type_number OT_Endpoint) dest;
       (state, frame) \<leftarrow> unwrap (untyped_retype H state tcb untyped_cptr frame);
       assert_that (cap_at state 0 dest = Some (Some (EndpointCap (EndpointId 0) 0 rights_ALL)));
       untyped \<leftarrow> pool_get (ks_untypeds state) 0;
       assert_that (ut_remaining untyped = 1)
     }"

definition retype_exhausts_budget :: "('f, 'w::len word, 'h, 'p) kernel_test" where
  "retype_exhausts_budget H kpt hw =
     do {
       (state, tcb, untyped_cptr, dest) \<leftarrow> setup_with_untyped H kpt hw 1;
       let frame = admin_frame_for H untyped_cptr (object_type_number OT_Endpoint) dest;
       (state, frame) \<leftarrow> unwrap (untyped_retype H state tcb untyped_cptr frame);
       let frame2 = admin_frame_for H untyped_cptr (object_type_number OT_Endpoint) (dest + 1);
       assert_err NotEnoughMemory (untyped_retype H state tcb untyped_cptr frame2);
       Some ()
     }"

definition retype_into_occupied_slot_does_not_leak_a_pool_entry :: "('f, 'w::len word, 'h, 'p) kernel_test" where
  "retype_into_occupied_slot_does_not_leak_a_pool_entry H kpt hw =
     do {
       (state, tcb, untyped_cptr, dest) \<leftarrow> setup_with_untyped H kpt hw 2;
       state \<leftarrow> put_cap state 0 dest (EndpointCap (EndpointId 99) 0 rights_ALL);
       let frame = admin_frame_for H untyped_cptr (object_type_number OT_Endpoint) dest;
       (state, frame) \<leftarrow> assert_err IllegalOperation (untyped_retype H state tcb untyped_cptr frame);
       untyped \<leftarrow> pool_get (ks_untypeds state) 0;
       assert_that (ut_remaining untyped = 2);
       assert_that (pool_len (ks_endpoints state) = 0)
     }"

definition retype_vspace_from_a_memory_backed_untyped ::
  "usize \<Rightarrow> ('f, 'w::len word, 'h, 'p) kernel_test" where
  "retype_vspace_from_a_memory_backed_untyped arena H kpt hw =
     do {
       (state, tcb, untyped_cptr, dest) \<leftarrow> setup_with_memory_backed_untyped H kpt hw 2 arena;
       let frame = admin_frame_for H untyped_cptr (object_type_number OT_VSpace) dest;
       (state, frame) \<leftarrow> unwrap (untyped_retype H state tcb untyped_cptr frame);
       slot \<leftarrow> cap_at state 0 dest;
       cap \<leftarrow> slot;
       (vid, r) \<leftarrow> as_vspace cap;
       assert_that (r = rights_ALL);
       vspace \<leftarrow> pool_get (ks_vspaces state) (vspace_ix vid);
       assert_that (vs_root vspace < arena \<or> vs_root vspace \<ge> arena + TEST_ARENA_BYTES);
       assert_that (vs_root vspace mod h_page_size H = 0);
       untyped \<leftarrow> pool_get (ks_untypeds state) 0;
       assert_that (ut_remaining untyped = 1)
     }"

definition retype_frame_small_gets_a_correctly_sized_page ::
  "usize \<Rightarrow> ('f, 'w::len word, 'h, 'p) kernel_test" where
  "retype_frame_small_gets_a_correctly_sized_page arena H kpt hw =
     do {
       (state, tcb, untyped_cptr, dest) \<leftarrow> setup_with_memory_backed_untyped H kpt hw 2 arena;
       let frame1 = admin_frame_for H untyped_cptr (object_type_number OT_FrameSmall) dest;
       (state, frame1) \<leftarrow> unwrap (untyped_retype H state tcb untyped_cptr frame1);
       let frame2 = admin_frame_for H untyped_cptr (object_type_number OT_FrameSmall) (dest + 1);
       (state, frame2) \<leftarrow> unwrap (untyped_retype H state tcb untyped_cptr frame2);
       slot \<leftarrow> cap_at state 0 dest;
       cap \<leftarrow> slot;
       (first_id, _) \<leftarrow> as_frame cap;
       slot \<leftarrow> cap_at state 0 (dest + 1);
       cap \<leftarrow> slot;
       (second_id, _) \<leftarrow> as_frame cap;
       first \<leftarrow> pool_get (ks_frames state) (frame_ix first_id);
       second \<leftarrow> pool_get (ks_frames state) (frame_ix second_id);
       assert_that (fr_size first = Small);
       assert_that (fr_paddr first mod h_page_size H = 0);
       assert_that (fr_paddr first \<noteq> fr_paddr second);
       assert_that (list_all (\<lambda>m. m = None) (fr_mapped_at first))
     }"

definition retype_frame_mega_gets_a_correctly_sized_page ::
  "usize \<Rightarrow> ('f, 'w::len word, 'h, 'p) kernel_test" where
  "retype_frame_mega_gets_a_correctly_sized_page base H kpt hw =
     do {
       let state = kernel_state_new kpt hw;
       (cnode_idx, state) \<leftarrow> alloc_cnode state;
       (i, state) \<leftarrow> alloc_tcb H state;
       let t = TcbId (of_nat i);
       state \<leftarrow> edit_tcb state (tcb_ix t) (\<lambda>tcb. tcb\<lparr>tcb_cspace := Some (CNodeId (of_nat cnode_idx))\<rparr>);
       untyped \<leftarrow> untyped_with_memory 2 base (3 * h_megapage_size H);
       (untyped_idx, state) \<leftarrow> alloc_untyped state untyped;
       let untyped_cptr = 1;
       state \<leftarrow> put_cap state cnode_idx untyped_cptr (UntypedCap (UntypedId (of_nat untyped_idx)) rights_ALL);
       let frame = admin_frame_for H untyped_cptr (object_type_number OT_FrameMega) 2;
       (state, frame) \<leftarrow> unwrap (untyped_retype H state t untyped_cptr frame);
       slot \<leftarrow> cap_at state 0 2;
       cap \<leftarrow> slot;
       (fid, _) \<leftarrow> as_frame cap;
       mega \<leftarrow> pool_get (ks_frames state) (frame_ix fid);
       assert_that (fr_size mega = Mega);
       assert_that (fr_paddr mega mod h_megapage_size H = 0);
       assert_that (list_all (\<lambda>m. m = None) (fr_mapped_at mega))
     }"

definition retype_vspace_succeeds_without_real_memory_backing :: "('f, 'w::len word, 'h, 'p) kernel_test" where
  "retype_vspace_succeeds_without_real_memory_backing H kpt hw =
     do {
       (state, tcb, untyped_cptr, dest) \<leftarrow> setup_with_untyped H kpt hw 2;
       let frame = admin_frame_for H untyped_cptr (object_type_number OT_VSpace) dest;
       (state, frame) \<leftarrow> unwrap (untyped_retype H state tcb untyped_cptr frame);
       slot \<leftarrow> cap_at state 0 dest;
       cap \<leftarrow> slot;
       (vid, r) \<leftarrow> as_vspace cap;
       assert_that (r = rights_ALL);
       vspace \<leftarrow> pool_get (ks_vspaces state) (vspace_ix vid);
       assert_that (vs_root vspace mod h_page_size H = 0);
       untyped \<leftarrow> pool_get (ks_untypeds state) 0;
       assert_that (ut_remaining untyped = 1)
     }"

section \<open>TCBConfigure\<close>

definition configure_admits_an_inactive_thread_to_the_ready_queue ::
  "('f, 'w::len word, 'h, 'p) kernel_test" where
  "configure_admits_an_inactive_thread_to_the_ready_queue H kpt hw =
     do {
       let state = kernel_state_new kpt hw;
       (admin_cnode, state) \<leftarrow> alloc_cnode state;
       (i, state) \<leftarrow> alloc_tcb H state;
       let admin_id = TcbId (of_nat i);
       state \<leftarrow> edit_tcb state (tcb_ix admin_id) (\<lambda>tcb. tcb\<lparr>tcb_cspace := Some (CNodeId (of_nat admin_cnode))\<rparr>);
       (target_idx, state) \<leftarrow> alloc_tcb H state;
       let target = TcbId (of_nat target_idx);
       (i, state) \<leftarrow> alloc_cnode state;
       let target_cspace = CNodeId (of_nat i);
       (sched, state) \<leftarrow> alloc_sched_context state;
       state \<leftarrow> put_cap state admin_cnode 0 (TcbCap target rights_ALL);
       state \<leftarrow> put_cap state admin_cnode 1 (CNodeCap target_cspace);
       state \<leftarrow> put_cap state admin_cnode 2 (SchedContextCap (SchedContextId (of_nat sched)) rights_ALL);
       let frame = admin_frame_for H 0 1 2;
       (state, frame) \<leftarrow> unwrap (configure H state admin_id 0 frame);
       tcb \<leftarrow> pool_get (ks_tcbs state) target_idx;
       assert_that (tcb_state tcb = Ready);
       assert_that (tcb_cspace tcb = Some target_cspace)
     }"

definition configure_sets_address_space_from_a_vspace_capability ::
  "usize \<Rightarrow> ('f, 'w::len word, 'h, 'p) kernel_test" where
  "configure_sets_address_space_from_a_vspace_capability arena H kpt hw =
     do {
       (state, admin_id, untyped_cptr, dest) \<leftarrow> setup_with_memory_backed_untyped H kpt hw 3 arena;
       (target_idx, state) \<leftarrow> alloc_tcb H state;
       let target = TcbId (of_nat target_idx);
       (i, state) \<leftarrow> alloc_cnode state;
       let target_cspace = CNodeId (of_nat i);
       (sched, state) \<leftarrow> alloc_sched_context state;
       let retype_frame = admin_frame_for H untyped_cptr (object_type_number OT_VSpace) dest;
       (state, retype_frame) \<leftarrow> unwrap (untyped_retype H state admin_id untyped_cptr retype_frame);
       slot \<leftarrow> cap_at state 0 dest;
       cap \<leftarrow> slot;
       (vid, _) \<leftarrow> as_vspace cap;
       vspace \<leftarrow> pool_get (ks_vspaces state) (vspace_ix vid);
       let expected_root = vs_root vspace;
       state \<leftarrow> put_cap state 0 3 (TcbCap target rights_ALL);
       state \<leftarrow> put_cap state 0 4 (CNodeCap target_cspace);
       state \<leftarrow> put_cap state 0 5 (SchedContextCap (SchedContextId (of_nat sched)) rights_ALL);
       let frame = h_zeroed H;
       let frame = h_set_mr H frame 1 4;
       let frame = h_set_mr H frame 2 5;
       let frame = h_set_mr H frame 3 dest;
       (state, frame) \<leftarrow> unwrap (configure H state admin_id 3 frame);
       tcb \<leftarrow> pool_get (ks_tcbs state) target_idx;
       assert_that (tcb_address_space tcb = Some expected_root)
     }"

definition configure_with_mr3_zero_leaves_no_address_space :: "('f, 'w::len word, 'h, 'p) kernel_test" where
  "configure_with_mr3_zero_leaves_no_address_space H kpt hw =
     do {
       let state = kernel_state_new kpt hw;
       (admin_cnode, state) \<leftarrow> alloc_cnode state;
       (i, state) \<leftarrow> alloc_tcb H state;
       let admin_id = TcbId (of_nat i);
       state \<leftarrow> edit_tcb state (tcb_ix admin_id) (\<lambda>tcb. tcb\<lparr>tcb_cspace := Some (CNodeId (of_nat admin_cnode))\<rparr>);
       (target_idx, state) \<leftarrow> alloc_tcb H state;
       let target = TcbId (of_nat target_idx);
       (i, state) \<leftarrow> alloc_cnode state;
       let target_cspace = CNodeId (of_nat i);
       (sched, state) \<leftarrow> alloc_sched_context state;
       state \<leftarrow> put_cap state admin_cnode 0 (TcbCap target rights_ALL);
       state \<leftarrow> put_cap state admin_cnode 1 (CNodeCap target_cspace);
       state \<leftarrow> put_cap state admin_cnode 2 (SchedContextCap (SchedContextId (of_nat sched)) rights_ALL);
       let frame = admin_frame_for H 0 1 2;
       (state, frame) \<leftarrow> unwrap (configure H state admin_id 0 frame);
       tcb \<leftarrow> pool_get (ks_tcbs state) target_idx;
       assert_that (tcb_address_space tcb = None)
     }"

definition configure_rejects_a_non_vspace_mr3 :: "('f, 'w::len word, 'h, 'p) kernel_test" where
  "configure_rejects_a_non_vspace_mr3 H kpt hw =
     do {
       let state = kernel_state_new kpt hw;
       (admin_cnode, state) \<leftarrow> alloc_cnode state;
       (i, state) \<leftarrow> alloc_tcb H state;
       let admin_id = TcbId (of_nat i);
       state \<leftarrow> edit_tcb state (tcb_ix admin_id) (\<lambda>tcb. tcb\<lparr>tcb_cspace := Some (CNodeId (of_nat admin_cnode))\<rparr>);
       (target_idx, state) \<leftarrow> alloc_tcb H state;
       let target = TcbId (of_nat target_idx);
       (i, state) \<leftarrow> alloc_cnode state;
       let target_cspace = CNodeId (of_nat i);
       (sched, state) \<leftarrow> alloc_sched_context state;
       (ep, state) \<leftarrow> alloc_endpoint state;
       state \<leftarrow> put_cap state admin_cnode 0 (TcbCap target rights_ALL);
       state \<leftarrow> put_cap state admin_cnode 1 (CNodeCap target_cspace);
       state \<leftarrow> put_cap state admin_cnode 2 (SchedContextCap (SchedContextId (of_nat sched)) rights_ALL);
       state \<leftarrow> put_cap state admin_cnode 3 (EndpointCap (EndpointId (of_nat ep)) 0 rights_ALL);
       let frame = h_zeroed H;
       let frame = h_set_mr H frame 1 1;
       let frame = h_set_mr H frame 2 2;
       let frame = h_set_mr H frame 3 3;
       assert_err InvalidCapability (configure H state admin_id 0 frame);
       Some ()
     }"

text \<open>The buffers of the tests: away from the kernel's page tables, page-aligned.\<close>

definition TEST_ARENA :: usize where "TEST_ARENA = 65536"

lemma admin_tests_pass:
  "retype_endpoint_places_a_full_rights_capability toy PAGE_TABLES toy_boot = Some ()"
  "retype_exhausts_budget toy PAGE_TABLES toy_boot = Some ()"
  "retype_into_occupied_slot_does_not_leak_a_pool_entry toy PAGE_TABLES toy_boot = Some ()"
  "retype_vspace_from_a_memory_backed_untyped TEST_ARENA toy PAGE_TABLES toy_boot = Some ()"
  "retype_frame_small_gets_a_correctly_sized_page TEST_ARENA toy PAGE_TABLES toy_boot = Some ()"
  "retype_frame_mega_gets_a_correctly_sized_page TEST_ARENA toy PAGE_TABLES toy_boot = Some ()"
  "retype_vspace_succeeds_without_real_memory_backing toy PAGE_TABLES toy_boot = Some ()"
  "configure_admits_an_inactive_thread_to_the_ready_queue toy PAGE_TABLES toy_boot = Some ()"
  "configure_sets_address_space_from_a_vspace_capability TEST_ARENA toy PAGE_TABLES toy_boot = Some ()"
  "configure_with_mr3_zero_leaves_no_address_space toy PAGE_TABLES toy_boot = Some ()"
  "configure_rejects_a_non_vspace_mr3 toy PAGE_TABLES toy_boot = Some ()"
  by code_simp+

end
