(* ===== verification/TestFrame.thy ===== *)
theory TestFrame
  imports TestAdmin
begin

text \<open>
  The unit tests of \<open>src/frame.rs\<close>, on the machine of \<open>Instance\<close>, whose walks take a spare
  table for every branch that is missing. \<open>arena\<close> is the address of the test's buffer.
\<close>

section \<open>Set-up\<close>

definition retype_for_test ::
  "('f, 'w::len word, 'h, 'p) hal \<Rightarrow> ('w word, 'h) kernel_state \<Rightarrow> tcb_id \<Rightarrow> cptr \<Rightarrow> object_type \<Rightarrow> cptr
    \<Rightarrow> ('w word, 'h) kernel_state option" where
  "retype_for_test H state t untyped_cptr ot dest =
     do {
       let frame = h_zeroed H;
       let frame = h_set_mr H frame 1 (object_type_number ot);
       let frame = h_set_mr H frame 2 dest;
       (state, frame) \<leftarrow> unwrap (untyped_retype H state t untyped_cptr frame);
       Some state
     }"

definition frame_setup ::
  "usize \<Rightarrow> ('f, 'w::len word, 'h, 'p) hal \<Rightarrow> usize \<Rightarrow> 'h
    \<Rightarrow> (('w word, 'h) kernel_state \<times> tcb_id \<times> cptr \<times> cptr) option" where
  "frame_setup arena H kpt hw =
     do {
       let state = kernel_state_new kpt hw;
       (cnode_idx, state) \<leftarrow> alloc_cnode state;
       (i, state) \<leftarrow> alloc_tcb H state;
       let t = TcbId (of_nat i);
       state \<leftarrow> edit_tcb state (tcb_ix t) (\<lambda>tcb. tcb\<lparr>tcb_cspace := Some (CNodeId (of_nat cnode_idx))\<rparr>);
       untyped \<leftarrow> untyped_with_memory 4 arena TEST_ARENA_BYTES;
       (untyped_idx, state) \<leftarrow> alloc_untyped state untyped;
       let untyped_cptr = 1;
       state \<leftarrow> put_cap state cnode_idx untyped_cptr (UntypedCap (UntypedId (of_nat untyped_idx)) rights_ALL);
       let vspace_cptr = 2;
       state \<leftarrow> retype_for_test H state t untyped_cptr OT_VSpace vspace_cptr;
       let frame_cptr = 3;
       state \<leftarrow> retype_for_test H state t untyped_cptr OT_FrameSmall frame_cptr;
       Some (state, t, frame_cptr, vspace_cptr)
     }"

definition map_frame :: "('f, 'w::len word, 'h, 'p) hal \<Rightarrow> usize \<Rightarrow> 'f" where
  "map_frame H mr3 =
     (let frame = h_zeroed H;
          frame = h_set_tag H frame
            \<lparr>tag_label = LABEL_MAP, tag_length = 0, tag_extra_caps = 0, tag_flags = 0\<rparr>
      in h_set_mr H frame 3 mr3)"

text \<open>\<open>map_frame(perms)\<close> with the VSpace and the address, and the frame every \<open>Unmap\<close> uses.\<close>

definition map_request :: "('f, 'w::len word, 'h, 'p) hal \<Rightarrow> usize \<Rightarrow> cptr \<Rightarrow> usize \<Rightarrow> 'f" where
  "map_request H mr3 vspace_cptr vaddr =
     (let frame = map_frame H mr3;
          frame = h_set_mr H frame 1 vspace_cptr
      in h_set_mr H frame 2 vaddr)"

definition unmap_request :: "('f, 'w::len word, 'h, 'p) hal \<Rightarrow> cptr \<Rightarrow> 'f" where
  "unmap_request H vspace_cptr =
     (let frame = h_zeroed H;
          frame = h_set_tag H frame
            \<lparr>tag_label = LABEL_UNMAP, tag_length = 0, tag_extra_caps = 0, tag_flags = 0\<rparr>
      in h_set_mr H frame 1 vspace_cptr)"

definition held_vspace :: "('b, 'h) kernel_state \<Rightarrow> tcb_id \<Rightarrow> cptr \<Rightarrow> (vspace_id \<times> rights) option" where
  "held_vspace s t c = Option.bind (held_cap s t c) as_vspace"

definition held_frame :: "('b, 'h) kernel_state \<Rightarrow> tcb_id \<Rightarrow> cptr \<Rightarrow> (frame_id \<times> rights) option" where
  "held_frame s t c = Option.bind (held_cap s t c) as_frame"

section \<open>Map\<close>

definition map_then_translate_succeeds_and_marks_the_frame_mapped ::
  "usize \<Rightarrow> ('f, 'w::len word, 'h, 'p) kernel_test" where
  "map_then_translate_succeeds_and_marks_the_frame_mapped arena H kpt hw =
     do {
       (state, tcb, frame_cptr, vspace_cptr) \<leftarrow> frame_setup arena H kpt hw;
       (vid, _) \<leftarrow> held_vspace state tcb vspace_cptr;
       (fid, _) \<leftarrow> held_frame state tcb frame_cptr;
       fr \<leftarrow> pool_get (ks_frames state) (frame_ix fid);
       let paddr = fr_paddr fr;
       vspace \<leftarrow> pool_get (ks_vspaces state) (vspace_ix vid);
       let root = vs_root vspace;
       let vaddr = 0x10000000;
       let frame = map_request H (PERM_READ OR PERM_WRITE) vspace_cptr vaddr;
       (state, frame) \<leftarrow> unwrap (frame_invoke H state tcb frame_cptr frame);
       assert_that (h_translate H (ks_hw state) root vaddr = Some paddr);
       fr \<leftarrow> pool_get (ks_frames state) (frame_ix fid);
       assert_that (Some (vid, vaddr) \<in> set (fr_mapped_at fr))
     }"

definition map_rejects_a_frame_without_write_rights :: "usize \<Rightarrow> ('f, 'w::len word, 'h, 'p) kernel_test" where
  "map_rejects_a_frame_without_write_rights arena H kpt hw =
     do {
       (state, tcb, frame_cptr, vspace_cptr) \<leftarrow> frame_setup arena H kpt hw;
       (fid, _) \<leftarrow> held_frame state tcb frame_cptr;
       state \<leftarrow> put_cap state 0 4 (FrameCap fid rights_READ);
       let frame = map_request H PERM_READ vspace_cptr 0x10000000;
       assert_err IllegalOperation (frame_invoke H state tcb 4 frame);
       Some ()
     }"

definition map_rejects_a_second_mapping_into_the_same_vspace ::
  "usize \<Rightarrow> ('f, 'w::len word, 'h, 'p) kernel_test" where
  "map_rejects_a_second_mapping_into_the_same_vspace arena H kpt hw =
     do {
       (state, tcb, frame_cptr, vspace_cptr) \<leftarrow> frame_setup arena H kpt hw;
       let frame1 = map_request H PERM_READ vspace_cptr 0x10000000;
       (state, frame1) \<leftarrow> unwrap (frame_invoke H state tcb frame_cptr frame1);
       let frame2 = map_request H PERM_READ vspace_cptr 0x20000000;
       (state, frame2) \<leftarrow> unwrap (frame_invoke H state tcb frame_cptr frame2);
       Some ()
     }"

definition map_allows_exactly_two_simultaneous_mappings_then_rejects_a_third ::
  "usize \<Rightarrow> ('f, 'w::len word, 'h, 'p) kernel_test" where
  "map_allows_exactly_two_simultaneous_mappings_then_rejects_a_third arena H kpt hw =
     do {
       (state, tcb, frame_cptr, vspace_cptr) \<leftarrow> frame_setup arena H kpt hw;
       let vspace2_cptr = 4;
       state \<leftarrow> retype_for_test H state tcb 1 OT_VSpace vspace2_cptr;
       let vspace3_cptr = 5;
       state \<leftarrow> retype_for_test H state tcb 1 OT_VSpace vspace3_cptr;
       let frame1 = map_request H PERM_READ vspace_cptr 0x10000000;
       (state, frame1) \<leftarrow> unwrap (frame_invoke H state tcb frame_cptr frame1);
       let frame2 = map_request H PERM_READ vspace2_cptr 0x20000000;
       (state, frame2) \<leftarrow> unwrap (frame_invoke H state tcb frame_cptr frame2);
       (fid, _) \<leftarrow> held_frame state tcb frame_cptr;
       (vid, _) \<leftarrow> held_vspace state tcb vspace_cptr;
       (vid2, _) \<leftarrow> held_vspace state tcb vspace2_cptr;
       fr \<leftarrow> pool_get (ks_frames state) (frame_ix fid);
       assert_that (Some (vid, 0x10000000) \<in> set (fr_mapped_at fr));
       assert_that (Some (vid2, 0x20000000) \<in> set (fr_mapped_at fr));
       let frame3 = map_request H PERM_READ vspace3_cptr 0x30000000;
       assert_err IllegalOperation (frame_invoke H state tcb frame_cptr frame3);
       Some ()
     }"

definition map_rejects_a_misaligned_vaddr :: "usize \<Rightarrow> ('f, 'w::len word, 'h, 'p) kernel_test" where
  "map_rejects_a_misaligned_vaddr arena H kpt hw =
     do {
       (state, tcb, frame_cptr, vspace_cptr) \<leftarrow> frame_setup arena H kpt hw;
       let frame = map_request H PERM_READ vspace_cptr 0x10000123;
       assert_err AlignmentError (frame_invoke H state tcb frame_cptr frame);
       Some ()
     }"

text \<open>The closure \<open>map_and_unmap\<close>, and \<open>n\<close> rounds of it.\<close>

definition map_and_unmap ::
  "('f, 'w::len word, 'h, 'p) hal \<Rightarrow> tcb_id \<Rightarrow> cptr \<Rightarrow> cptr \<Rightarrow> ('w word, 'h) kernel_state
    \<Rightarrow> ('w word, 'h) kernel_state option" where
  "map_and_unmap H t frame_cptr vspace_cptr state =
     do {
       (state, _) \<leftarrow> unwrap (frame_invoke H state t frame_cptr (map_request H PERM_READ vspace_cptr 0x10000000));
       (state, _) \<leftarrow> unwrap (frame_invoke H state t frame_cptr (unmap_request H vspace_cptr));
       Some state
     }"

fun rounds :: "nat \<Rightarrow> ('s \<Rightarrow> 's option) \<Rightarrow> 's \<Rightarrow> 's option" where
  "rounds 0 f s = Some s"
| "rounds (Suc n) f s = Option.bind (f s) (rounds n f)"

definition repeated_mapping_consumes_no_page_tables_once_the_branches_exist ::
  "usize \<Rightarrow> ('f, 'w::len word, 'h, 'p) kernel_test" where
  "repeated_mapping_consumes_no_page_tables_once_the_branches_exist arena H kpt hw =
     do {
       (state, tcb, frame_cptr, vspace_cptr) \<leftarrow> frame_setup arena H kpt hw;
       state \<leftarrow> map_and_unmap H tcb frame_cptr vspace_cptr state;
       (before, k) \<leftarrow> kpt_alloc H (ks_page_tables state);
       let state = state\<lparr>ks_page_tables := k\<rparr>;
       state \<leftarrow> rounds (unat (4 * MAX_KERNEL_PAGE_TABLES)) (map_and_unmap H tcb frame_cptr vspace_cptr) state;
       (after, k) \<leftarrow> kpt_alloc H (ks_page_tables state);
       assert_that (after = before + h_page_size H)
     }"

section \<open>Unmap\<close>

definition unmap_clears_the_mapping :: "usize \<Rightarrow> ('f, 'w::len word, 'h, 'p) kernel_test" where
  "unmap_clears_the_mapping arena H kpt hw =
     do {
       (state, tcb, frame_cptr, vspace_cptr) \<leftarrow> frame_setup arena H kpt hw;
       (vid, _) \<leftarrow> held_vspace state tcb vspace_cptr;
       vspace \<leftarrow> pool_get (ks_vspaces state) (vspace_ix vid);
       let root = vs_root vspace;
       let vaddr = 0x10000000;
       (state, _) \<leftarrow> unwrap (frame_invoke H state tcb frame_cptr (map_request H PERM_READ vspace_cptr vaddr));
       (state, _) \<leftarrow> unwrap (frame_invoke H state tcb frame_cptr (unmap_request H vspace_cptr));
       (fid, _) \<leftarrow> held_frame state tcb frame_cptr;
       fr \<leftarrow> pool_get (ks_frames state) (frame_ix fid);
       assert_that (list_all (\<lambda>m. m = None) (fr_mapped_at fr));
       assert_that (h_translate H (ks_hw state) root vaddr = None)
     }"

definition unmapping_an_unmapped_frame_is_a_harmless_no_op ::
  "usize \<Rightarrow> ('f, 'w::len word, 'h, 'p) kernel_test" where
  "unmapping_an_unmapped_frame_is_a_harmless_no_op arena H kpt hw =
     do {
       (state, tcb, frame_cptr, vspace_cptr) \<leftarrow> frame_setup arena H kpt hw;
       unwrap (frame_invoke H state tcb frame_cptr (unmap_request H vspace_cptr));
       Some ()
     }"

definition unmap_only_clears_the_named_vspaces_mapping :: "usize \<Rightarrow> ('f, 'w::len word, 'h, 'p) kernel_test" where
  "unmap_only_clears_the_named_vspaces_mapping arena H kpt hw =
     do {
       (state, tcb, frame_cptr, vspace_cptr) \<leftarrow> frame_setup arena H kpt hw;
       let vspace2_cptr = 4;
       state \<leftarrow> retype_for_test H state tcb 1 OT_VSpace vspace2_cptr;
       let frame1 = map_request H PERM_READ vspace_cptr 0x10000000;
       (state, frame1) \<leftarrow> unwrap (frame_invoke H state tcb frame_cptr frame1);
       let frame2 = map_request H PERM_READ vspace2_cptr 0x20000000;
       (state, frame2) \<leftarrow> unwrap (frame_invoke H state tcb frame_cptr frame2);
       (state, _) \<leftarrow> unwrap (frame_invoke H state tcb frame_cptr (unmap_request H vspace_cptr));
       (fid, _) \<leftarrow> held_frame state tcb frame_cptr;
       (vid2, _) \<leftarrow> held_vspace state tcb vspace2_cptr;
       fr \<leftarrow> pool_get (ks_frames state) (frame_ix fid);
       assert_that (Some (vid2, 0x20000000) \<in> set (fr_mapped_at fr));
       assert_that (length (filter (\<lambda>m. m \<noteq> None) (fr_mapped_at fr)) = 1)
     }"

lemma frame_tests_pass:
  "map_then_translate_succeeds_and_marks_the_frame_mapped TEST_ARENA toy PAGE_TABLES toy_boot = Some ()"
  "map_rejects_a_frame_without_write_rights TEST_ARENA toy PAGE_TABLES toy_boot = Some ()"
  "map_rejects_a_second_mapping_into_the_same_vspace TEST_ARENA toy PAGE_TABLES toy_boot = Some ()"
  "map_allows_exactly_two_simultaneous_mappings_then_rejects_a_third TEST_ARENA toy PAGE_TABLES toy_boot = Some ()"
  "map_rejects_a_misaligned_vaddr TEST_ARENA toy PAGE_TABLES toy_boot = Some ()"
  "unmap_clears_the_mapping TEST_ARENA toy PAGE_TABLES toy_boot = Some ()"
  "unmapping_an_unmapped_frame_is_a_harmless_no_op TEST_ARENA toy PAGE_TABLES toy_boot = Some ()"
  "unmap_only_clears_the_named_vspaces_mapping TEST_ARENA toy PAGE_TABLES toy_boot = Some ()"
  by code_simp+

lemma repeated_mapping_test_passes:
  "repeated_mapping_consumes_no_page_tables_once_the_branches_exist TEST_ARENA toy PAGE_TABLES toy_boot = Some ()"
  by code_simp

end
