(* ===== verification/TestSyscall.thy ===== *)
theory TestSyscall
  imports TestKit
begin

text \<open>The unit tests of \<open>src/syscall.rs\<close>: whole sequences of traps through \<open>dispatch\<close>.\<close>

section \<open>Remote procedure calls\<close>

text \<open>\<open>SyscallNumber::X as usize\<close>, the discriminant.\<close>

fun syscall_as_usize :: "syscall_number \<Rightarrow> usize" where
  "syscall_as_usize SysSend = 1"
| "syscall_as_usize SysNBSend = 2"
| "syscall_as_usize SysRecv = 3"
| "syscall_as_usize SysCall = 4"
| "syscall_as_usize SysReply = 5"
| "syscall_as_usize SysSignal = 6"
| "syscall_as_usize SysWait = 7"
| "syscall_as_usize SysPoll = 8"
| "syscall_as_usize SysCNodeInvoke = 9"
| "syscall_as_usize SysUntypedRetype = 10"
| "syscall_as_usize SysTCBConfigure = 11"
| "syscall_as_usize SysYield = 12"
| "syscall_as_usize SysFrameInvoke = 13"

lemma syscall_number_roundtrip: "syscall_from_usize (syscall_as_usize n) = Some n"
  by (cases n) (simp_all add: syscall_from_usize_def)

text \<open>The set-up both call tests open with: the state, the client and the server.\<close>

definition rpc_setup ::
  "('f, 'w::len word, 'h, 'p) hal \<Rightarrow> usize \<Rightarrow> 'h
    \<Rightarrow> (('w word, 'h) kernel_state \<times> tcb_id \<times> tcb_id) option" where
  "rpc_setup H kpt hw =
     do {
       let state = kernel_state_new kpt hw;
       (ep_idx, state) \<leftarrow> alloc_endpoint state;
       let ep = EndpointCap (EndpointId (of_nat ep_idx)) 42 rights_ALL;
       (i, state) \<leftarrow> alloc_cnode state;
       let client_cnode = CNodeId (of_nat i);
       state \<leftarrow> put_cap state (cnode_ix client_cnode) 1 ep;
       (i, state) \<leftarrow> alloc_tcb H state;
       let client = TcbId (of_nat i);
       state \<leftarrow> edit_tcb state (tcb_ix client) (\<lambda>tcb. tcb\<lparr>tcb_cspace := Some client_cnode\<rparr>);
       (i, state) \<leftarrow> alloc_cnode state;
       let server_cnode = CNodeId (of_nat i);
       state \<leftarrow> put_cap state (cnode_ix server_cnode) 1 ep;
       (i, state) \<leftarrow> alloc_tcb H state;
       let server = TcbId (of_nat i);
       state \<leftarrow> edit_tcb state (tcb_ix server) (\<lambda>tcb. tcb\<lparr>tcb_cspace := Some server_cnode\<rparr>);
       Some (state, client, server)
     }"

definition full_call_recv_reply_round_trip :: "('f, 'w::len word, 'h, 'p) kernel_test" where
  "full_call_recv_reply_round_trip H kpt hw =
     do {
       (state, client, server) \<leftarrow> rpc_setup H kpt hw;
       let state = make_ready state client;
       let state = set_current state (Some server);
       let frame = h_zeroed H;
       let frame = h_set_syscall_number H frame (syscall_as_usize SysRecv);
       let frame = h_set_mr H frame 0 1;
       (state, frame) \<leftarrow> dispatch H state frame;
       assert_that (current_of state = Some client);
       let frame = h_zeroed H;
       let frame = h_set_syscall_number H frame (syscall_as_usize SysCall);
       let frame = h_set_mr H frame 0 1;
       let frame = h_set_mr H frame 1 111;
       (state, frame) \<leftarrow> dispatch H state frame;
       assert_that (current_of state = Some server);
       assert_that (h_mr H frame 0 = 42);
       assert_that (h_mr H frame 1 = 111);
       assert_that (\<not> tag_is_error H (h_tag H frame));
       let frame = h_zeroed H;
       let frame = h_set_syscall_number H frame (syscall_as_usize SysReply);
       let frame = h_set_mr H frame 1 222;
       (state, frame) \<leftarrow> dispatch H state frame;
       assert_that (current_of state = Some client);
       assert_that (h_mr H frame 1 = 222);
       assert_that (\<not> tag_is_error H (h_tag H frame))
     }"

text \<open>The body of \<open>for i in 0..3u32\<close>, over the list of the remaining \<open>i\<close>.\<close>

fun round_trips ::
  "('f, 'w::len word, 'h, 'p) hal \<Rightarrow> ('w word, 'h) kernel_state \<Rightarrow> tcb_id \<Rightarrow> tcb_id \<Rightarrow> u32 list
    \<Rightarrow> unit option" where
  "round_trips H state client server [] = Some ()"
| "round_trips H state client server (i # is) =
     do {
       let frame = h_zeroed H;
       let frame = h_set_syscall_number H frame (syscall_as_usize SysCall);
       let frame = h_set_mr H frame 0 1;
       let frame = h_set_mr H frame 1 (111 + ucast i);
       (state, frame) \<leftarrow> dispatch H state frame;
       assert_that (current_of state = Some server);
       assert_that (\<not> tag_is_error H (h_tag H frame));
       let frame = h_zeroed H;
       let frame = h_set_syscall_number H frame (syscall_as_usize SysRecv);
       let frame = h_set_mr H frame 0 1;
       (state, frame) \<leftarrow> dispatch H state frame;
       assert_that (h_mr H frame 1 = 111 + ucast i);
       let frame = h_zeroed H;
       let frame = h_set_syscall_number H frame (syscall_as_usize SysReply);
       let frame = h_set_mr H frame 1 (222 + ucast i);
       (state, frame) \<leftarrow> dispatch H state frame;
       assert_that (current_of state = Some client);
       assert_that (h_mr H frame 1 = 222 + ucast i);
       round_trips H state client server is
     }"

definition two_call_reply_round_trips_in_a_row_client_runs_first ::
  "('f, 'w::len word, 'h, 'p) kernel_test" where
  "two_call_reply_round_trips_in_a_row_client_runs_first H kpt hw =
     do {
       (state, client, server) \<leftarrow> rpc_setup H kpt hw;
       let state = make_ready state server;
       let state = set_current state (Some client);
       round_trips H state client server [0, 1, 2]
     }"

section \<open>Errors and Yield\<close>

definition unknown_syscall_number_returns_a_defined_error_not_a_panic ::
  "('f, 'w::len word, 'h, 'p) kernel_test" where
  "unknown_syscall_number_returns_a_defined_error_not_a_panic H kpt hw =
     do {
       let state = kernel_state_new kpt hw;
       (i, state) \<leftarrow> alloc_tcb H state;
       let t = TcbId (of_nat i);
       let state = make_ready state t;
       let state = set_current state (Some t);
       let frame = h_zeroed H;
       let frame = h_set_syscall_number H frame 999;
       (state, frame) \<leftarrow> dispatch H state frame;
       assert_that (tag_is_error H (h_tag H frame));
       assert_that (h_mr H frame 0 = error_code IllegalOperation)
     }"

definition invalid_capability_returns_an_error_and_current_thread_keeps_running ::
  "('f, 'w::len word, 'h, 'p) kernel_test" where
  "invalid_capability_returns_an_error_and_current_thread_keeps_running H kpt hw =
     do {
       let state = kernel_state_new kpt hw;
       (i, state) \<leftarrow> alloc_cnode state;
       let cnode = CNodeId (of_nat i);
       (i, state) \<leftarrow> alloc_tcb H state;
       let t = TcbId (of_nat i);
       state \<leftarrow> edit_tcb state (tcb_ix t) (\<lambda>tcb. tcb\<lparr>tcb_cspace := Some cnode\<rparr>);
       let state = make_ready state t;
       let state = set_current state (Some t);
       let frame = h_zeroed H;
       let frame = h_set_syscall_number H frame (syscall_as_usize SysSend);
       let frame = h_set_mr H frame 0 0;
       (state, frame) \<leftarrow> dispatch H state frame;
       assert_that (current_of state = Some t);
       assert_that (tag_is_error H (h_tag H frame));
       assert_that (h_mr H frame 0 = error_code InvalidCapability)
     }"

definition yield_with_nothing_else_ready_resumes_the_same_thread :: "('f, 'w::len word, 'h, 'p) kernel_test" where
  "yield_with_nothing_else_ready_resumes_the_same_thread H kpt hw =
     do {
       let state = kernel_state_new kpt hw;
       (i, state) \<leftarrow> alloc_tcb H state;
       let t = TcbId (of_nat i);
       let state = make_ready state t;
       let state = set_current state (Some t);
       let frame = h_zeroed H;
       let frame = h_set_syscall_number H frame (syscall_as_usize SysYield);
       (state, frame) \<leftarrow> dispatch H state frame;
       assert_that (current_of state = Some t);
       assert_that (\<not> tag_is_error H (h_tag H frame))
     }"

lemma syscall_tests_pass:
  "full_call_recv_reply_round_trip toy PAGE_TABLES toy_boot = Some ()"
  "two_call_reply_round_trips_in_a_row_client_runs_first toy PAGE_TABLES toy_boot = Some ()"
  "unknown_syscall_number_returns_a_defined_error_not_a_panic toy PAGE_TABLES toy_boot = Some ()"
  "invalid_capability_returns_an_error_and_current_thread_keeps_running toy PAGE_TABLES toy_boot = Some ()"
  "yield_with_nothing_else_ready_resumes_the_same_thread toy PAGE_TABLES toy_boot = Some ()"
  by code_simp+

end
