(* ===== verification/Spec2Isabelle.thy ===== *)
theory Spec2Isabelle
  imports IpcProps CapProps Isolation TestObjects TestIpc TestCNode TestFrame TestSyscall
begin

text \<open>
  A model of the LanternOS microkernel (\<open>src/src/*.rs\<close>, Rust) and the properties that make it
  correct. The kernel is a single-hart, run-to-completion machine: user code traps with a system
  call number, a message tag and four message registers, \<open>dispatch\<close> runs one handler to its
  end over the one \<open>KernelState\<close>, and the trap returns to whichever thread is then current.
  The model is that transition, \<open>dispatch :: hal \<Rightarrow> state \<Rightarrow> frame \<Rightarrow> (state \<times> frame) option\<close>; its
  value \<open>None\<close> is a kernel panic (\<open>expect\<close>, \<open>unreachable!\<close>, a failed \<open>debug_assert!\<close>, an index
  out of bounds, arithmetic overflow with overflow checks on).

  \<^bold>\<open>Program and model.\<close>
  \<^item> \<open>Prelude\<close>: \<open>error.rs\<close> (\<open>SyscallError\<close> and its codes), \<open>limits.rs\<close>, machine integers as
    \<open>8/16/32/64 word\<close>, \<open>usize\<close> as \<open>64 word\<close>; how a handler ends (\<open>Ok\<close>, \<open>Err\<close>, \<open>Panic\<close>, the first
    two with the state and registers, since a handler may have written both before it returns).
  \<^item> \<open>Queue\<close>: \<open>queue.rs\<close>. The ring buffer as it is stored, \<open>remove\<close>'s in-place loop included; the
    locale \<open>fifo\<close> is the contract of its clients.
  \<^item> \<open>Pool\<close>: \<open>pool.rs\<close>. The fixed arrays behind every kind of object; locale \<open>object_pool\<close>.
  \<^item> \<open>Cap\<close>: \<open>cap.rs\<close>. Identifiers (16-bit indices), rights (8-bit sets), object types,
    capabilities, the flat CNode.
  \<^item> \<open>Hal\<close>: \<open>abi.rs\<close>, and the seam to \<open>lantern_hal\<close>, which is not in this repository: one field of
    the record \<open>hal\<close> per function the kernel calls. \<open>frame_laws\<close> and \<open>paging_laws\<close> name what the
    kernel relies on; locale \<open>message_registers\<close>.
  \<^item> \<open>Object\<close>: \<open>object.rs\<close>. Saved contexts, TCBs, endpoints, notifications, Untypeds with their
    bump allocation, Frames, VSpaces, the kernel's page-table arena; locale \<open>bump_allocator\<close>.
  \<^item> \<open>State\<close>: \<open>state.rs\<close>, \<open>scheduler.rs\<close>. \<open>KernelState\<close> and its operations.
  \<^item> \<open>Ipc\<close>: \<open>ipc.rs\<close>; \<open>CNodeInvoke\<close>: \<open>cnode.rs\<close>; \<open>Admin\<close>: \<open>admin.rs\<close>; \<open>FrameInvoke\<close>: \<open>frame.rs\<close>;
    \<open>Syscall\<close>: \<open>syscall.rs\<close> and the entry points of \<open>lib.rs\<close>. One definition per handler, with its
    checks in the source's order.

  \<^bold>\<open>Specifications and lemmas.\<close>
  \<^item> \<open>Threads\<close>: the abstract thread machine, a view of the state (thread states, reply links,
    queues, pending signals, the running thread) with the steps one system call can make
    (\<open>tstep\<close>) and the invariant they keep (\<open>threads_ok\<close>).
  \<^item> \<open>Invariant\<close>: well-formedness of the concrete state, capabilities stored and in flight, no
    dangling capability (\<open>kernel_inv\<close>); \<open>Scheduling\<close>, \<open>IpcCorrect\<close>, \<open>CNodeCorrect\<close>, \<open>AdminCorrect\<close>,
    \<open>FrameCorrect\<close>: each handler keeps the invariant, is one \<open>tstep\<close> on the view, conserves
    authority, and leaves the state alone when it fails; \<open>Refine\<close> puts this together for
    \<open>dispatch\<close> and for the reachable states.
  \<^item> \<open>IpcSpec\<close>, \<open>System\<close>, \<open>Confine\<close>, \<open>Retype\<close>: registers across a switch, authority over runs of
    traps, what a retype creates for each object type (\<open>created\<close>), the two ways a trap fails
    (\<open>trap_fails\<close>), what a trap may change of other threads and of capability slots.
  \<^item> \<open>Behaviour\<close>, \<open>Notify\<close>, \<open>Memory\<close>, \<open>FrameMemory\<close>: what each operation delivers, signals over
    runs, translations, and where physical memory comes from.
  \<^item> \<open>Budget\<close>: objects and budgets add up over runs; \<open>Paging\<close>: which traps touch the hardware's page
    tables, and with what authority; \<open>Typing\<close>: scheduling contexts, root page tables and recorded
    mappings name objects that exist; \<open>Integrity\<close>: which objects a caller may change (\<open>may_touch\<close>)
    and that every handler keeps to them; \<open>Atomic\<close>: what a failed call leaves behind;
    \<open>Compartment\<close>: closed sets of objects, and that traps keep two of them apart.
  \<^item> \<open>Instance\<close>: a concrete HAL that satisfies the laws and small systems with the invariant, on
    which every property with hypotheses is applied.

  \<^item> \<open>TestKit\<close>, \<open>TestObjects\<close>, \<open>TestIpc\<close>, \<open>TestCNode\<close>, \<open>TestAdmin\<close>, \<open>TestFrame\<close>, \<open>TestSyscall\<close>: the
    unit tests at the end of each source file, one definition per test function in the order of
    its statements, with the HAL and the addresses of the test's buffers as parameters. A test is
    an \<open>option\<close> program, \<open>None\<close> where an assertion fails or an \<open>unwrap\<close> meets nothing; the lemmas
    \<open>*_tests_pass\<close> evaluate all 65 on the machine of \<open>Instance\<close>, so the model agrees with the
    code wherever the authors wrote down what they expect of it.

  \<^bold>\<open>Properties.\<close> This theory has those of the kernel as a whole: no panics and the invariant on
  reachable states, refinement of the thread machine, authority, isolation, page tables, queues
  and scheduling, references, errors. \<open>IpcProps\<close> has those of endpoints and notifications, \<open>CapProps\<close> those of
  CNodes, retypes, address spaces and thread configuration, \<open>Isolation\<close> that of compartments
  over whole runs, on a system with two of them, \<open>Queue\<close> the equivalence of the ring buffer with a
  list.

  \<^bold>\<open>Where the code is not what it means to be.\<close> The model follows the code, and the properties say
  what it does: a retype into a full pool keeps the memory it took; the slot number a \<open>Call\<close>
  registers for the reply reaches a receiver that comes later, which the comments of \<open>ipc.rs\<close>
  rule out; \<open>Send\<close>, \<open>Call\<close> and \<open>Reply\<close> pass the sender's error flag on; \<open>Yield\<close> clears that flag in
  the wrong thread's tag.

  \<^bold>\<open>Bounds.\<close> Loops of the source run over fixed arrays and are structural recursion here; no
  definition needs fuel. The capacities of \<open>limits.rs\<close> are used where the code depends on them:
  the ready queue and every wait queue hold \<open>MAX_TCBS\<close> entries, and since a thread waits at most
  once, \<open>push_back\<close> on them never fails in a reachable state; the length check that the source
  ignores in \<open>make_ready\<close> is therefore sound. Page-table spares are at most two per mapping, which
  is the HAL's law on its walks.

  \<^bold>\<open>Not modelled.\<close> The static cell that holds the kernel state and \<open>kernel_state()\<close> (unsafe access
  to the one instance; the state is passed explicitly); \<open>enter_thread\<close>, which does not return;
  the contents of the page-table bytes (part of the HAL's hardware state \<open>'h\<close>); the trap assembly
  and the walks of \<open>lantern_hal\<close>; the \<open>Default\<close> instances, which repeat \<open>new\<close>.
\<close>

section \<open>Safety and refinement\<close>

text \<open>
  C1. The kernel never panics: from a state with the invariant every trap, whatever the
  registers user code left, returns, and the invariant holds again. No \<open>expect\<close>,
  \<open>unreachable!\<close>, \<open>debug_assert!\<close>, index or checked arithmetic of any handler fails.
\<close>

theorem dispatch_never_panics:
  assumes "frame_laws H" and "paging_laws H" and "kernel_inv s"
  shows "\<exists>s' f'. dispatch H s f = Some (s', f') \<and> kernel_inv s'"
  by (rule dispatch_inv [OF assms])

theorem dispatch_never_panics_witness:
  "\<exists>s' f'. dispatch toy (demo (BlockedRecv (EndpointId 0) None)) (regs 1 0 0 1 11 12 13) = Some (s', f') \<and> kernel_inv s'"
  using dispatch_never_panics [OF toy_laws demo_inv [of "BlockedRecv (EndpointId 0) None"]] by simp

text \<open>
  C2. Any run of traps, each with any registers, from any state that user code can reach after
  the first thread was entered: no panic, and a thread is running at the end.
\<close>

theorem reachable_runs:
  assumes laws: "frame_laws H" "paging_laws H" and "reachable H s"
  shows "\<exists>s'. run_traps H s fs = Some s' \<and> kernel_inv s' \<and> current_of s' \<noteq> None"
  using assms(3)
proof (induction fs arbitrary: s)
  case Nil
  with reachable_inv [OF laws Nil] show ?case by simp
next
  case (Cons f fs)
  obtain s1 f1 where "dispatch H s f = Some (s1, f1)"
    using dispatch_inv [OF laws, of s f] reachable_inv [OF laws Cons.prems] by blast
  with Cons.IH [of s1] reachable.Trap [OF Cons.prems] show ?case by simp
qed

theorem reachable_runs_witness:
  "\<exists>s'. run_traps toy (demo_started Ready) [regs 12 0 0 0 0 0 0, regs 4 0 0 1 11 12 13] = Some s' \<and> current_of s' \<noteq> None"
proof -
  have "reachable toy (demo_started Ready)" by (rule demo_reachable) simp
  from reachable_runs [OF toy_laws this] show ?thesis by blast
qed

text \<open>
  C3. Refinement: every trap is one step of the abstract thread machine (or none), on the view
  of the state given by \<open>threads_of\<close>.
\<close>

theorem dispatch_refines_threads:
  assumes "frame_laws H" and "paging_laws H" and "kernel_inv s" and d: "dispatch H s f = Some (s', f')"
  shows "threads_of s' = threads_of s \<or> (\<exists>c. current_of s = Some c \<and> tstep c (threads_of s) (threads_of s'))"
  by (rule dispatch_step [OF assms])

theorem dispatch_refines_threads_witness:
  "\<exists>s' f'. dispatch toy (demo Ready) (regs 12 0 0 0 0 0 0) = Some (s', f')
     \<and> (threads_of s' = threads_of (demo Ready) \<or> tstep (TcbId 0) (threads_of (demo Ready)) (threads_of s'))"
proof -
  obtain s' f' where d: "dispatch toy (demo Ready) (regs 12 0 0 0 0 0 0) = Some (s', f')"
    by (rule demo_dispatch [of Ready]) simp
  with dispatch_refines_threads [OF toy_laws demo_inv [of Ready] d] show ?thesis by auto
qed

section \<open>Authority\<close>

text \<open>
  C4. Authority is conserved over any run of traps: every capability at the end, stored or in
  flight, is a capability that existed at the start with no more rights, or names an object
  created since; and a thread's CSpace is one some thread had, one a CNode capability named, or
  a CNode created since. No sequence of system calls amplifies authority. Badges are not
  compared: what \<open>Mint\<close> does to a badge is stated for \<open>Mint\<close> itself.
\<close>

theorem authority_conserved:
  assumes "frame_laws H" and "paging_laws H" and "kernel_inv s" and "run_traps H s fs = Some s'"
  shows "(\<forall>c\<in>caps_of s'. (\<exists>c0\<in>caps_of s. cap_le c c0)
            \<or> (\<exists>r. cap_object c = Some r \<and> \<not> object_exists s r \<and> object_exists s' r))
       \<and> (\<forall>i\<in>cspaces s'. i \<in> cspaces s \<or> CNodeCap i \<in> caps_of s \<or> \<not> object_exists s (RCNode i))"
  using run_traps_authority [OF assms(1-3) authority_run_refl assms(4)]
  by (simp add: authority_run_def derived_def)

theorem authority_conserved_witness:
  "\<exists>s'. run_traps toy (demo Ready) [regs 9 1 0 6 1 20 1795] = Some s'
     \<and> (\<forall>c\<in>caps_of s'. (\<exists>c0\<in>caps_of (demo Ready). cap_le c c0)
            \<or> (\<exists>r. cap_object c = Some r \<and> \<not> object_exists (demo Ready) r \<and> object_exists s' r))"
proof -
  have inv: "kernel_inv (demo Ready)" by (rule demo_inv) simp
  obtain s' where run: "run_traps toy (demo Ready) [regs 9 1 0 6 1 20 1795] = Some s'"
    using run_traps_inv [OF toy_laws inv] by blast
  from authority_conserved [OF toy_laws inv run] run show ?thesis by blast
qed

text \<open>
  C5. Designation is authority. Whatever system call a thread makes, an object changes only if
  the caller may touch it: through a capability in its own CSpace with the right for it (a CNode,
  an endpoint, a notification, an Untyped, a Frame, a thread), because it is the caller or the
  caller's own CSpace, or because it is a thread, or that thread's CSpace, that waits for a
  rendezvous the caller can complete. Any other thread is exactly as it was, but for the one
  that runs next, which is marked running; and new objects appear only if the caller holds an
  Untyped with the right to write.
\<close>

theorem designation_is_authority:
  assumes laws: "frame_laws H" "paging_laws H" and inv: "kernel_inv s" and cur: "current_of s = Some c"
    and d: "dispatch H s f = Some (s', f')"
  shows "(\<forall>r. \<not> may_touch s c r \<longrightarrow> object_kept s s' r)
     \<and> (\<forall>t x. get_tcb s t = Some x \<and> \<not> may_touch s c (RTcb t) \<longrightarrow>
          get_tcb s' t = Some x \<or> get_tcb s' t = Some (x\<lparr>tcb_state := Running\<rparr>) \<and> current_of s' = Some t)
     \<and> (\<forall>r. object_exists s' r \<and> \<not> object_exists s r \<longrightarrow> may_create s c)"
proof -
  have conf: "confined s c s'" by (rule dispatch_confined [OF inv cur d])
  have "kernel_inv s'" using dispatch_inv [OF laws inv, of f] d by auto
  then have one: "one_running (threads_of s')" by (simp add: kernel_inv_def threads_ok_def)
  have "get_tcb s' t = Some x \<or> get_tcb s' t = Some (x\<lparr>tcb_state := Running\<rparr>) \<and> current_of s' = Some t"
    if "get_tcb s t = Some x" "\<not> may_touch s c (RTcb t)" for t x
  proof -
    have "object_kept s s' (RTcb t)" using conf that(2) unfolding confined_def by blast
    then have "get_tcb s' t = Some x \<or> get_tcb s' t = Some (x\<lparr>tcb_state := Running\<rparr>)"
      using that(1) by (simp add: thread_kept_def)
    moreover have "current_of s' = Some t" if "get_tcb s' t = Some (x\<lparr>tcb_state := Running\<rparr>)"
      using one that by (auto simp: one_running_def dest!: spec [of _ t])
    ultimately show ?thesis by blast
  qed
  with conf show ?thesis unfolding confined_def by blast
qed

theorem designation_is_authority_witness:
  "\<exists>s' f'. dispatch toy (demo (BlockedRecv (EndpointId 0) None)) (regs 1 0 0 1 11 12 13) = Some (s', f')
     \<and> (\<forall>r. \<not> may_touch (demo (BlockedRecv (EndpointId 0) None)) (TcbId 0) r
          \<longrightarrow> object_kept (demo (BlockedRecv (EndpointId 0) None)) s' r)
     \<and> \<not> may_touch (demo (BlockedRecv (EndpointId 0) None)) (TcbId 0) (RVSpace (VSpaceId 0))"
proof -
  let ?s = "demo (BlockedRecv (EndpointId 0) None)"
  obtain s' f' where d: "dispatch toy ?s (regs 1 0 0 1 11 12 13) = Some (s', f')"
    by (rule demo_dispatch [of "BlockedRecv (EndpointId 0) None"]) simp
  have inv: "kernel_inv ?s" by (rule demo_inv) simp
  from designation_is_authority [OF toy_laws inv demo_current d] d show ?thesis by auto
qed

text \<open>
  C7. No trap overwrites or erases a capability, in any CNode, unless it is \<open>CNodeInvoke\<close> with
  \<open>Move\<close> or \<open>Delete\<close>: transfers, mints, copies and retypes only fill empty slots.
\<close>

theorem slots_not_overwritten:
  assumes "frame_laws H" and "paging_laws H" and "kernel_inv s" and "current_of s = Some c"
    and "dispatch H s f = Some (s', f')"
    and "h_syscall_number H f = 9 \<Longrightarrow> tag_label (h_tag H f) \<noteq> LABEL_MOVE \<and> tag_label (h_tag H f) \<noteq> LABEL_DELETE"
    and "slot_cap s i j = Some k" and "k \<noteq> Null"
  shows "slot_cap s' i j = Some k"
  using dispatch_slots [OF assms(1-6)] assms(7,8) by (simp add: slots_kept_def)

theorem slots_not_overwritten_witness:
  "\<exists>s' f'. dispatch toy (demo Ready) (regs 9 1 0 6 1 2 1795) = Some (s', f')
     \<and> slot_cap s' (CNodeId 0) 2 = Some (NotificationCap (NotificationId 0) 5 rights_ALL)"
proof -
  obtain s' f' where d: "dispatch toy (demo Ready) (regs 9 1 0 6 1 2 1795) = Some (s', f')"
    by (rule demo_dispatch [of Ready]) simp
  have "slot_cap (demo Ready) (CNodeId 0) 2 = Some (NotificationCap (NotificationId 0) 5 rights_ALL)"
    by (simp add: demo_slot_cap demo_cnode_def cnode_get_def)
  with slots_not_overwritten [OF toy_laws demo_inv [of Ready] _ d] d show ?thesis
    by (simp add: toy_def regs_def LABEL_MOVE_def LABEL_DELETE_def)
qed

text \<open>
  C8. A capability moves over IPC only with the right to grant it: a slot that an IPC system call
  fills was empty, the capability in it carries \<open>GRANT\<close>, and every capability then in flight
  was sent with it too.
\<close>

theorem transfer_needs_grant:
  assumes "frame_laws H" and "paging_laws H" and "kernel_inv s" and "current_of s = Some c"
    and "dispatch H s f = Some (s', f')" and "granted s"
    and "syscall_from_usize (h_syscall_number H f) = Some n" and "is_ipc n"
  shows "granted s' \<and> (\<forall>i j. slot_cap s' i j \<noteq> slot_cap s i j \<longrightarrow>
     (\<exists>k. slot_cap s' i j = Some k \<and> contains (cap_rights k) rights_GRANT \<and> slot_cap s i j = Some Null))"
  using dispatch_granted [OF assms(1-6)] dispatch_transfer [OF assms] by blast

theorem transfer_needs_grant_witness:
  "\<exists>s' f' k. dispatch toy (demo (BlockedRecv (EndpointId 0) (Some 20))) (regs 1 0 1 1 2 12 13) = Some (s', f')
     \<and> slot_cap s' (CNodeId 0) 20 = Some k \<and> contains (cap_rights k) rights_GRANT"
proof -
  let ?s = "demo (BlockedRecv (EndpointId 0) (Some 20))"
  obtain s' f' where d: "dispatch toy ?s (regs 1 0 1 1 2 12 13) = Some (s', f')"
    and k: "slot_cap s' (CNodeId 0) 20 = Some (NotificationCap (NotificationId 0) 5 rights_ALL)"
    using demo_transfer by blast
  have inv: "kernel_inv ?s" by (rule demo_inv) simp
  have g: "granted ?s" unfolding granted_def by (auto simp only: demo_get_tcb) (auto simp: demo_tcb_def split: if_splits)
  have n: "syscall_from_usize (h_syscall_number toy (regs 1 0 1 1 2 12 13)) = Some SysSend" "is_ipc SysSend"
    by (simp_all add: toy_def regs_def syscall_from_usize_def)
  have "slot_cap ?s (CNodeId 0) 20 = Some Null"
    by (simp add: demo_slot_cap demo_cnode_def cnode_get_def CNODE_SLOTS_def)
  then have "slot_cap s' (CNodeId 0) 20 \<noteq> slot_cap ?s (CNodeId 0) 20" using k by simp
  with transfer_needs_grant [OF toy_laws inv demo_current d g n] d show ?thesis by blast
qed

section \<open>Isolation\<close>

text \<open>
  C9. A trap leaves the raw register words (program counter, stack pointer, callee-saved
  registers) and the syscall number saved for every thread other than the running one exactly
  as they were: a message reaches a waiting thread only through its message registers and tag.
\<close>

theorem registers_isolated:
  assumes "frame_laws H" and "paging_laws H" and "kernel_inv s" and "current_of s = Some c"
    and "dispatch H s f = Some (s', f')" and "t \<noteq> c" and "get_tcb s t = Some x"
  shows "\<exists>y. get_tcb s' t = Some y \<and> ctx_raw (tcb_context y) = ctx_raw (tcb_context x)
     \<and> ctx_syscall_num (tcb_context y) = ctx_syscall_num (tcb_context x)"
  using dispatch_same_raw [OF assms] by (simp add: same_raw_def)

theorem registers_isolated_witness:
  "\<exists>s' f' y. dispatch toy (demo (BlockedRecv (EndpointId 0) None)) (regs 4 0 0 1 11 12 13) = Some (s', f')
     \<and> get_tcb s' (TcbId 1) = Some y \<and> ctx_raw (tcb_context y) = replicate 32 0"
proof -
  let ?s = "demo (BlockedRecv (EndpointId 0) None)"
  obtain s' f' where d: "dispatch toy ?s (regs 4 0 0 1 11 12 13) = Some (s', f')"
    by (rule demo_dispatch [of "BlockedRecv (EndpointId 0) None"]) simp
  have t: "get_tcb ?s (TcbId 1) = Some (demo_tcb (BlockedRecv (EndpointId 0) None) None)"
    by (simp only: demo_get_tcb) simp
  from registers_isolated [OF toy_laws demo_inv demo_current d _ t] d show ?thesis
    by (auto simp: demo_tcb_def context_zeroed_def RAW_WORDS_def)
qed

text \<open>
  C10. The context switch: when a trap makes another thread run, the old thread's registers were
  saved exactly as they were at the trap, tag included, and the registers at the return are those
  saved for the new thread (tag, message registers and all 32 raw words), with its address space,
  if it has one, the active one. Only after \<open>Yield\<close> does the tag differ: the error flag of the
  thread that runs next is cleared, while the yielding thread's saved tag keeps its own.
\<close>

theorem switch_restores_registers:
  assumes "frame_laws H" and "paging_laws H" and "kernel_inv s" and "current_of s = Some c"
    and "dispatch H s f = Some (s', f')" and "current_of s' = Some u" and "u \<noteq> c"
  shows "\<exists>y z. get_tcb s' c = Some y \<and> tcb_context y = save_from H f \<and> get_tcb s' u = Some z
     \<and> (\<forall>i<4. h_mr H f' i = ctx_mr (tcb_context z) i)
     \<and> (\<forall>k<RAW_WORDS. h_raw_word H f' k = ctx_raw (tcb_context z) ! k)
     \<and> (\<forall>root. tcb_address_space z = Some root \<longrightarrow> h_active H (ks_hw s') = Some root)
     \<and> h_tag H f' = (let tag = ctx_tag (tcb_context z) in if h_syscall_number H f = 12
          then tag\<lparr>tag_flags := tag_flags tag AND NOT (h_flag_error H)\<rparr> else tag)"
  using dispatch_switch [OF assms] by blast

theorem switch_restores_registers_witness:
  "\<exists>s' f' y. dispatch toy (demo Ready) (regs 12 0 0 0 5 6 7) = Some (s', f')
     \<and> get_tcb s' (TcbId 0) = Some y \<and> tcb_context y = save_from toy (regs 12 0 0 0 5 6 7)"
proof -
  obtain s' f' where d: "dispatch toy (demo Ready) (regs 12 0 0 0 5 6 7) = Some (s', f')" "current_of s' = Some (TcbId 1)"
    using demo_yield by blast
  have inv: "kernel_inv (demo Ready)" by (rule demo_inv) simp
  from switch_restores_registers [OF toy_laws inv demo_current d] d show ?thesis by auto
qed

text \<open>
  C11. Only the holder of the capabilities changes translations. A trap leaves the hardware's
  page tables as they are, or activates the root page table of the thread that runs afterwards,
  or maps or unmaps one page of a Frame in a VSpace, and then the caller's CSpace has
  capabilities to both with the right to write; a page is mapped only where nothing was, aligned
  to the Frame's size and to the Frame's own memory, and unmapped only where the Frame recorded it.
\<close>

theorem hardware_needs_authority:
  assumes "current_of s = Some c" and "dispatch H s f = Some (s', f')"
  shows "ks_hw s' = ks_hw s \<or> activated H s s' \<or> remapped H s c s'"
  using dispatch_hw [OF assms] by (simp add: hw_step_def)

theorem hardware_needs_authority_witness:
  "\<exists>s' f'. dispatch toy (demo Ready) (regs 13 1 0 5 4 65536 3) = Some (s', f')
     \<and> (ks_hw s' = ks_hw (demo Ready) \<or> activated toy (demo Ready) s' \<or> remapped toy (demo Ready) (TcbId 0) s')"
proof -
  obtain s' f' where d: "dispatch toy (demo Ready) (regs 13 1 0 5 4 65536 3) = Some (s', f')"
    by (rule demo_dispatch [of Ready]) simp
  with hardware_needs_authority [OF demo_current d] show ?thesis by blast
qed

section \<open>Threads and queues\<close>

text \<open>
  C12. Scheduling states are exact: in every reachable state a thread occurs once in the queue its
  state names (ready queue, an endpoint's senders or receivers, a notification's waiters) and in
  no other, and exactly one thread is \<open>Running\<close>, the one the scheduler calls current.
\<close>

theorem waits_exactly_once:
  assumes "frame_laws H" and "paging_laws H" and "reachable H s"
  shows "count_list (wait_list s p) t
      = (if Option.bind (map_option tcb_state (get_tcb s t)) place_of = Some p then 1 else 0)
    \<and> (\<exists>c. current_of s = Some c \<and> (\<forall>u. map_option tcb_state (get_tcb s u) = Some Running \<longleftrightarrow> u = c))"
proof (rule conjI)
  show "count_list (wait_list s p) t
      = (if Option.bind (map_option tcb_state (get_tcb s t)) place_of = Some p then 1 else 0)"
    using queued_count [OF reachable_threads(1) [OF assms], of p t] by simp
  show "\<exists>c. current_of s = Some c \<and> (\<forall>u. map_option tcb_state (get_tcb s u) = Some Running \<longleftrightarrow> u = c)"
    using reachable_inv [OF assms] reachable_threads(2) [OF assms] by (auto simp: one_running_def)
qed

theorem waits_exactly_once_witness:
  "count_list (wait_list (demo_started Ready) PReady) (TcbId 1) = 1
   \<and> (\<exists>c. current_of (demo_started Ready) = Some c \<and> map_option tcb_state (get_tcb (demo_started Ready) c) = Some Running)"
proof -
  have r: "reachable toy (demo_started Ready)" by (rule demo_reachable) simp
  note W = waits_exactly_once [OF toy_laws r, of PReady "TcbId 1"]
  have "Option.bind (map_option tcb_state (get_tcb (demo_started Ready) (TcbId 1))) place_of = Some PReady"
    by (subst demo_started_state(1)) simp_all
  with W have "count_list (wait_list (demo_started Ready) PReady) (TcbId 1) = 1" by (simp only: if_True simp_thms)
  with W show ?thesis by blast
qed

text \<open>
  C13. References keep their types. If at the start every scheduling context and root page table
  of a thread and every address space a Frame records exist, as in the empty kernel, then after
  any run of traps every reference in the kernel names an existing object of its kind:
  capabilities stored or in flight, CSpaces, reply links, queued threads, the running thread,
  scheduling contexts, root page tables and recorded mappings.
\<close>

theorem references_resolve:
  assumes "frame_laws H" and "paging_laws H" and "kernel_inv s" and "links_ok s" and "run_traps H s fs = Some s'"
  shows "(\<forall>k\<in>caps_of s'. \<forall>r. cap_object k = Some r \<longrightarrow> object_exists s' r)
     \<and> (\<forall>t x. get_tcb s' t = Some x \<longrightarrow> tcb_links_ok s' x
          \<and> (\<forall>i. tcb_cspace x = Some i \<longrightarrow> object_exists s' (RCNode i))
          \<and> (\<forall>u. tcb_reply_to x = Some u \<longrightarrow> object_exists s' (RTcb u)))
     \<and> (\<forall>i fr. pool_get (ks_frames s') i = Some fr \<longrightarrow> frame_links_ok s' fr)
     \<and> (\<forall>p t. t \<in> set (wait_list s' p) \<longrightarrow> object_exists s' (RTcb t))
     \<and> (\<forall>t. current_of s' = Some t \<longrightarrow> object_exists s' (RTcb t))"
proof -
  have inv: "kernel_inv s'" and links: "links_ok s'" using run_traps_links [OF assms] by simp_all
  then have "no_dangling s'" and th: "queued_once (threads_of s')" "one_running (threads_of s')" "replies_ok (threads_of s')"
    by (simp_all add: kernel_inv_def threads_ok_def)
  then have caps: "\<forall>k\<in>caps_of s'. \<forall>r. cap_object k = Some r \<longrightarrow> object_exists s' r"
    and spaces: "\<forall>i\<in>cspaces s'. object_exists s' (RCNode i)" by (simp_all add: no_dangling_def)
  have "object_exists s' (RTcb t)" if "t \<in> set (wait_list s' p)" for p t
    using queued_place [OF th(1), of t p] that by auto
  moreover have "object_exists s' (RTcb t)" if "current_of s' = Some t" for t
    using th(2) that by (auto simp: one_running_def)
  moreover have "object_exists s' (RTcb u)" if "get_tcb s' t = Some x" "tcb_reply_to x = Some u" for t x u
  proof -
    have "tv_reply (threads_of s') t = Some u" using that by simp
    with th(3) obtain d where "tv_state (threads_of s') u = Some (BlockedReply d)" unfolding replies_ok_def by blast
    then show ?thesis by auto
  qed
  moreover have "object_exists s' (RCNode i)" if "get_tcb s' t = Some x" "tcb_cspace x = Some i" for t x i
  proof -
    have "i \<in> cspaces s'" unfolding cspaces_def using that by (auto intro: exI [of _ t])
    with spaces show ?thesis by blast
  qed
  ultimately show ?thesis using caps links unfolding links_ok_def by blast
qed

theorem references_resolve_witness:
  "\<exists>s'. run_traps toy (demo Ready) [regs 13 1 0 5 4 65536 3, regs 11 0 0 7 6 8 4] = Some s'
     \<and> (\<forall>t x. get_tcb s' t = Some x \<longrightarrow> tcb_links_ok s' x)"
proof -
  have inv: "kernel_inv (demo Ready)" by (rule demo_inv) simp
  obtain s' where run: "run_traps toy (demo Ready) [regs 13 1 0 5 4 65536 3, regs 11 0 0 7 6 8 4] = Some s'"
    using run_traps_inv [OF toy_laws inv] by blast
  from references_resolve [OF toy_laws inv demo_links run] run show ?thesis by blast
qed

text \<open>
  C14. Reply links are sound: the thread a pending reply link names waits for a reply, and no
  other thread holds a link to it, so the \<open>expect\<close> of \<open>Reply\<close> never fails and nobody else can
  answer.
\<close>

theorem reply_links_valid:
  assumes "frame_laws H" and "paging_laws H" and "reachable H s"
    and "get_tcb s t = Some x" and "tcb_reply_to x = Some u"
  shows "(\<exists>y d. get_tcb s u = Some y \<and> tcb_state y = BlockedReply d)
     \<and> (\<forall>t' x'. get_tcb s t' = Some x' \<and> tcb_reply_to x' = Some u \<longrightarrow> t' = t)"
proof -
  have r: "replies_ok (threads_of s)" by (rule reachable_threads(3) [OF assms(1-3)])
  have l: "tv_reply (threads_of s) t = Some u" using assms(4,5) by simp
  obtain d where "tv_state (threads_of s) u = Some (BlockedReply d)" using r l unfolding replies_ok_def by blast
  moreover have "t' = t" if "get_tcb s t' = Some x'" "tcb_reply_to x' = Some u" for t' x'
  proof -
    have "tv_reply (threads_of s) t' = Some u" using that by simp
    with r l show ?thesis unfolding replies_ok_def by blast
  qed
  ultimately show ?thesis by auto
qed

theorem reply_links_valid_witness:
  "\<exists>y d. get_tcb (demo_started (BlockedReply None)) (TcbId 1) = Some y \<and> tcb_state y = BlockedReply d"
proof -
  have "Option.bind (get_tcb (demo_started (BlockedReply None)) (TcbId 0)) tcb_reply_to = Some (TcbId 1)"
    using demo_started_state(2) [of "BlockedReply None"] by simp
  then obtain x where x: "get_tcb (demo_started (BlockedReply None)) (TcbId 0) = Some x" "tcb_reply_to x = Some (TcbId 1)"
    by (auto simp: bind_eq_Some_conv)
  from reply_links_valid [OF toy_laws demo_reachable x] show ?thesis by simp
qed

text \<open>
  C15. No lost wakeup: in every reachable state an endpoint never has both a waiting sender and
  a waiting receiver, and a notification with pending signals has no waiter.
\<close>

theorem no_lost_wakeups:
  assumes "frame_laws H" and "paging_laws H" and "reachable H s"
  shows "(wait_list s (PSend e) = [] \<or> wait_list s (PRecv e) = [])
     \<and> (tv_signals (threads_of s) n = 0 \<or> wait_list s (PWait n) = [])"
  using reachable_threads(4,5) [OF assms] by (auto simp: rendezvous_ok_def signals_ok_def simp del: wait_list.simps)

theorem no_lost_wakeups_witness:
  "wait_list (demo_started (BlockedRecv (EndpointId 0) None)) (PSend (EndpointId 0)) = []
   \<or> wait_list (demo_started (BlockedRecv (EndpointId 0) None)) (PRecv (EndpointId 0)) = []"
proof -
  have "reachable toy (demo_started (BlockedRecv (EndpointId 0) None))" by (rule demo_reachable) simp
  from no_lost_wakeups [OF toy_laws this] show ?thesis by blast
qed

text \<open>
  A trap moves every thread along the thread state machine or leaves it where it was: a
  blocked sender becomes ready or waits for its reply, a waiting caller runs only when it is
  replied to, and an existing thread never disappears or becomes inactive again.
\<close>

theorem thread_transitions:
  assumes "frame_laws H" and "paging_laws H" and "kernel_inv s" and "dispatch H s f = Some (s', f')"
    and "get_tcb s t = Some x"
  shows "\<exists>y. get_tcb s' t = Some y \<and> (tcb_state y = tcb_state x \<or> transition (tcb_state x) (tcb_state y))"
proof -
  have ok: "threads_ok (threads_of s)" using assms(3) by (simp add: kernel_inv_def)
  have t: "tv_state (threads_of s) t = Some (tcb_state x)" using assms(5) by simp
  from dispatch_step [OF assms(1-4)]
  have "\<exists>y. tv_state (threads_of s') t = Some y \<and> (y = tcb_state x \<or> transition (tcb_state x) y)"
  proof
    assume "\<exists>c. current_of s = Some c \<and> tstep c (threads_of s) (threads_of s')"
    then obtain c where "current_of s = Some c" and step: "tstep c (threads_of s) (threads_of s')" by blast
    then have "tv_current (threads_of s) = Some c" by simp
    from tstep_transition [OF step this ok t] show ?thesis .
  qed (simp only: t, blast)
  then show ?thesis by auto
qed

theorem thread_transitions_witness:
  "\<exists>s' f' y. dispatch toy (demo (BlockedSend (EndpointId 0) 7 True None None)) (regs 3 0 0 9 11 12 13) = Some (s', f')
     \<and> get_tcb s' (TcbId 1) = Some y
     \<and> (tcb_state y = BlockedSend (EndpointId 0) 7 True None None \<or> tcb_state y = BlockedReply None)"
proof -
  let ?x = "BlockedSend (EndpointId 0) 7 True None None"
  have inv: "kernel_inv (demo ?x)" by (rule demo_inv) simp
  obtain s' f' where d: "dispatch toy (demo ?x) (regs 3 0 0 9 11 12 13) = Some (s', f')"
    by (rule demo_dispatch [of ?x]) simp
  have t: "get_tcb (demo ?x) (TcbId 1) = Some (demo_tcb ?x None)" by (simp only: demo_get_tcb) simp
  from thread_transitions [OF toy_laws inv d t] d show ?thesis by (auto simp: demo_tcb_def)
qed

text \<open>
  C16. A caller stays blocked until its reply: a thread waiting for a reply keeps waiting over
  any trap, unless the running thread held the link to it; then the link is gone and the
  caller runs.
\<close>

theorem caller_waits_for_reply:
  assumes "frame_laws H" and "paging_laws H" and "kernel_inv s" and "current_of s = Some c"
    and "dispatch H s f = Some (s', f')" and "get_tcb s t = Some x" and "tcb_state x = BlockedReply d"
  shows "map_option tcb_state (get_tcb s' t) = Some (BlockedReply d)
    \<or> Option.bind (get_tcb s c) tcb_reply_to = Some t \<and> Option.bind (get_tcb s' c) tcb_reply_to = None
      \<and> current_of s' = Some t"
proof -
  have ok: "threads_ok (threads_of s)" using assms(3) by (simp add: kernel_inv_def)
  have t: "tv_state (threads_of s) t = Some (BlockedReply d)" using assms(6,7) by simp
  from dispatch_step [OF assms(1-3,5)] show ?thesis
  proof
    assume "threads_of s' = threads_of s"
    with t show ?thesis by (metis threads_of_simps(1))
  next
    assume "\<exists>c. current_of s = Some c \<and> tstep c (threads_of s) (threads_of s')"
    then have "tstep c (threads_of s) (threads_of s')" using assms(4) by auto
    from tstep_caller_waits [OF this _ ok t] assms(4) show ?thesis by auto
  qed
qed

theorem caller_waits_for_reply_witness:
  "\<exists>s' f'. dispatch toy (demo (BlockedReply None)) (regs 5 0 0 0 1 2 3) = Some (s', f')
     \<and> (map_option tcb_state (get_tcb s' (TcbId 1)) = Some (BlockedReply None) \<or> current_of s' = Some (TcbId 1))"
proof -
  let ?x = "BlockedReply None"
  have inv: "kernel_inv (demo ?x)" by (rule demo_inv) simp
  obtain s' f' where d: "dispatch toy (demo ?x) (regs 5 0 0 0 1 2 3) = Some (s', f')"
    by (rule demo_dispatch [of ?x]) simp
  have t: "get_tcb (demo ?x) (TcbId 1) = Some (demo_tcb ?x None)" by (simp only: demo_get_tcb) simp
  from caller_waits_for_reply [OF toy_laws inv demo_current d t, of None] d show ?thesis
    by (auto simp: demo_tcb_def)
qed

section \<open>Scheduling\<close>

text \<open>
  C17. The ready queue is first in, first out: a trap removes at most the thread at its head,
  which then runs, and appends at most one thread; no trap reorders or drops a ready thread.
\<close>

theorem ready_queue_fifo:
  assumes "frame_laws H" and "paging_laws H" and "kernel_inv s" and "dispatch H s f = Some (s', f')"
  shows "\<exists>zs. length zs \<le> 1 \<and> (wait_list s' PReady = wait_list s PReady @ zs
     \<or> (\<exists>u us. wait_list s PReady = u # us \<and> wait_list s' PReady = us @ zs \<and> current_of s' = Some u))"
proof -
  have ok: "threads_ok (threads_of s)" using assms(3) by (simp add: kernel_inv_def)
  have "fifo_step (threads_of s) (threads_of s')"
    using dispatch_step [OF assms]
  proof
    assume "\<exists>c. current_of s = Some c \<and> tstep c (threads_of s) (threads_of s')"
    then obtain c where "current_of s = Some c" and step: "tstep c (threads_of s) (threads_of s')" by blast
    then have "tv_current (threads_of s) = Some c" by simp
    from tstep_ready_fifo [OF step this ok] show ?thesis .
  next
    assume "threads_of s' = threads_of s"
    then show ?thesis by (intro fifo_keep) simp
  qed
  then show ?thesis by (simp add: fifo_step_def del: wait_list.simps)
qed

theorem ready_queue_fifo_witness:
  "\<exists>s' f' zs. dispatch toy (demo (BlockedRecv (EndpointId 0) None)) (regs 1 0 0 1 11 12 13) = Some (s', f')
     \<and> wait_list s' PReady = zs \<and> length zs \<le> 1"
proof -
  let ?x = "BlockedRecv (EndpointId 0) None"
  have inv: "kernel_inv (demo ?x)" by (rule demo_inv) simp
  obtain s' f' where d: "dispatch toy (demo ?x) (regs 1 0 0 1 11 12 13) = Some (s', f')"
    by (rule demo_dispatch [of ?x]) simp
  have "wait_list (demo ?x) PReady = []" by (simp add: demo_wait_list del: wait_list.simps)
  with ready_queue_fifo [OF toy_laws inv d] d show ?thesis by (simp del: wait_list.simps)
qed

text \<open>
  C18. No starvation under \<open>Yield\<close>: after \<open>k\<close> yields the thread at position \<open>k\<close> of the ring runs, the
  running thread being at position 0 and the ready queue following in order, whatever the
  registers of each yield hold otherwise; the ready queue is then the rest of the ring rotated
  by \<open>k\<close>. The ring holds at most eight threads, so a ready thread runs after at most seven yields.
\<close>

theorem yield_round_robin:
  assumes laws: "frame_laws H" "paging_laws H" and inv: "kernel_inv s" and cur: "current_of s = Some c"
    and k: "k < length (c # wait_list s PReady)" and len: "length fs = k"
    and yields: "\<forall>f\<in>set fs. h_syscall_number H f = 12"
  shows "k < MAX_TCBS \<and> (\<exists>s'. run_traps H s fs = Some s' \<and> current_of s' = Some ((c # wait_list s PReady) ! k)
     \<and> wait_list s' PReady = tl (rotate k (c # wait_list s PReady)))"
proof -
  have ring: "ring s = c # wait_list s PReady" using cur by (simp add: ring_def del: wait_list.simps)
  obtain s' where run: "run_traps H s fs = Some s'" and r: "ring s' = rotate k (ring s)"
    using yields_rotate [OF laws inv _ yields] cur len by auto
  have hd: "hd (ring s') = ring s ! k" "ring s' \<noteq> []" using k by (simp_all add: r ring hd_rotate_conv_nth)
  then have "current_of s' = Some (ring s ! k)" "wait_list s' PReady = tl (ring s')"
    by (auto simp: ring_def split: option.splits)
  with run r ring ring_bound [OF inv] k show ?thesis by (auto simp del: wait_list.simps)
qed

theorem yield_round_robin_witness:
  "\<exists>s'. run_traps toy (demo Ready) [regs 12 0 0 0 7 8 9] = Some s' \<and> current_of s' = Some (TcbId 1)
     \<and> wait_list s' PReady = [TcbId 0]"
proof -
  let ?f = "regs 12 0 0 0 7 8 9"
  have inv: "kernel_inv (demo Ready)" by (rule demo_inv) simp
  have wl: "wait_list (demo Ready) PReady = [TcbId 1]" by (simp add: demo_wait_list del: wait_list.simps)
  have "h_syscall_number toy ?f = 12" by (simp add: toy_def regs_def)
  then show ?thesis
    using yield_round_robin [OF toy_laws inv demo_current, of 1 "[?f]"] wl by (auto simp del: wait_list.simps)
qed

text \<open>
  C19. Entering the first thread: it becomes the running thread, leaves the ready queue, the
  invariant holds, and the frame handed to user mode carries the message registers and raw
  words saved for it.
\<close>

theorem first_thread_enters:
  assumes laws: "frame_laws H" and inv: "kernel_inv s" and start: "startable s t"
    and t: "get_tcb s t = Some x" and e: "enter_first_thread H s t = (s', f')"
  shows "kernel_inv s' \<and> current_of s' = Some t \<and> wait_list s' PReady = filter (\<lambda>u. u \<noteq> t) (wait_list s PReady)
    \<and> (\<forall>i<4. h_mr H f' i = ctx_mr (tcb_context x) i) \<and> (\<forall>k<RAW_WORDS. h_raw_word H f' k = ctx_raw (tcb_context x) ! k)"
proof -
  have wf: "ctx_wf (tcb_context x)" using wf_objects(3) [OF _ t] inv by (simp add: kernel_inv_def)
  have "f' = restore_into H (tcb_context x) (h_zeroed H)" using e t by (simp add: enter_first_thread_def Let_def)
  then have "(\<forall>i<4. h_mr H f' i = ctx_mr (tcb_context x) i) \<and> (\<forall>k<RAW_WORDS. h_raw_word H f' k = ctx_raw (tcb_context x) ! k)"
    using restore_into_reads(3,4) [OF laws wf] by simp
  moreover have "threads_of s' = (shift (threads_of s) t Running)\<lparr>tv_current := Some t\<rparr>"
    using enter_first_thread_view(1) [OF inv start, of H] e by simp
  from arg_cong [OF this, of tv_current] arg_cong [OF this, of "\<lambda>v. tv_queue v PReady"]
  have "current_of s' = Some t" and "wait_list s' PReady = filter (\<lambda>u. u \<noteq> t) (wait_list s PReady)"
    by (simp_all add: shift_ready del: wait_list.simps)
  ultimately show ?thesis using enter_first_thread_inv [OF inv start, of H] e by (simp del: wait_list.simps)
qed

theorem first_thread_enters_witness:
  "\<exists>s' f'. enter_first_thread toy (demo_boot Ready) (TcbId 0) = (s', f') \<and> current_of s' = Some (TcbId 0)"
proof -
  have inv: "kernel_inv (demo_boot Ready)" by (rule demo_boot_inv) simp
  obtain x where x: "get_tcb (demo_boot Ready) (TcbId 0) = Some x"
    using demo_startable [of Ready] by (auto simp: startable_def split: option.splits)
  obtain s' f' where "enter_first_thread toy (demo_boot Ready) (TcbId 0) = (s', f')" by fastforce
  with first_thread_enters [OF toy_laws(1) inv demo_startable x this] show ?thesis by blast
qed

section \<open>Errors\<close>

text \<open>
  C20. Failed system calls are atomic but for memory: an error returns the kernel state exactly
  as it was at the trap, except that \<open>FrameInvoke\<close> may have taken page tables from the kernel's
  arena, and \<open>UntypedRetype\<close> those or bytes of an Untyped; no failed call costs budget.
\<close>

theorem errors_change_nothing:
  assumes "frame_laws H" and "paging_laws H" and "kernel_inv s" and "current_of s = Some c"
    and "syscall_from_usize (h_syscall_number H f) = Some n" and "run_syscall H s c f n = Err e s1 f1"
  shows "dispatch H s f = Some (s1, reply_error H f e)
    \<and> s1 = s\<lparr>ks_untypeds := ks_untypeds s1, ks_page_tables := ks_page_tables s1\<rparr>
    \<and> (\<forall>i. map_option ut_remaining (pool_get (ks_untypeds s1) i) = map_option ut_remaining (pool_get (ks_untypeds s) i))
    \<and> (n \<noteq> SysUntypedRetype \<longrightarrow> ks_untypeds s1 = ks_untypeds s)
    \<and> (n \<noteq> SysUntypedRetype \<longrightarrow> n \<noteq> SysFrameInvoke \<longrightarrow> s1 = s)"
proof -
  have run: "running c s" using assms(3,4) by (simp add: running_def)
  note F = run_syscall_failed [OF assms(1) run assms(6)]
  have "dispatch H s f = Some (s1, reply_error H f e)"
    using assms(6) run_syscall_Err(1) [OF assms(1,2) run assms(6)] by (simp add: dispatch_run [OF assms(4,5)])
  moreover have "n \<noteq> SysUntypedRetype \<longrightarrow> ks_untypeds s1 = ks_untypeds s"
  proof
    assume "n \<noteq> SysUntypedRetype"
    from arg_cong [OF F(2) [OF this, unfolded only_page_tables_def], of ks_untypeds] show "ks_untypeds s1 = ks_untypeds s" by simp
  qed
  ultimately show ?thesis using F(1,3) unfolding only_memory_def by blast
qed

theorem errors_change_nothing_witness:
  "dispatch toy (demo Ready) (regs 1 0 0 0 11 12 13) = Some (demo Ready, reply_error toy (regs 1 0 0 0 11 12 13) InvalidCapability)"
proof -
  have n: "syscall_from_usize (h_syscall_number toy (regs 1 0 0 0 11 12 13)) = Some SysSend"
    by (simp add: toy_def regs_def syscall_from_usize_def)
  have "h_mr toy (regs 1 0 0 0 11 12 13) 0 = 0" by (simp add: toy_def regs_def)
  then have r: "run_syscall toy (demo Ready) (TcbId 0) (regs 1 0 0 0 11 12 13) SysSend
      = Err InvalidCapability (demo Ready) (regs 1 0 0 0 11 12 13)"
    by (simp add: run_syscall_def send_def resolve_endpoint_def demo_lookup demo_cnode_def cnode_get_def)
  from errors_change_nothing [OF toy_laws demo_inv demo_current n r] show ?thesis by simp
qed

text \<open>
  C21. Every error reaches user code, of a system call as of a number that names none: the trap
  returns with the error flag of the tag set, the error's code in message register 0 and the
  other message registers as they were; no thread and no capability slot changes.
\<close>

theorem errors_are_reported:
  assumes "frame_laws H" and "paging_laws H" and "kernel_inv s" and "current_of s = Some c"
    and "trap_fails H s c f e s'"
  shows "\<exists>f'. dispatch H s f = Some (s', f') \<and> tag_is_error H (h_tag H f') \<and> h_mr H f' 0 = error_code e
    \<and> (\<forall>i. i \<noteq> 0 \<longrightarrow> h_mr H f' i = h_mr H f i) \<and> threads_of s' = threads_of s
    \<and> ks_tcbs s' = ks_tcbs s \<and> ks_cnodes s' = ks_cnodes s"
proof -
  have run: "running c s" using assms(3,4) by (simp add: running_def)
  from trap_fails_reported [OF assms(1,2) run assms(5)] show ?thesis
    by (simp add: reply_error_tag [OF assms(1)] same_caps_def)
qed

theorem errors_are_reported_witness:
  "(\<exists>f'. dispatch toy (demo Ready) (regs 10 0 0 1 7 8 9) = Some (demo Ready, f') \<and> tag_is_error toy (h_tag toy f')
     \<and> h_mr toy f' 0 = 1 \<and> h_mr toy f' 1 = 7)
   \<and> (\<exists>f'. dispatch toy (demo Ready) (regs 99 0 0 1 7 8 9) = Some (demo Ready, f') \<and> tag_is_error toy (h_tag toy f')
     \<and> h_mr toy f' 0 = error_code IllegalOperation \<and> h_mr toy f' 1 = 7)"
proof
  let ?f = "regs 10 0 0 1 7 8 9" and ?g = "regs 99 0 0 1 7 8 9"
  have inv: "kernel_inv (demo Ready)" by (rule demo_inv) simp
  have n: "syscall_from_usize (h_syscall_number toy ?f) = Some SysUntypedRetype" "syscall_from_usize (h_syscall_number toy ?g) = None"
    by (simp_all add: toy_def regs_def syscall_from_usize_def)
  have f: "h_mr toy ?f 0 = 1" "h_mr toy ?f 1 = 7" "h_mr toy ?g 1 = 7" by (simp_all add: toy_def regs_def)
  then have "run_syscall toy (demo Ready) (TcbId 0) ?f SysUntypedRetype = Err InvalidCapability (demo Ready) ?f"
    by (simp add: run_syscall_def untyped_retype_def demo_lookup demo_cnode_def cnode_get_def Let_def)
  then have "trap_fails toy (demo Ready) (TcbId 0) ?f InvalidCapability (demo Ready)"
    and "trap_fails toy (demo Ready) (TcbId 0) ?g IllegalOperation (demo Ready)"
    using n by (simp_all add: trap_fails_def)
  note F = this [THEN errors_are_reported [OF toy_laws inv demo_current]]
  show "\<exists>f'. dispatch toy (demo Ready) ?f = Some (demo Ready, f') \<and> tag_is_error toy (h_tag toy f')
     \<and> h_mr toy f' 0 = 1 \<and> h_mr toy f' 1 = 7" using F(1) f by auto
  show "\<exists>f'. dispatch toy (demo Ready) ?g = Some (demo Ready, f') \<and> tag_is_error toy (h_tag toy f')
     \<and> h_mr toy f' 0 = error_code IllegalOperation \<and> h_mr toy f' 1 = 7" using F(2) f by auto
qed

end
